(* ===== verification/Prelude.thy ===== *)
theory Prelude
  imports
    "HOL-Library.Word"
    "HOL-Library.Char_ord"
    "HOL-Library.List_Lexorder"
    "HOL-Library.Product_Lexorder"
    "HOL-Library.Multiset"
    "HOL-Library.AList"
begin

text \<open>
  What every component shares: Go's machine integers, messages and errors as values, the text
  operations of the packages \<^verbatim>\<open>strings\<close>, \<^verbatim>\<open>strconv\<close> and
  \<^verbatim>\<open>slices\<close> that the source uses, and the generic lemmas on sorting, joining and
  association lists that the component proofs rest on.

  A Go string is a \<^typ>\<open>string\<close> (a list of bytes).  \<^verbatim>\<open>strings.Compare\<close> is
  the byte-wise lexicographic order, which is the order that the library theories
  \<^verbatim>\<open>Char_ord\<close> and \<^verbatim>\<open>List_Lexorder\<close> put on \<^typ>\<open>string\<close>.
\<close>

section \<open>Machine integers, durations and times\<close>

type_synonym int32 = "32 word"
type_synonym duration = int
type_synonym time = int

text \<open>Go's \<^verbatim>\<open>int32(v)\<close> of a wider integer keeps the low 32 bits.\<close>

definition to_int32 :: "int \<Rightarrow> int32" where
  "to_int32 v = word_of_int v"

text \<open>Durations and instants are counted in nanoseconds.\<close>

definition Second :: duration where
  "Second = 1000000000"

definition Minute :: duration where
  "Minute = 60 * Second"

text \<open>\<^verbatim>\<open>time.Time.Sub\<close> saturates at the bounds of \<^verbatim>\<open>time.Duration\<close>.\<close>

definition time_sub :: "time \<Rightarrow> time \<Rightarrow> duration" where
  "time_sub t u = max (- (2 ^ 63)) (min (2 ^ 63 - 1) (t - u))"

section \<open>Messages and errors\<close>

text \<open>
  A message made by \<^verbatim>\<open>fmt\<close> is a list of fragments: literal text, a string printed with
  \<^verbatim>\<open>%q\<close>, and the text of an error that the standard library makes from its input.
  Keeping the last three symbolic avoids modelling \<^verbatim>\<open>strconv.Quote\<close>: each is a function
  of the string it carries.
\<close>

datatype frag = Lit string | Quoted string | ParseAddrText string | ParsePrefixText string

type_synonym msg = "frag list"

datatype go_error =
    Errorf msg
  | Wrapped msg go_error
  | NotFoundError msg
  | ConflictError msg
  | UnsupportedSourceError string
  | ErrRemoteNotImplemented string
  | AccessDeniedError string string
  | ClusterNotFoundError string
  | ErrAccessTypeNotImplemented string
  | ErrNotPermitted msg

type_synonym 'a result = "go_error + 'a"

text \<open>The method \<^verbatim>\<open>Error\<close> of each error.\<close>

fun Error :: "go_error \<Rightarrow> msg" where
  "Error (Errorf m) = m"
| "Error (Wrapped m e) = m @ Error e"
| "Error (NotFoundError m) = m"
| "Error (ConflictError m) = m"
| "Error (UnsupportedSourceError t) =
     [Lit ''source type '', Lit t, Lit '' is not implemented in this build'']"
| "Error (ErrRemoteNotImplemented c) =
     [Lit ''remote cluster '', Quoted c,
      Lit '' is not available in this build: remote access lands in a later milestone'']"
| "Error (AccessDeniedError ns c) =
     [Lit ''namespace '', Quoted ns, Lit '' is not permitted to reference RemoteCluster '', Quoted c]"
| "Error (ClusterNotFoundError n) = [Lit ''RemoteCluster '', Quoted n, Lit '' not found'']"
| "Error (ErrAccessTypeNotImplemented t) =
     [Lit ''access type '', Quoted t, Lit '' is not implemented in this build'']"
| "Error (ErrNotPermitted m) = m"

text \<open>\<^verbatim>\<open>apierrors.IsNotFound\<close> looks through wrapping.\<close>

fun IsNotFound :: "go_error \<Rightarrow> bool" where
  "IsNotFound (NotFoundError m) = True"
| "IsNotFound (Wrapped m e) = IsNotFound e"
| "IsNotFound e = False"

definition boolOrTrue :: "bool option \<Rightarrow> bool" where
  "boolOrTrue b = (case b of None \<Rightarrow> True | Some v \<Rightarrow> v)"

section \<open>Text\<close>

fun join :: "string \<Rightarrow> string list \<Rightarrow> string" where
  "join sep [] = []"
| "join sep [x] = x"
| "join sep (x # y # zs) = x @ sep @ join sep (y # zs)"

definition digit_char :: "int \<Rightarrow> char" where
  "digit_char d = (if d < 10 then char_of (48 + d) else char_of (87 + d))"

text \<open>
  Positional notation without leading zeros, in base ten (\<^verbatim>\<open>%d\<close>) and sixteen, for a
  number that is not negative.  Numbers are \<^typ>\<open>int\<close> so that concrete terms evaluate in binary.
\<close>

function decimal :: "int \<Rightarrow> string" where
  "decimal n = (if n < 10 then [digit_char n] else decimal (n div 10) @ [digit_char (n mod 10)])"
  by pat_completeness auto
termination
  by (relation "measure nat") auto

function hexadecimal :: "int \<Rightarrow> string" where
  "hexadecimal n =
     (if n < 16 then [digit_char n] else hexadecimal (n div 16) @ [digit_char (n mod 16)])"
  by pat_completeness auto
termination
  by (relation "measure nat") auto

declare decimal.simps [simp del] hexadecimal.simps [simp del]

definition string_of_int :: "int \<Rightarrow> string" where
  "string_of_int i = (if i < 0 then ''-'' @ decimal (- i) else decimal i)"

definition HasSuffix :: "string \<Rightarrow> string \<Rightarrow> bool" where
  "HasSuffix s t \<longleftrightarrow> length t \<le> length s \<and> drop (length s - length t) s = t"

definition HasPrefix :: "string \<Rightarrow> string \<Rightarrow> bool" where
  "HasPrefix s t \<longleftrightarrow> take (length t) s = t"

fun Contains :: "string \<Rightarrow> string \<Rightarrow> bool" where
  "Contains [] t \<longleftrightarrow> t = []"
| "Contains (c # s) t \<longleftrightarrow> HasPrefix (c # s) t \<or> Contains s t"

text \<open>
  The UTF-8 encodings of the runes that \<^verbatim>\<open>unicode.IsSpace\<close> accepts, which
  \<^verbatim>\<open>strings.TrimSpace\<close> removes from both ends.
\<close>

definition space_runes :: "string list" where
  "space_runes =
     map (map (char_of :: nat \<Rightarrow> char))
       ([[9], [10], [11], [12], [13], [32], [194, 133], [194, 160], [225, 154, 128],
         [226, 128, 168], [226, 128, 169], [226, 128, 175], [226, 129, 159], [227, 128, 128]]
        @ map (\<lambda>k. [226, 128, 128 + k]) [0..<11])"

function TrimLeftSpace :: "string \<Rightarrow> string" where
  "TrimLeftSpace s =
     (case find (HasPrefix s) space_runes of
        None \<Rightarrow> s
      | Some r \<Rightarrow> if s = [] \<or> r = [] then s else TrimLeftSpace (drop (length r) s))"
  by pat_completeness auto
termination
  by (relation "measure length") (auto simp: neq_Nil_conv)

function TrimRightSpace :: "string \<Rightarrow> string" where
  "TrimRightSpace s =
     (case find (HasSuffix s) space_runes of
        None \<Rightarrow> s
      | Some r \<Rightarrow> if s = [] \<or> r = [] then s else TrimRightSpace (take (length s - length r) s))"
  by pat_completeness auto
termination
  by (relation "measure length") (auto simp: neq_Nil_conv)

declare TrimLeftSpace.simps [simp del] TrimRightSpace.simps [simp del]

definition TrimSpace :: "string \<Rightarrow> string" where
  "TrimSpace s = TrimRightSpace (TrimLeftSpace s)"

text \<open>\<^verbatim>\<open>strings.TrimRight(s, "-")\<close>, for one cut byte.\<close>

definition TrimRight :: "char \<Rightarrow> string \<Rightarrow> string" where
  "TrimRight c s = rev (dropWhile (\<lambda>d. d = c) (rev s))"

definition TrimLeft :: "char \<Rightarrow> string \<Rightarrow> string" where
  "TrimLeft c s = dropWhile (\<lambda>d. d = c) s"

section \<open>Lemmas on text and lists\<close>

lemma join_Cons: "xs \<noteq> [] \<Longrightarrow> join sep (x # xs) = x @ sep @ join sep xs"
  by (cases xs) auto

lemma set_join: "set (join sep xs) \<subseteq> set sep \<union> (\<Union>x\<in>set xs. set x)"
  by (induction sep xs rule: join.induct) auto

lemma find_split: "\<forall>c\<in>set u. \<not> P c \<Longrightarrow> P x \<Longrightarrow> find P (u @ x # v) = Some x"
  by (induction u) auto

lemma append_sep_eq:
  "x \<notin> set u \<Longrightarrow> x \<notin> set v \<Longrightarrow> u @ x # r = v @ x # s \<longleftrightarrow> u = v \<and> r = s"
proof (induction u arbitrary: v)
  case Nil then show ?case by (cases v) auto
next
  case (Cons a u) then show ?case by (cases v) auto
qed

text \<open>The distinct elements of a list in order of first occurrence.\<close>

definition firsts :: "'a list \<Rightarrow> 'a list" where
  "firsts xs = rev (remdups (rev xs))"

lemma firsts_snoc: "firsts (xs @ [x]) = (if x \<in> set xs then firsts xs else firsts xs @ [x])"
  by (simp add: firsts_def)

lemma firsts_simps [simp]: "set (firsts xs) = set xs" "distinct (firsts xs)" "firsts [] = []"
  by (simp_all add: firsts_def)

subsection \<open>Sorting by a key\<close>

text \<open>
  \<^verbatim>\<open>slices.SortFunc\<close> promises some sorted permutation and no stability.  Where the key tells
  the elements apart there is only one, so a model that sorts with \<^const>\<open>sort_key\<close> loses nothing
  and the result does not depend on the order of the input.
\<close>

lemma sort_key_perm_eq:
  "mset xs = mset ys \<Longrightarrow> inj_on f (set xs) \<Longrightarrow> sort_key f xs = sort_key f ys"
  by (rule sort_key_inj_key_eq) simp_all

lemma sorted_perm_unique:
  "mset ys = mset xs \<Longrightarrow> inj_on f (set xs) \<Longrightarrow> sorted (map f ys) \<Longrightarrow> sort_key f xs = ys"
  by (rule sort_key_inj_key_eq) simp_all

lemma sort_key_idem: "sorted (map f xs) \<Longrightarrow> sort_key f xs = xs"
  by (rule sort_key_id_if_sorted)

lemma distinct_map_sort_key: "distinct (map f (sort_key g xs)) \<longleftrightarrow> distinct (map f xs)"
  by (simp add: distinct_map)

lemma mset_concat_map_perm:
  assumes "mset xs = mset ys"
  shows "mset (concat (map f xs)) = mset (concat (map f ys))"
proof -
  have "mset (concat (map f zs)) = sum_mset (image_mset (\<lambda>x. mset (f x)) (mset zs))" for zs
    by (induction zs) simp_all
  then show ?thesis using assms by simp
qed

subsection \<open>Association lists, partitions and concatenations\<close>

lemma map_filter_append: "List.map_filter f (xs @ ys) = List.map_filter f xs @ List.map_filter f ys"
  by (simp add: List.map_filter_def)

lemma alist_update_new: "k \<notin> fst ` set m \<Longrightarrow> AList.update k v m = m @ [(k, v)]"
  by (induction m) auto

lemma alist_delete_absent: "k \<notin> fst ` set m \<Longrightarrow> AList.delete k m = m"
  by (induction m) auto

lemma alist_delete_mset:
  "distinct (map fst m) \<Longrightarrow> map_of m k = Some v \<Longrightarrow>
     image_mset snd (mset m) = add_mset v (image_mset snd (mset (AList.delete k m)))"
  by (induction m) (auto simp: alist_delete_absent split: if_splits)

lemma concat_filter_keys:
  "distinct ks \<Longrightarrow> mset (concat (map (\<lambda>k. filter (\<lambda>x. f x = k) xs) ks)) = mset (filter (\<lambda>x. f x \<in> set ks) xs)"
proof (induction ks)
  case (Cons k ks)
  have "mset (filter (\<lambda>x. f x = k) zs) + mset (filter (\<lambda>x. f x \<in> set ks) zs) =
      mset (filter (\<lambda>x. f x = k \<or> f x \<in> set ks) zs)" for zs
    using Cons.prems by (induction zs) auto
  with Cons show ?case by simp
qed simp

lemma distinct_map_partition:
  "distinct (map f (filter P xs)) \<Longrightarrow> distinct (map f (filter (\<lambda>x. \<not> P x) xs)) \<Longrightarrow>
     f ` set (filter P xs) \<inter> f ` set (filter (\<lambda>x. \<not> P x) xs) = {} \<Longrightarrow> distinct (map f xs)"
  by (induction xs) (auto split: if_splits)

lemma mset_rejoin:
  assumes "A + B = filter_mset P M"
  shows "A + (filter_mset (\<lambda>x. \<not> P x) M + B) = M"
proof -
  have "A + (filter_mset (\<lambda>x. \<not> P x) M + B) = (A + B) + filter_mset (\<lambda>x. \<not> P x) M" by simp
  also have "\<dots> = M" unfolding assms by (rule multiset_partition [symmetric])
  finally show ?thesis .
qed

lemma distinct_concat_unique:
  "distinct (concat (map f xs)) \<Longrightarrow> x \<in> set xs \<Longrightarrow> y \<in> set xs \<Longrightarrow> e \<in> set (f x) \<Longrightarrow> e \<in> set (f y) \<Longrightarrow> x = y"
  by (induction xs) auto

lemma distinct_concat_elem: "distinct (concat (map f xs)) \<Longrightarrow> x \<in> set xs \<Longrightarrow> distinct (f x)"
  by (induction xs) auto

lemma insort_key_map: "insort_key k (f x) (map f xs) = map f (insort_key (\<lambda>x. k (f x)) x xs)"
  by (induction xs) auto

lemma sort_key_map: "sort_key k (map f xs) = map f (sort_key (\<lambda>x. k (f x)) xs)"
  by (induction xs) (simp_all add: insort_key_map)

lemma find_distinct_key: "distinct (map f xs) \<Longrightarrow> x \<in> set xs \<Longrightarrow> find (\<lambda>y. f y = f x) xs = Some x"
  by (induction xs) (auto simp: rev_image_eqI)

section \<open>Words and their values\<close>

text \<open>
  Tests on the leading bits of a word, as integer arithmetic on its value; the collection
  \<open>bits_to_int\<close> turns the one into the other.
\<close>

unbundle bit_operations_syntax

named_theorems bits_to_int

lemma uint_drop_bit_div [bits_to_int]: "uint (drop_bit k (w :: 'a::len word)) = uint w div 2 ^ k"
proof -
  have "uint (drop_bit k w) = drop_bit k (uint w)"
    by (rule bit_eqI) (auto simp: bit_simps dest: bit_imp_le_length)
  then show ?thesis by (simp only: drop_bit_eq_div)
qed

lemma drop_bit_word_eq: "drop_bit k (w :: 'a::len word) = c \<longleftrightarrow> uint w div 2 ^ k = uint c"
  by (simp only: word_uint_eq_iff uint_drop_bit_div)

lemma drop_bit_xor_eq_0 [bits_to_int]:
  "drop_bit k ((v :: 'a::len word) XOR w) = 0 \<longleftrightarrow> uint w div 2 ^ k = uint v div 2 ^ k"
proof -
  have "drop_bit k (v XOR w) = 0 \<longleftrightarrow> drop_bit k w = drop_bit k v"
    by (auto simp: bit_eq_iff bit_simps)
  then show ?thesis by (simp only: drop_bit_word_eq uint_drop_bit_div)
qed

lemma div_eq_interval:
  assumes "0 < d"
  shows "(x::int) div d = q \<longleftrightarrow> q * d \<le> x \<and> x < (q + 1) * d"
proof
  assume "x div d = q"
  moreover have "x = x div d * d + x mod d" by simp
  moreover have "0 \<le> x mod d \<and> x mod d < d" using assms by simp
  ultimately show "q * d \<le> x \<and> x < (q + 1) * d" by (simp add: distrib_right)
next
  assume "q * d \<le> x \<and> x < (q + 1) * d"
  then show "x div d = q"
    using assms by (intro int_div_pos_eq [where r = "x - q * d"]) (auto simp: algebra_simps)
qed

lemma div_push_drop [bits_to_int]:
  fixes v :: "'a::len word"
  shows "uint (push_bit k (drop_bit k v)) div 2 ^ k = uint v div 2 ^ k"
proof -
  have "drop_bit k (push_bit k (drop_bit k v)) = drop_bit k v"
    by (rule bit_eqI) (auto simp: bit_simps dest: bit_imp_le_length)
  then show ?thesis by (metis uint_drop_bit_div)
qed

lemma length_filter_split:
  "length (filter (\<lambda>x. P x \<and> Q x) xs) + length (filter (\<lambda>x. P x \<and> \<not> Q x) xs) = length (filter P xs)"
  by (induction xs) auto

end
