(* ===== verification/Netip.thy ===== *)
theory Netip
  imports Prelude
begin

text \<open>
  The part of Go's \<^verbatim>\<open>net/netip\<close> that the program uses: addresses and prefixes, their
  parsers and printers, the order, the classification predicates and prefix membership.  An
  \<^verbatim>\<open>Addr\<close> is invalid (the zero value), an IPv4 address of 32 bits or an IPv6 address of
  128 bits with a zone, where the empty zone means none.  The 16-bit fields of an IPv6 address and
  the octets of an IPv4 address are its base-65536 and base-256 digits.
\<close>

unbundle bit_operations_syntax

section \<open>Addresses\<close>

datatype addr = AddrInvalid | Addr4 "32 word" | Addr6 "128 word" string

definition IsValid :: "addr \<Rightarrow> bool" where
  "IsValid a \<longleftrightarrow> a \<noteq> AddrInvalid"

definition Is4 :: "addr \<Rightarrow> bool" where
  "Is4 a = (case a of Addr4 _ \<Rightarrow> True | _ \<Rightarrow> False)"

definition Is6 :: "addr \<Rightarrow> bool" where
  "Is6 a = (case a of Addr6 _ _ \<Rightarrow> True | _ \<Rightarrow> False)"

definition Is4In6 :: "addr \<Rightarrow> bool" where
  "Is4In6 a = (case a of Addr6 w _ \<Rightarrow> drop_bit 32 w = 0xFFFF | _ \<Rightarrow> False)"

definition Zone :: "addr \<Rightarrow> string" where
  "Zone a = (case a of Addr6 _ z \<Rightarrow> z | _ \<Rightarrow> [])"

definition Unmap :: "addr \<Rightarrow> addr" where
  "Unmap a = (case a of Addr6 w _ \<Rightarrow> if Is4In6 a then Addr4 (ucast w) else a | _ \<Rightarrow> a)"

definition BitLen :: "addr \<Rightarrow> nat" where
  "BitLen a = (case a of AddrInvalid \<Rightarrow> 0 | Addr4 _ \<Rightarrow> 32 | Addr6 _ _ \<Rightarrow> 128)"

definition addr_value :: "addr \<Rightarrow> int" where
  "addr_value a = (case a of AddrInvalid \<Rightarrow> 0 | Addr4 w \<Rightarrow> uint w | Addr6 w _ \<Rightarrow> uint w)"

text \<open>\<^verbatim>\<open>Addr.Compare\<close>: by bit length, then by value, then by zone.\<close>

definition addr_key :: "addr \<Rightarrow> nat \<times> int \<times> string" where
  "addr_key a = (BitLen a, addr_value a, Zone a)"

lemmas addr_defs = IsValid_def Is4_def Is6_def Is4In6_def Zone_def Unmap_def BitLen_def
  addr_value_def addr_key_def

lemma addr_key_inj: "addr_key a = addr_key b \<longleftrightarrow> a = b"
  by (cases a; cases b) (auto simp: addr_defs simp flip: word_uint_eq_iff)

instantiation addr :: linorder
begin

definition less_eq_addr :: "addr \<Rightarrow> addr \<Rightarrow> bool" where
  "less_eq_addr a b \<longleftrightarrow> addr_key a \<le> addr_key b"

definition less_addr :: "addr \<Rightarrow> addr \<Rightarrow> bool" where
  "less_addr a b \<longleftrightarrow> addr_key a < addr_key b"

instance
  by standard (auto simp: less_eq_addr_def less_addr_def less_le addr_key_inj)

end

section \<open>Classification\<close>

definition IsLoopback :: "addr \<Rightarrow> bool" where
  "IsLoopback a = (case Unmap a of
      Addr4 w \<Rightarrow> drop_bit 24 w = 127 | Addr6 w _ \<Rightarrow> w = 1 | AddrInvalid \<Rightarrow> False)"

definition IsUnspecified :: "addr \<Rightarrow> bool" where
  "IsUnspecified a \<longleftrightarrow> a = Addr4 0 \<or> a = Addr6 0 []"

definition IsMulticast :: "addr \<Rightarrow> bool" where
  "IsMulticast a = (case Unmap a of
      Addr4 w \<Rightarrow> drop_bit 28 w = 0xE | Addr6 w _ \<Rightarrow> drop_bit 120 w = 0xFF | AddrInvalid \<Rightarrow> False)"

definition IsLinkLocalUnicast :: "addr \<Rightarrow> bool" where
  "IsLinkLocalUnicast a = (case Unmap a of
      Addr4 w \<Rightarrow> drop_bit 16 w = 0xA9FE
    | Addr6 w _ \<Rightarrow> drop_bit 112 w AND 0xFFC0 = 0xFE80
    | AddrInvalid \<Rightarrow> False)"

definition IsLinkLocalMulticast :: "addr \<Rightarrow> bool" where
  "IsLinkLocalMulticast a = (case Unmap a of
      Addr4 w \<Rightarrow> drop_bit 8 w = 0xE00000
    | Addr6 w _ \<Rightarrow> drop_bit 112 w AND 0xFF0F = 0xFF02
    | AddrInvalid \<Rightarrow> False)"

definition IsInterfaceLocalMulticast :: "addr \<Rightarrow> bool" where
  "IsInterfaceLocalMulticast a = (case a of
      Addr6 w _ \<Rightarrow> \<not> Is4In6 a \<and> drop_bit 112 w AND 0xFF0F = 0xFF01 | _ \<Rightarrow> False)"

definition IsPrivate :: "addr \<Rightarrow> bool" where
  "IsPrivate a = (case Unmap a of
      Addr4 w \<Rightarrow> drop_bit 24 w = 10 \<or> drop_bit 20 w = 0xAC1 \<or> drop_bit 16 w = 0xC0A8
    | Addr6 w _ \<Rightarrow> drop_bit 121 w = 0x7E
    | AddrInvalid \<Rightarrow> False)"

section \<open>Text form\<close>

definition ascii_digit :: "char \<Rightarrow> int option" where
  "ascii_digit c = (let n = of_char c :: int in if 48 \<le> n \<and> n \<le> 57 then Some (n - 48) else None)"

definition hex_value :: "char \<Rightarrow> int option" where
  "hex_value c = (let n = of_char c :: int in
     if 48 \<le> n \<and> n \<le> 57 then Some (n - 48)
     else if 97 \<le> n \<and> n \<le> 102 then Some (n - 87)
     else if 65 \<le> n \<and> n \<le> 70 then Some (n - 55)
     else None)"

text \<open>The value of a digit list in base \<open>b\<close>, and the \<open>k\<close> low digits of a number.\<close>

definition undigits :: "int \<Rightarrow> int list \<Rightarrow> int" where
  "undigits b ds = foldl (\<lambda>n d. n * b + d) 0 ds"

fun digits :: "int \<Rightarrow> nat \<Rightarrow> int \<Rightarrow> int list" where
  "digits b 0 n = []"
| "digits b (Suc k) n = digits b k (n div b) @ [n mod b]"

definition octets :: "32 word \<Rightarrow> int list" where
  "octets w = digits 256 4 (uint w)"

definition v6fields :: "128 word \<Rightarrow> int list" where
  "v6fields w = digits 65536 8 (uint w)"

definition of_octets :: "int list \<Rightarrow> 32 word" where
  "of_octets os = word_of_int (undigits 256 os)"

definition of_v6fields :: "int list \<Rightarrow> 128 word" where
  "of_v6fields fs = word_of_int (undigits 65536 fs)"

text \<open>
  The longest run of at least two zero fields, the first one where several are longest: the first
  field of the run and the first field after it.
\<close>

definition zero_run_from :: "int list \<Rightarrow> nat \<Rightarrow> nat" where
  "zero_run_from fs i = length (takeWhile (\<lambda>f. f = 0) (drop i fs))"

fun longest_zero_run :: "int list \<Rightarrow> nat list \<Rightarrow> (nat \<times> nat) option \<Rightarrow> (nat \<times> nat) option" where
  "longest_zero_run fs [] best = best"
| "longest_zero_run fs (i # is) best =
     (let l = zero_run_from fs i;
          b = (case best of None \<Rightarrow> 0 | Some (s, e) \<Rightarrow> e - s)
      in longest_zero_run fs is (if 2 \<le> l \<and> b < l then Some (i, i + l) else best))"

definition string4 :: "32 word \<Rightarrow> string" where
  "string4 w = join ''.'' (map decimal (octets w))"

definition string6 :: "128 word \<Rightarrow> string" where
  "string6 w =
     (let fs = v6fields w; field = (\<lambda>gs. join '':'' (map hexadecimal gs))
      in case longest_zero_run fs [0..<8] None of
           None \<Rightarrow> field fs
         | Some (s, e) \<Rightarrow> field (take s fs) @ ''::'' @ field (drop e fs))"

definition zone_suffix :: "string \<Rightarrow> string" where
  "zone_suffix z = (if z = [] then [] else CHR ''%'' # z)"

text \<open>\<^verbatim>\<open>Addr.String\<close>.\<close>

definition String :: "addr \<Rightarrow> string" where
  "String a = (case a of
      AddrInvalid \<Rightarrow> ''invalid IP''
    | Addr4 w \<Rightarrow> string4 w
    | Addr6 w z \<Rightarrow>
        (if Is4In6 a then ''::ffff:'' @ string4 (ucast w) else string6 w) @ zone_suffix z)"

text \<open>
  \<^verbatim>\<open>parseIPv4Fields\<close>: the value and the number of digits of the octet being read, and the
  octets read before it.
\<close>

fun parseIPv4Fields :: "string \<Rightarrow> int \<Rightarrow> nat \<Rightarrow> int list \<Rightarrow> int list option" where
  "parseIPv4Fields [] val digLen fields =
     (if length fields < 3 then None else Some (fields @ [val]))"
| "parseIPv4Fields (c # cs) val digLen fields =
     (case ascii_digit c of
        Some d \<Rightarrow>
          if digLen = 1 \<and> val = 0 then None
          else if 255 < val * 10 + d then None
          else parseIPv4Fields cs (val * 10 + d) (Suc digLen) fields
      | None \<Rightarrow>
          if c = CHR ''.'' then
            if digLen = 0 \<or> cs = [] then None
            else if length fields = 3 then None
            else parseIPv4Fields cs 0 0 (fields @ [val])
          else None)"

definition parseIPv4 :: "string \<Rightarrow> addr option" where
  "parseIPv4 s = map_option (\<lambda>os. Addr4 (of_octets os)) (parseIPv4Fields s 0 0 [])"

text \<open>The hexadecimal digits at the front: value, number of digits, rest; a fifth digit fails.\<close>

fun scan_hex :: "string \<Rightarrow> int \<Rightarrow> nat \<Rightarrow> (int \<times> nat \<times> string) option" where
  "scan_hex [] acc off = Some (acc, off, [])"
| "scan_hex (c # cs) acc off =
     (case hex_value c of
        None \<Rightarrow> Some (acc, off, c # cs)
      | Some d \<Rightarrow> if 3 < off then None else scan_hex cs (acc * 16 + d) (Suc off))"

text \<open>
  The main loop of \<^verbatim>\<open>parseIPv6\<close>: the text left, the 16-bit fields read so far and the
  position of the ellipsis among them.
\<close>

function parse6_loop :: "string \<Rightarrow> int list \<Rightarrow> nat option \<Rightarrow> (string \<times> int list \<times> nat option) option" where
  "parse6_loop s fs el =
     (if 8 \<le> length fs then Some (s, fs, el)
      else (case scan_hex s 0 0 of
        None \<Rightarrow> None
      | Some (acc, off, rest) \<Rightarrow>
          if off = 0 then None
          else (case rest of
            [] \<Rightarrow> Some ([], fs @ [acc], el)
          | c # r \<Rightarrow>
              if c = CHR ''.'' then
                if el = None \<and> length fs \<noteq> 6 then None
                else if 6 < length fs then None
                else (case parseIPv4Fields s 0 0 [] of
                        None \<Rightarrow> None
                      | Some os \<Rightarrow> Some ([], fs @ digits 65536 2 (undigits 256 os), el))
              else if c \<noteq> CHR '':'' then None
              else if r = [] then None
              else if hd r = CHR '':'' then
                if el \<noteq> None then None
                else if tl r = [] then Some ([], fs @ [acc], Some (Suc (length fs)))
                else parse6_loop (tl r) (fs @ [acc]) (Some (Suc (length fs)))
              else parse6_loop r (fs @ [acc]) el)))"
  by pat_completeness auto
termination
  by (relation "measure (\<lambda>(s, fs, el). 8 - length fs)") auto

declare parse6_loop.simps [simp del]

definition expand6 :: "string \<times> int list \<times> nat option \<Rightarrow> int list option" where
  "expand6 st = (case st of (s, fs, el) \<Rightarrow>
     if s \<noteq> [] then None
     else (case el of
       None \<Rightarrow> if length fs < 8 then None else Some fs
     | Some p \<Rightarrow> if length fs < 8 then Some (take p fs @ replicate (8 - length fs) 0 @ drop p fs)
                 else None))"

definition parse6_body :: "string \<Rightarrow> int list option" where
  "parse6_body s =
     (if HasPrefix s ''::'' then
        (if length s = 2 then Some (replicate 8 0)
         else Option.bind (parse6_loop (drop 2 s) [] (Some 0)) expand6)
      else Option.bind (parse6_loop s [] None) expand6)"

definition parseIPv6 :: "string \<Rightarrow> addr option" where
  "parseIPv6 s =
     (let body = takeWhile (\<lambda>c. c \<noteq> CHR ''%'') s;
          tail = dropWhile (\<lambda>c. c \<noteq> CHR ''%'') s
      in if tail = [CHR ''%''] then None
         else map_option (\<lambda>fs. Addr6 (of_v6fields fs) (drop 1 tail)) (parse6_body body))"

text \<open>\<^verbatim>\<open>ParseAddr\<close>; \<^const>\<open>None\<close> stands for the error, a function of the input.\<close>

definition ParseAddr :: "string \<Rightarrow> addr option" where
  "ParseAddr s =
     (case find (\<lambda>c. c = CHR ''.'' \<or> c = CHR '':'' \<or> c = CHR ''%'') s of
        None \<Rightarrow> None
      | Some c \<Rightarrow>
          if c = CHR ''.'' then parseIPv4 s else if c = CHR '':'' then parseIPv6 s else None)"

section \<open>Prefixes\<close>

record prefix =
  pfx_Addr :: addr
  pfx_Bits :: nat

text \<open>
  \<^verbatim>\<open>Prefix.Contains\<close>: the address has no zone, both have the same bit length, and they agree on
  the first bits.
\<close>

definition Prefix_Contains :: "prefix \<Rightarrow> addr \<Rightarrow> bool" where
  "Prefix_Contains p a \<longleftrightarrow>
     Zone a = [] \<and> (case (pfx_Addr p, a) of
         (Addr4 v, Addr4 w) \<Rightarrow> drop_bit (32 - pfx_Bits p) (v XOR w) = 0
       | (Addr6 v _, Addr6 w _) \<Rightarrow> drop_bit (128 - pfx_Bits p) (v XOR w) = 0
       | _ \<Rightarrow> False)"

text \<open>\<^verbatim>\<open>Prefix.Masked\<close> clears the bits after the prefix.\<close>

definition Masked :: "prefix \<Rightarrow> prefix" where
  "Masked p = (case pfx_Addr p of
      AddrInvalid \<Rightarrow> p
    | Addr4 w \<Rightarrow> p\<lparr>pfx_Addr := Addr4 (push_bit (32 - pfx_Bits p) (drop_bit (32 - pfx_Bits p) w))\<rparr>
    | Addr6 w _ \<Rightarrow>
        p\<lparr>pfx_Addr := Addr6 (push_bit (128 - pfx_Bits p) (drop_bit (128 - pfx_Bits p) w)) []\<rparr>)"

definition parse_bits :: "string \<Rightarrow> int option" where
  "parse_bits s =
     (if s = [] \<or> (1 < length s \<and> hd s = CHR ''0'') then None
      else if list_all (\<lambda>c. ascii_digit c \<noteq> None) s
      then Some (undigits 10 (map (\<lambda>c. the (ascii_digit c)) s))
      else None)"

definition ParsePrefix :: "string \<Rightarrow> prefix option" where
  "ParsePrefix s =
     (if CHR ''/'' \<notin> set s then None
      else let bits = rev (takeWhile (\<lambda>c. c \<noteq> CHR ''/'') (rev s));
               ip = take (length s - length bits - 1) s
           in (case ParseAddr ip of
                None \<Rightarrow> None
              | Some a \<Rightarrow>
                  if Zone a \<noteq> [] then None
                  else (case parse_bits bits of
                    None \<Rightarrow> None
                  | Some b \<Rightarrow> if int (BitLen a) < b then None
                                else Some \<lparr>pfx_Addr = a, pfx_Bits = nat b\<rparr>)))"

text \<open>\<^verbatim>\<open>MustParsePrefix\<close> panics on a bad literal; the model leaves that value unspecified.\<close>

definition MustParsePrefix :: "string \<Rightarrow> prefix" where
  "MustParsePrefix s = the (ParsePrefix s)"

section \<open>Prefix membership by value\<close>

lemma Prefix_Contains_v4:
  "Prefix_Contains \<lparr>pfx_Addr = Addr4 v, pfx_Bits = b\<rparr> (Addr4 w) \<longleftrightarrow>
     uint w div 2 ^ (32 - b) = uint v div 2 ^ (32 - b)"
  by (simp add: Prefix_Contains_def Zone_def bits_to_int del: drop_bit_xor)

lemma Prefix_Contains_v6:
  "Prefix_Contains \<lparr>pfx_Addr = Addr6 v y, pfx_Bits = b\<rparr> (Addr6 w z) \<longleftrightarrow>
     z = [] \<and> uint w div 2 ^ (128 - b) = uint v div 2 ^ (128 - b)"
  by (simp add: Prefix_Contains_def Zone_def bits_to_int del: drop_bit_xor)

text \<open>Clearing the bits after a prefix does not change what it contains.\<close>

definition same_family :: "addr \<Rightarrow> addr \<Rightarrow> bool" where
  "same_family a b \<longleftrightarrow> BitLen a = BitLen b \<and> BitLen a \<noteq> 0"

lemma Prefix_Contains_Masked:
  "Prefix_Contains (Masked p) a \<longleftrightarrow> same_family (pfx_Addr p) a \<and> Zone a = [] \<and>
     addr_value a div 2 ^ (BitLen a - pfx_Bits p) = addr_value (pfx_Addr p) div 2 ^ (BitLen a - pfx_Bits p)"
  by (cases "pfx_Addr p"; cases a)
     (auto simp: Prefix_Contains_def Masked_def addr_defs same_family_def bits_to_int
       simp del: drop_bit_xor)

end
