(* ===== verification/Netip_Text.thy ===== *)
theory Netip_Text
  imports Netip
begin

text \<open>
  The text form of an address determines it: \<^verbatim>\<open>ParseAddr\<close> reads back what
  \<^verbatim>\<open>String\<close> prints, for every valid IPv4 or IPv6 address, with or without a zone and in the
  IPv4-mapped form.  The slice planner keys endpoints by this text and the failure policy keeps
  endpoints in the status as text, so both rest on this round trip.
\<close>

section \<open>Digits\<close>

lemma hex_value_digit_char: "0 \<le> d \<Longrightarrow> d < 16 \<Longrightarrow> hex_value (digit_char d) = Some d"
  by (simp add: hex_value_def digit_char_def mod_pos_pos_trivial)

lemma ascii_digit_digit_char: "0 \<le> d \<Longrightarrow> d < 10 \<Longrightarrow> ascii_digit (digit_char d) = Some d"
  by (simp add: ascii_digit_def digit_char_def mod_pos_pos_trivial)

lemma length_digits [simp]: "length (digits b k n) = k"
  by (induction k arbitrary: n) auto

lemma undigits_append [simp]: "undigits b (ds @ [d]) = undigits b ds * b + d"
  by (simp add: undigits_def)

lemma undigits_digits: "0 < b \<Longrightarrow> 0 \<le> n \<Longrightarrow> undigits b (digits b k n) = n mod b ^ k"
proof (induction k arbitrary: n)
  case 0
  then show ?case by (simp add: undigits_def)
next
  case (Suc k)
  then have "undigits b (digits b k (n div b)) = n div b mod b ^ k"
    by (simp add: pos_imp_zdiv_nonneg_iff)
  with Suc.prems show ?case by (simp add: zmod_zmult2_eq mult.commute)
qed

lemma digits_undigits:
  "length ds = k \<Longrightarrow> \<forall>d\<in>set ds. 0 \<le> d \<and> d < b \<Longrightarrow> digits b k (undigits b ds) = ds"
proof (induction k arbitrary: ds)
  case 0
  then show ?case by simp
next
  case (Suc k)
  from Suc.prems(1) obtain es e where "ds = es @ [e]" and "length es = k"
    by (cases ds rule: rev_cases) auto
  with Suc show ?case by auto
qed

lemma digits_range: "0 < b \<Longrightarrow> d \<in> set (digits b k n) \<Longrightarrow> 0 \<le> d \<and> d < b"
  by (induction k arbitrary: n) auto

lemma of_octets_octets: "of_octets (octets w) = w"
proof -
  have "uint w < 2 ^ 32" using uint_bounded [of w] by simp
  then show ?thesis by (simp add: of_octets_def octets_def undigits_digits del: digits.simps)
qed

lemma of_v6fields_v6fields: "of_v6fields (v6fields w) = w"
proof -
  have "uint w < 2 ^ 128" using uint_bounded [of w] by simp
  then show ?thesis by (simp add: of_v6fields_def v6fields_def undigits_digits del: digits.simps)
qed

section \<open>IPv4\<close>

lemma decimal_nonempty [simp]: "decimal n \<noteq> []"
  by (simp add: decimal.simps)

lemma hexadecimal_nonempty [simp]: "hexadecimal n \<noteq> []"
  by (simp add: hexadecimal.simps)

lemma parseIPv4Fields_decimal:
  "0 \<le> n \<Longrightarrow> n \<le> 255 \<Longrightarrow>
     parseIPv4Fields (decimal n @ rest) 0 0 fs = parseIPv4Fields rest n (length (decimal n)) fs"
proof (induction n arbitrary: rest rule: decimal.induct)
  case (1 n)
  show ?case
  proof (cases "n < 10")
    case True
    with "1.prems" show ?thesis
      by (simp add: decimal.simps [of n] ascii_digit_digit_char)
  next
    case False
    then have q: "0 < n div 10" "n div 10 \<le> 255" using "1.prems" by auto
    have n: "n div 10 * 10 + n mod 10 = n" by simp
    have "parseIPv4Fields (decimal n @ rest) 0 0 fs
        = parseIPv4Fields (digit_char (n mod 10) # rest) (n div 10) (length (decimal (n div 10))) fs"
      using "1.IH" [OF False] q False by (simp add: decimal.simps [of n])
    also have "\<dots> = parseIPv4Fields rest n (length (decimal n)) fs"
      using q "1.prems" False by (simp add: ascii_digit_digit_char n decimal.simps [of n])
    finally show ?thesis .
  qed
qed

lemma octets_4: "\<exists>a b c d. octets w = [a, b, c, d]"
  by (simp add: octets_def numeral_eq_Suc)

lemma octets_range: "x \<in> set (octets w) \<Longrightarrow> 0 \<le> x \<and> x \<le> 255"
  unfolding octets_def using digits_range [of 256] by force

lemma parseIPv4Fields_string4: "parseIPv4Fields (string4 w) 0 0 [] = Some (octets w)"
proof -
  obtain a b c d where os: "octets w = [a, b, c, d]" using octets_4 by blast
  then have r: "0 \<le> a" "a \<le> 255" "0 \<le> b" "b \<le> 255" "0 \<le> c" "c \<le> 255" "0 \<le> d" "d \<le> 255"
    using octets_range [of _ w] by auto
  have dot: "ascii_digit CHR ''.'' = None" by (simp add: ascii_digit_def)
  have "parseIPv4Fields (decimal d @ []) 0 0 [a, b, c] = Some [a, b, c, d]"
    by (subst parseIPv4Fields_decimal) (use r in auto)
  then show ?thesis
    by (simp add: string4_def os parseIPv4Fields_decimal r dot)
qed

section \<open>IPv6\<close>

lemma hexadecimal_chars: "0 \<le> n \<Longrightarrow> c \<in> set (hexadecimal n) \<Longrightarrow> hex_value c \<noteq> None"
proof (induction n rule: hexadecimal.induct)
  case (1 n)
  then show ?case
    by (cases "n < 16") (auto simp: hexadecimal.simps [of n] hex_value_digit_char)
qed

lemma decimal_chars: "0 \<le> n \<Longrightarrow> c \<in> set (decimal n) \<Longrightarrow> ascii_digit c \<noteq> None"
proof (induction n rule: decimal.induct)
  case (1 n)
  then show ?case
    by (cases "n < 10") (auto simp: decimal.simps [of n] ascii_digit_digit_char)
qed

lemma ascii_digit_hex_value: "ascii_digit c \<noteq> None \<Longrightarrow> hex_value c \<noteq> None"
  by (auto simp: ascii_digit_def hex_value_def Let_def split: if_splits)

lemma separators_not_hex [simp]:
  "hex_value CHR '':'' = None" "hex_value CHR ''.'' = None" "hex_value CHR ''%'' = None"
  by (simp_all add: hex_value_def)

lemma length_hexadecimal: "n < 65536 \<Longrightarrow> length (hexadecimal n) \<le> 4"
  by (simp add: hexadecimal.simps [of n] hexadecimal.simps [of "n div 16"]
      hexadecimal.simps [of "n div 256"] hexadecimal.simps [of "n div 4096"] div_mult2_eq' zdiv_zmult2_eq [symmetric])

lemma scan_hex_hexadecimal:
  "0 \<le> n \<Longrightarrow> length (hexadecimal n) \<le> 4 \<Longrightarrow>
     scan_hex (hexadecimal n @ rest) 0 0 = scan_hex rest n (length (hexadecimal n))"
proof (induction n arbitrary: rest rule: hexadecimal.induct)
  case (1 n)
  show ?case
  proof (cases "n < 16")
    case True
    with "1.prems" show ?thesis by (simp add: hexadecimal.simps [of n] hex_value_digit_char)
  next
    case False
    have n: "n div 16 * 16 + n mod 16 = n" by simp
    have l: "length (hexadecimal n) = Suc (length (hexadecimal (n div 16)))"
      using False by (simp add: hexadecimal.simps [of n])
    have "scan_hex (hexadecimal n @ rest) 0 0
        = scan_hex (digit_char (n mod 16) # rest) (n div 16) (length (hexadecimal (n div 16)))"
      using "1.IH" [OF False] "1.prems" False l by (simp add: hexadecimal.simps [of n])
    also have "\<dots> = scan_hex rest n (length (hexadecimal n))"
      using "1.prems" l by (simp add: hex_value_digit_char n)
    finally show ?thesis .
  qed
qed

definition field_ok :: "int \<Rightarrow> bool" where
  "field_ok g \<longleftrightarrow> 0 \<le> g \<and> g < 65536"

lemma scan_hex_field:
  "field_ok g \<Longrightarrow> rest = [] \<or> hex_value (hd rest) = None \<Longrightarrow>
     scan_hex (hexadecimal g @ rest) 0 0 = Some (g, length (hexadecimal g), rest)"
  using scan_hex_hexadecimal [of g rest] length_hexadecimal [of g]
  by (cases rest) (auto simp: field_ok_def)

lemma hd_hexadecimal: "field_ok g \<Longrightarrow> hd (hexadecimal g) \<noteq> CHR '':''"
  using hexadecimal_chars [of g "hd (hexadecimal g)"] by (auto simp: field_ok_def)

abbreviation fields_text :: "int list \<Rightarrow> string" where
  "fields_text gs \<equiv> join '':'' (map hexadecimal gs)"

lemma hd_fields_text:
  "gs \<noteq> [] \<Longrightarrow> list_all field_ok gs \<Longrightarrow> fields_text gs @ xs \<noteq> [] \<and> hd (fields_text gs @ xs) \<noteq> CHR '':''"
  by (cases gs; cases "tl gs") (auto simp: hd_hexadecimal)

lemma parse6_loop_fields:
  "gs \<noteq> [] \<Longrightarrow> list_all field_ok gs \<Longrightarrow> length fs + length gs \<le> 8 \<Longrightarrow>
     parse6_loop (fields_text gs) fs el = Some ([], fs @ gs, el)"
proof (induction gs arbitrary: fs)
  case Nil
  then show ?case by simp
next
  case (Cons g gs)
  show ?case
  proof (cases "gs = []")
    case True
    with Cons.prems scan_hex_field [of g "[]"] show ?thesis
      by (simp add: parse6_loop.simps [of _ fs])
  next
    case False
    with Cons.prems scan_hex_field [of g "CHR '':'' # fields_text gs"] hd_fields_text [of gs "[]"]
    have "parse6_loop (fields_text (g # gs)) fs el = parse6_loop (fields_text gs) (fs @ [g]) el"
      by (simp add: parse6_loop.simps [of _ fs] join_Cons)
    with False Cons show ?thesis by simp
  qed
qed

lemma parse6_loop_ellipsis:
  "gs \<noteq> [] \<Longrightarrow> list_all field_ok gs \<Longrightarrow> length fs + length gs \<le> 7 \<Longrightarrow>
     parse6_loop (fields_text gs @ ''::'' @ tail) fs None =
       (if tail = [] then Some ([], fs @ gs, Some (length (fs @ gs)))
        else parse6_loop tail (fs @ gs) (Some (length (fs @ gs))))"
proof (induction gs arbitrary: fs)
  case Nil
  then show ?case by simp
next
  case (Cons g gs)
  show ?case
  proof (cases "gs = []")
    case True
    with Cons.prems scan_hex_field [of g "''::'' @ tail"] show ?thesis
      by (simp add: parse6_loop.simps [of _ fs])
  next
    case False
    with Cons.prems scan_hex_field [of g "CHR '':'' # fields_text gs @ ''::'' @ tail"]
      hd_fields_text [of gs "''::'' @ tail"]
    have "parse6_loop (fields_text (g # gs) @ ''::'' @ tail) fs None
        = parse6_loop (fields_text gs @ ''::'' @ tail) (fs @ [g]) None"
      by (simp add: parse6_loop.simps [of _ fs] join_Cons)
    with False Cons show ?thesis by simp
  qed
qed

lemma longest_zero_run_sound:
  assumes "longest_zero_run fs is best = Some (s, e)" and "\<forall>i\<in>set is. i \<le> length fs"
    and "\<And>s e. best = Some (s, e) \<Longrightarrow> s + 2 \<le> e \<and> e \<le> length fs \<and> fs = take s fs @ replicate (e - s) 0 @ drop e fs"
  shows "s + 2 \<le> e \<and> e \<le> length fs \<and> fs = take s fs @ replicate (e - s) 0 @ drop e fs"
  using assms
proof (induction fs "is" best rule: longest_zero_run.induct)
  case (2 fs i "is" best)
  define l where "l = zero_run_from fs i"
  have "takeWhile (\<lambda>f. f = 0) (drop i fs) = replicate l 0"
    by (metis (mono_tags, lifting) l_def zero_run_from_def replicate_length_same set_takeWhileD)
  then have d: "drop i fs = replicate l 0 @ drop (i + l) fs"
    by (metis add.commute drop_drop dropWhile_eq_drop l_def takeWhile_dropWhile_id zero_run_from_def)
  moreover have "i + l \<le> length fs"
    using "2.prems"(2) length_takeWhile_le [of "\<lambda>f. f = 0" "drop i fs"]
    by (auto simp: l_def zero_run_from_def)
  moreover have "fs = take i fs @ drop i fs" by simp
  ultimately have "i + l \<le> length fs \<and> fs = take i fs @ replicate l 0 @ drop (i + l) fs" by metis
  with 2 show ?case by (auto simp: l_def [symmetric] Let_def split: if_splits)
qed simp

lemma v6fields_ok: "length (v6fields w) = 8" "list_all field_ok (v6fields w)"
  using digits_range [of 65536] by (auto simp: v6fields_def field_ok_def list_all_iff simp del: digits.simps)

lemma not_prefix_ellipsis:
  "gs \<noteq> [] \<Longrightarrow> list_all field_ok gs \<Longrightarrow> \<not> HasPrefix (fields_text gs @ xs) ''::''"
  using hd_fields_text [of gs xs] by (cases "fields_text gs @ xs") (auto simp: HasPrefix_def)

lemma parse6_body_ellipsis:
  assumes "list_all field_ok (as @ bs)" and "length as + length bs \<le> 6"
  shows "parse6_body (fields_text as @ ''::'' @ fields_text bs)
       = Some (as @ replicate (8 - length as - length bs) 0 @ bs)"
proof (cases "as = []")
  case True
  show ?thesis
  proof (cases "bs = []")
    case True
    with \<open>as = []\<close> show ?thesis by (simp add: parse6_body_def HasPrefix_def numeral_eq_Suc)
  next
    case False
    then have "fields_text bs \<noteq> []" using hd_fields_text [of bs "[]"] assms(1) by simp
    with False True assms show ?thesis
      by (simp add: parse6_body_def HasPrefix_def parse6_loop_fields expand6_def)
  qed
next
  case False
  have *: "\<not> HasPrefix (fields_text as @ ''::'' @ fields_text bs) ''::''"
    using False assms(1) by (simp only: list_all_append not_prefix_ellipsis not_False_eq_True)
  show ?thesis
  proof (cases "bs = []")
    case True
    with * False assms parse6_loop_ellipsis [of as "[]" "[]"] show ?thesis
      by (simp add: parse6_body_def expand6_def)
  next
    case bs: False
    then have "fields_text bs \<noteq> []" using hd_fields_text [of bs "[]"] assms(1) by simp
    with bs * False assms parse6_loop_ellipsis [of as "[]" "fields_text bs"] show ?thesis
      by (simp add: parse6_body_def expand6_def parse6_loop_fields)
  qed
qed

lemma parse6_body_string6: "parse6_body (string6 w) = Some (v6fields w)"
proof (cases "longest_zero_run (v6fields w) [0..<8] None")
  case None
  have "\<not> HasPrefix (fields_text (v6fields w)) ''::''"
    using not_prefix_ellipsis [of "v6fields w" "[]"] v6fields_ok [of w] by force
  with None v6fields_ok [of w] parse6_loop_fields [of "v6fields w" "[]" None] show ?thesis
    by (force simp: string6_def parse6_body_def expand6_def)
next
  case (Some se)
  then obtain s e where se: "longest_zero_run (v6fields w) [0..<8] None = Some (s, e)"
    by (cases se) auto
  let ?as = "take s (v6fields w)" and ?bs = "drop e (v6fields w)"
  have run: "s + 2 \<le> e" "e \<le> 8" "v6fields w = ?as @ replicate (e - s) 0 @ ?bs"
    using longest_zero_run_sound [OF se] v6fields_ok [of w] by auto
  then have "list_all field_ok (?as @ ?bs)"
    using v6fields_ok [of w] by (auto simp: list_all_iff dest: in_set_takeD in_set_dropD)
  then have "parse6_body (fields_text ?as @ ''::'' @ fields_text ?bs)
      = Some (?as @ replicate (8 - length ?as - length ?bs) 0 @ ?bs)"
    by (rule parse6_body_ellipsis) (use run v6fields_ok [of w] in auto)
  moreover have "8 - length ?as - length ?bs = e - s"
    using run v6fields_ok [of w] by auto
  ultimately show ?thesis using run(3) by (simp add: string6_def se Let_def)
qed

lemma Is4In6_value:
  assumes "Is4In6 (Addr6 w z)"
  shows "of_v6fields ([0, 0, 0, 0, 0, 0xFFFF] @ digits 65536 2 (uint (ucast w :: 32 word))) = w"
proof -
  have "uint (drop_bit 32 w) = 0xFFFF" using assms by (simp add: Is4In6_def)
  then have hi: "uint w div 2 ^ 32 = 0xFFFF"
    by (simp add: drop_bit_eq_div uint_div)
  define l where "l = uint w mod 2 ^ 32"
  have l: "0 \<le> l" "l < 2 ^ 32" "uint (ucast w :: 32 word) = l"
    by (simp_all add: l_def unsigned_ucast_eq take_bit_eq_mod)
  then have "l div 65536 mod 65536 = l div 65536" by simp
  then have "undigits 65536 ([0, 0, 0, 0, 0, 0xFFFF] @ digits 65536 2 l) = 0xFFFF * 2 ^ 32 + l"
    by (simp add: undigits_def numeral_2_eq_2)
  also have "\<dots> = uint w" using hi l_def by (metis div_mult_mod_eq)
  finally show ?thesis by (simp add: of_v6fields_def l(3) del: append.simps)
qed

lemma string4_split: "\<exists>u v. string4 w = u @ CHR ''.'' # v \<and> u \<noteq> [] \<and> length u \<le> 3 \<and> (\<forall>c\<in>set u. ascii_digit c \<noteq> None)"
proof -
  obtain a b c d where os: "octets w = [a, b, c, d]" using octets_4 by blast
  then have a: "0 \<le> a" "a \<le> 255" using octets_range [of a w] by auto
  then have "length (decimal a) \<le> 3"
    by (simp add: decimal.simps [of a] decimal.simps [of "a div 10"] decimal.simps [of "a div 100"]
        zdiv_zmult2_eq [symmetric])
  with a show ?thesis unfolding string4_def os
    by (intro exI [of _ "decimal a"] exI [of _ "join ''.'' (map decimal [b, c, d])"])
      (auto dest: decimal_chars)
qed

lemma scan_hex_digits:
  "\<forall>c\<in>set u. hex_value c \<noteq> None \<Longrightarrow> off + length u \<le> 4 \<Longrightarrow>
     \<exists>acc'. scan_hex (u @ CHR ''.'' # v) acc off = Some (acc', off + length u, CHR ''.'' # v)"
proof (induction u arbitrary: acc off)
  case (Cons c u)
  then obtain d where "hex_value c = Some d" by auto
  with Cons.prems Cons.IH [of "Suc off" "acc * 16 + d"] show ?case by simp
qed simp

lemma parse6_loop_string4:
  assumes "length fs \<le> 6" and "el \<noteq> None"
  shows "parse6_loop (string4 w) fs el = Some ([], fs @ digits 65536 2 (uint w), el)"
proof -
  obtain u v where u: "string4 w = u @ CHR ''.'' # v" "u \<noteq> []" "length u \<le> 3"
      "\<forall>c\<in>set u. hex_value c \<noteq> None"
    using string4_split [of w] ascii_digit_hex_value by metis
  then obtain acc where "scan_hex (string4 w) 0 0 = Some (acc, length u, CHR ''.'' # v)"
    using scan_hex_digits [of u 0 v 0] by auto
  moreover have "undigits 256 (octets w) = uint w"
    using uint_bounded [of w] by (simp add: octets_def undigits_digits del: digits.simps)
  ultimately show ?thesis
    using assms u(2) by (simp add: parse6_loop.simps [of "string4 w"] parseIPv4Fields_string4 del: digits.simps)
qed

lemma parse6_body_mapped:
  "parse6_body (''::ffff:'' @ string4 w) = Some ([0, 0, 0, 0, 0, 0xFFFF] @ digits 65536 2 (uint w))"
proof -
  obtain u v where u: "string4 w = u @ CHR ''.'' # v" "u \<noteq> []" "\<forall>c\<in>set u. hex_value c \<noteq> None"
    using string4_split [of w] ascii_digit_hex_value by metis
  then have s: "string4 w \<noteq> []" "hd (string4 w) \<noteq> CHR '':''"
    by (cases u; fastforce)+
  have "scan_hex (''ffff:'' @ string4 w) 0 0 = Some (0xFFFF, 4, CHR '':'' # string4 w)"
    by (simp add: hex_value_def)
  with s have "parse6_loop (''ffff:'' @ string4 w) [] (Some 0) = parse6_loop (string4 w) [0xFFFF] (Some 0)"
    by (simp add: parse6_loop.simps [of _ "[]"])
  also have "\<dots> = Some ([], [0xFFFF] @ digits 65536 2 (uint w), Some 0)"
    by (rule parse6_loop_string4) auto
  finally show ?thesis
    by (simp add: parse6_body_def HasPrefix_def expand6_def numeral_eq_Suc)
qed

lemma fields_text_chars:
  "list_all field_ok gs \<Longrightarrow> c \<in> set (fields_text gs) \<Longrightarrow> c = CHR '':'' \<or> hex_value c \<noteq> None"
  using set_join [of "'':''" "map hexadecimal gs"] hexadecimal_chars
  by (fastforce simp: list_all_iff field_ok_def)

lemma string4_chars: "c \<in> set (string4 w) \<Longrightarrow> c = CHR ''.'' \<or> hex_value c \<noteq> None"
proof -
  assume "c \<in> set (string4 w)"
  then consider "c = CHR ''.''" | x where "x \<in> set (octets w)" "c \<in> set (decimal x)"
    using set_join [of "''.''" "map decimal (octets w)"] by (auto simp: string4_def)
  then show ?thesis
    by cases (use octets_range decimal_chars ascii_digit_hex_value in blast)+
qed

lemma string6_chars: "c \<in> set (string6 w) \<Longrightarrow> c = CHR '':'' \<or> hex_value c \<noteq> None"
proof -
  assume c: "c \<in> set (string6 w)"
  have "list_all field_ok (take s (v6fields w))" "list_all field_ok (drop e (v6fields w))" for s e
    using v6fields_ok(2) [of w] by (auto simp: list_all_iff dest: in_set_takeD in_set_dropD)
  then have "c \<in> set (fields_text (take s (v6fields w))) \<Longrightarrow> ?thesis"
    and "c \<in> set (fields_text (drop e (v6fields w))) \<Longrightarrow> ?thesis" for s e
    using fields_text_chars by blast+
  with c v6fields_ok(2) [of w] show ?thesis
    by (auto simp: string6_def Let_def dest: fields_text_chars split: option.splits)
qed

lemma fields_text_split:
  assumes "gs \<noteq> []" "list_all field_ok gs"
  shows "\<exists>u v. fields_text gs @ CHR '':'' # xs = u @ CHR '':'' # v \<and> (\<forall>c\<in>set u. hex_value c \<noteq> None)"
proof -
  obtain g hs where gs: "gs = g # hs" using assms(1) by (cases gs) auto
  have "\<forall>c\<in>set (hexadecimal g). hex_value c \<noteq> None"
    using assms(2) hexadecimal_chars by (auto simp: gs field_ok_def)
  then show ?thesis
    by (cases "hs = []") (auto simp: gs join_Cons)
qed

lemma string6_split: "\<exists>u v. string6 w = u @ CHR '':'' # v \<and> (\<forall>c\<in>set u. hex_value c \<noteq> None)"
proof (cases "longest_zero_run (v6fields w) [0..<8] None")
  case None
  obtain g gs where g: "v6fields w = g # gs" "gs \<noteq> []"
    using v6fields_ok(1) [of w] by (cases "v6fields w"; cases "tl (v6fields w)") auto
  then have "\<forall>c\<in>set (hexadecimal g). hex_value c \<noteq> None"
    using v6fields_ok(2) [of w] hexadecimal_chars by (auto simp: field_ok_def)
  then show ?thesis using None g by (auto simp: string6_def Let_def join_Cons)
next
  case (Some se)
  obtain s e where se: "se = (s, e)" by fastforce
  have "list_all field_ok (take s (v6fields w))"
    using v6fields_ok(2) [of w] by (auto simp: list_all_iff dest: in_set_takeD)
  with fields_text_split [of "take s (v6fields w)"] show ?thesis
    by (cases "take s (v6fields w) = []") (auto simp: string6_def Let_def Some se)
qed

lemma hex_value_not_separator:
  "hex_value c \<noteq> None \<Longrightarrow> \<not> (c = CHR ''.'' \<or> c = CHR '':'' \<or> c = CHR ''%'')"
  by auto

lemma ParseAddr_colon:
  "s = u @ CHR '':'' # v \<Longrightarrow> \<forall>c\<in>set u. hex_value c \<noteq> None \<Longrightarrow> ParseAddr s = parseIPv6 s"
  using hex_value_not_separator by (auto simp: ParseAddr_def find_split)

lemma parseIPv6_zone:
  assumes "CHR ''%'' \<notin> set body"
  shows "parseIPv6 (body @ zone_suffix z) = map_option (\<lambda>fs. Addr6 (of_v6fields fs) z) (parse6_body body)"
proof -
  have "\<forall>c\<in>set body. c \<noteq> CHR ''%''" using assms by auto
  then have t: "takeWhile (\<lambda>c. c \<noteq> CHR ''%'') (body @ zone_suffix z) = body"
    and d: "dropWhile (\<lambda>c. c \<noteq> CHR ''%'') (body @ zone_suffix z) = zone_suffix z"
    by (simp_all add: zone_suffix_def dropWhile_append2 cong: takeWhile_cong dropWhile_cong)
  show ?thesis unfolding parseIPv6_def t d Let_def by (cases z) (simp_all add: zone_suffix_def)
qed

lemma ParseAddr_String: "IsValid a \<Longrightarrow> ParseAddr (String a) = Some a"
proof (cases a)
  case (Addr4 w)
  obtain u v where "string4 w = u @ CHR ''.'' # v" "\<forall>c\<in>set u. hex_value c \<noteq> None"
    using string4_split [of w] ascii_digit_hex_value by metis
  then have "find (\<lambda>c. c = CHR ''.'' \<or> c = CHR '':'' \<or> c = CHR ''%'') (string4 w) = Some (CHR ''.'')"
    using hex_value_not_separator by (auto simp: find_split)
  then show ?thesis
    by (simp add: Addr4 String_def ParseAddr_def parseIPv4_def parseIPv4Fields_string4 of_octets_octets)
next
  case (Addr6 w z)
  show ?thesis
  proof (cases "Is4In6 a")
    case True
    have "CHR ''%'' \<notin> set (''::ffff:'' @ string4 (ucast w))" using string4_chars by fastforce
    moreover have "ParseAddr (String a) = parseIPv6 (String a)"
      using True by (intro ParseAddr_colon [of _ "[]"]) (auto simp: String_def Addr6)
    ultimately show ?thesis
      using True parseIPv6_zone [of "''::ffff:'' @ string4 (ucast w)" z]
        parse6_body_mapped [of "ucast w"] Is4In6_value [of w z]
      by (simp add: String_def Addr6)
  next
    case False
    obtain u v where "string6 w = u @ CHR '':'' # v" "\<forall>c\<in>set u. hex_value c \<noteq> None"
      using string6_split by blast
    then have "ParseAddr (String a) = parseIPv6 (string6 w @ zone_suffix z)"
      using False by (intro trans [OF ParseAddr_colon [of _ u "v @ zone_suffix z"]]) (auto simp: String_def Addr6)
    moreover have "CHR ''%'' \<notin> set (string6 w)" using string6_chars by fastforce
    ultimately show ?thesis
      by (simp add: parseIPv6_zone parse6_body_string6 of_v6fields_v6fields Addr6)
  qed
qed (simp add: IsValid_def)

lemma ParseAddr_invalid: "ParseAddr (String AddrInvalid) = None"
  by code_simp

lemma String_inj: "String a = String b \<longleftrightarrow> a = b"
proof
  assume eq: "String a = String b"
  have *: "ParseAddr (String c) = (if c = AddrInvalid then None else Some c)" for c
    using ParseAddr_String [of c] ParseAddr_invalid by (auto simp: IsValid_def)
  show "a = b" using * [of a] * [of b] unfolding eq by (auto split: if_splits)
qed simp

lemma inj_String: "inj String"
  by (simp add: inj_def String_inj)

section \<open>Decimal text is injective\<close>

lemma decimal_value: "0 \<le> n \<Longrightarrow> undigits 10 (map (\<lambda>c. the (ascii_digit c)) (decimal n)) = n"
proof (induction n rule: decimal.induct)
  case (1 n)
  then show ?case
    by (cases "n < 10")
       (simp_all add: decimal.simps [of n] undigits_def [of _ "[_]"] ascii_digit_digit_char)
qed

lemma decimal_inj: "0 \<le> m \<Longrightarrow> 0 \<le> n \<Longrightarrow> decimal m = decimal n \<Longrightarrow> m = n"
  by (metis decimal_value)

lemma not_in_decimal: "0 \<le> n \<Longrightarrow> ascii_digit c = None \<Longrightarrow> c \<notin> set (decimal n)"
  using decimal_chars by blast

lemma punctuation_not_digit: "ascii_digit CHR ''/'' = None" "ascii_digit CHR ''-'' = None"
  by (simp_all add: ascii_digit_def)

lemma no_slash_int: "CHR ''/'' \<notin> set (string_of_int i)"
  by (simp add: string_of_int_def not_in_decimal punctuation_not_digit)

lemma string_of_int_inj: "string_of_int i = string_of_int j \<Longrightarrow> i = j"
proof -
  have "decimal k \<noteq> CHR ''-'' # x" if "0 \<le> k" for k x
    using not_in_decimal [OF that punctuation_not_digit(2)] by auto
  moreover assume "string_of_int i = string_of_int j"
  ultimately show ?thesis
    using decimal_inj [of i j] decimal_inj [of "- i" "- j"]
    by (auto simp: string_of_int_def split: if_splits) (metis (no_types) linear not_le)+
qed

end
