(* ===== verification/API_Types.thy ===== *)
theory API_Types
  imports Netip_Text
begin

text \<open>
  The data: the custom resources of \<^verbatim>\<open>api/v1alpha1\<close> and, of the Kubernetes objects the
  program reads or writes, the fields it uses.  A Go \<^verbatim>\<open>type X string\<close> with named constants
  is a \<^typ>\<open>string\<close> with abbreviations for the constants, since the program tests such values for the
  empty string and falls through to a default; an optional pointer is an \<^verbatim>\<open>option\<close>; a map is
  a partial function.  Field names carry a prefix for their struct.
\<close>

section \<open>Kubernetes objects\<close>

type_synonym labels = "string \<rightharpoonup> string"

text \<open>\<^verbatim>\<open>labels.Selector\<close>, by its method \<^verbatim>\<open>Matches\<close>.\<close>

type_synonym selector = "labels \<Rightarrow> bool"

record LabelSelectorRequirement =
  lsr_Key :: string
  lsr_Operator :: string
  lsr_Values :: "string list"

record LabelSelector =
  ls_MatchLabels :: labels
  ls_MatchExpressions :: "LabelSelectorRequirement list"

text \<open>\<^verbatim>\<open>intstr.IntOrString\<close>.\<close>

datatype IntOrString = IntVal int32 | StrVal string

record NamespacedName =
  nn_Namespace :: string
  nn_Name :: string

record ObjectReference =
  or_Kind :: string
  or_Namespace :: string
  or_Name :: string
  or_UID :: string

record OwnerReference =
  ow_Kind :: string
  ow_Name :: string
  ow_UID :: string

record EndpointPort =
  epp_Name :: "string option"
  epp_Port :: "int32 option"
  epp_Protocol :: "string option"
  epp_AppProtocol :: "string option"

record SliceEndpoint =
  se_Addresses :: "string list"
  se_Ready :: "bool option"
  se_Serving :: "bool option"
  se_Terminating :: "bool option"
  se_Hostname :: "string option"
  se_TargetRef :: "ObjectReference option"
  se_NodeName :: "string option"
  se_Zone :: "string option"

record EndpointSlice =
  es_Name :: string
  es_Namespace :: string
  es_Labels :: labels
  es_OwnerReferences :: "OwnerReference list"
  es_AddressType :: string
  es_Ports :: "EndpointPort list"
  es_Endpoints :: "SliceEndpoint list"

record ServicePort =
  svp_Name :: string
  svp_Port :: int32
  svp_Protocol :: string
  svp_AppProtocol :: "string option"
  svp_TargetPort :: IntOrString
  svp_NodePort :: int32

record ServiceSpec =
  ss_Ports :: "ServicePort list"
  ss_Selector :: "labels option"
  ss_ClusterIP :: string
  ss_Type :: string
  ss_SessionAffinity :: string
  ss_PublishNotReadyAddresses :: bool
  ss_InternalTrafficPolicy :: "string option"
  ss_IPFamilyPolicy :: "string option"

record LoadBalancerIngress =
  lbi_IP :: string
  lbi_Hostname :: string

record Service =
  svc_Name :: string
  svc_Namespace :: string
  svc_Labels :: labels
  svc_Annotations :: labels
  svc_OwnerReferences :: "OwnerReference list"
  svc_Spec :: ServiceSpec
  svc_Ingress :: "LoadBalancerIngress list"

record Condition =
  cond_Type :: string
  cond_Status :: string

record ContainerPort =
  cp_Name :: string
  cp_ContainerPort :: int32

record Pod =
  pod_Name :: string
  pod_Namespace :: string
  pod_UID :: string
  pod_DeletionTimestamp :: "time option"
  pod_NodeName :: string
  pod_Containers :: "ContainerPort list list"
  pod_InitContainers :: "ContainerPort list list"
  pod_IP :: string
  pod_Phase :: string
  pod_Conditions :: "Condition list"

record NodeAddress =
  na_Type :: string
  na_Address :: string

record Node =
  node_Name :: string
  node_Labels :: labels
  node_Unschedulable :: bool
  node_Conditions :: "Condition list"
  node_Addresses :: "NodeAddress list"

abbreviation ProtocolTCP :: string where "ProtocolTCP \<equiv> ''TCP''"
abbreviation AddressTypeIPv4 :: string where "AddressTypeIPv4 \<equiv> ''IPv4''"
abbreviation AddressTypeIPv6 :: string where "AddressTypeIPv6 \<equiv> ''IPv6''"
abbreviation ConditionTrue :: string where "ConditionTrue \<equiv> ''True''"
abbreviation ConditionFalse :: string where "ConditionFalse \<equiv> ''False''"

section \<open>Names fixed by the project\<close>

definition ProjectGroup :: string where
  "ProjectGroup = ''net.obaydullah.dev''"

definition ManagedByLabel :: string where
  "ManagedByLabel = ''endpointslice.kubernetes.io/managed-by''"

definition ManagedByLabelValue :: string where
  "ManagedByLabelValue = ''crossservice.'' @ ProjectGroup"

definition ServiceNameLabel :: string where
  "ServiceNameLabel = ''kubernetes.io/service-name''"

definition CrossServiceNameLabel :: string where
  "CrossServiceNameLabel = ProjectGroup @ ''/crossservice-name''"

definition CrossServiceNamespaceLabel :: string where
  "CrossServiceNamespaceLabel = ProjectGroup @ ''/crossservice-namespace''"

definition ZoneLabel :: string where
  "ZoneLabel = ''topology.kubernetes.io/zone''"

lemmas label_defs = ProjectGroup_def ManagedByLabel_def ManagedByLabelValue_def ServiceNameLabel_def
  CrossServiceNameLabel_def CrossServiceNamespaceLabel_def ZoneLabel_def

section \<open>Enumerations\<close>

abbreviation SourceTypeService :: string where "SourceTypeService \<equiv> ''Service''"
abbreviation SourceTypePods :: string where "SourceTypePods \<equiv> ''Pods''"
abbreviation SourceTypeNodes :: string where "SourceTypeNodes \<equiv> ''Nodes''"
abbreviation SourceTypeDNS :: string where "SourceTypeDNS \<equiv> ''DNS''"
abbreviation SourceTypeStatic :: string where "SourceTypeStatic \<equiv> ''Static''"

abbreviation ServiceExposureNodePort :: string where "ServiceExposureNodePort \<equiv> ''NodePort''"
abbreviation ServiceExposureLoadBalancer :: string where
  "ServiceExposureLoadBalancer \<equiv> ''LoadBalancer''"
abbreviation ServiceExposurePodIP :: string where "ServiceExposurePodIP \<equiv> ''PodIP''"

abbreviation DNSRecordTypeA :: string where "DNSRecordTypeA \<equiv> ''A''"
abbreviation DNSRecordTypeAAAA :: string where "DNSRecordTypeAAAA \<equiv> ''AAAA''"
abbreviation DNSRecordTypeSRV :: string where "DNSRecordTypeSRV \<equiv> ''SRV''"

abbreviation NodeAddressTypeInternalIP :: string where "NodeAddressTypeInternalIP \<equiv> ''InternalIP''"
abbreviation NodeAddressTypeExternalIP :: string where "NodeAddressTypeExternalIP \<equiv> ''ExternalIP''"
abbreviation NodeAddressTypePreferExternal :: string where
  "NodeAddressTypePreferExternal \<equiv> ''PreferExternal''"
abbreviation NodeAddressTypePreferInternal :: string where
  "NodeAddressTypePreferInternal \<equiv> ''PreferInternal''"

abbreviation IPFamilyPolicyIPv4 :: string where "IPFamilyPolicyIPv4 \<equiv> ''IPv4''"
abbreviation IPFamilyPolicyIPv6 :: string where "IPFamilyPolicyIPv6 \<equiv> ''IPv6''"
abbreviation IPFamilyPolicyPreferDualStack :: string where
  "IPFamilyPolicyPreferDualStack \<equiv> ''PreferDualStack''"

abbreviation StaleActionRemove :: string where "StaleActionRemove \<equiv> ''Remove''"
abbreviation StaleActionMarkNotReady :: string where "StaleActionMarkNotReady \<equiv> ''MarkNotReady''"

abbreviation ReasonStaleEndpoints :: string where "ReasonStaleEndpoints \<equiv> ''StaleEndpoints''"

section \<open>CrossService\<close>

record DNSResolution =
  dr_Interval :: "duration option"
  dr_UseTTL :: bool
  dr_MinTTL :: "duration option"
  dr_MaxTTL :: "duration option"
  dr_Nameservers :: "string list"

record CrossServicePort =
  csp_Name :: string
  csp_Port :: int32
  csp_Protocol :: string
  csp_AppProtocol :: "string option"
  csp_TargetPort :: "IntOrString option"
  csp_RemotePort :: "IntOrString option"

record NodePortExposure =
  npe_Selector :: "LabelSelector option"
  npe_Names :: "string list"
  npe_AddressType :: string
  npe_RequireReady :: "bool option"
  npe_ExcludeUnschedulable :: "bool option"
  npe_PropagateZone :: "bool option"

record LoadBalancerExposure =
  lbe_HostnameResolution :: "DNSResolution option"

record PodIPExposure =
  pie_IncludeTerminating :: bool
  pie_PropagateZone :: "bool option"

record ServiceSource =
  svs_Namespace :: string
  svs_Name :: string
  svs_Via :: string
  svs_NodePort :: "NodePortExposure option"
  svs_LoadBalancer :: "LoadBalancerExposure option"
  svs_PodIP :: "PodIPExposure option"

record PodSource =
  ps_Namespace :: string
  ps_Selector :: "LabelSelector option"
  ps_Names :: "string list"
  ps_IncludeTerminating :: bool
  ps_PropagateZone :: "bool option"

record NodeSource =
  ns_Selector :: "LabelSelector option"
  ns_Names :: "string list"
  ns_AddressType :: string
  ns_RequireReady :: "bool option"
  ns_ExcludeUnschedulable :: "bool option"
  ns_PropagateZone :: "bool option"

record DNSSource =
  ds_Names :: "string list"
  ds_RecordType :: string
  ds_SRVPortName :: string
  ds_ExcludePrivateIPs :: bool
  ds_ExcludePublicIPs :: bool
  ds_Resolution :: DNSResolution

record StaticSource =
  sts_Addresses :: "string list"
  sts_Zone :: string

record ClusterRef =
  cr_Name :: string

record Source =
  src_Type :: string
  src_ClusterRef :: "ClusterRef option"
  src_Service :: "ServiceSource option"
  src_Pods :: "PodSource option"
  src_Nodes :: "NodeSource option"
  src_DNS :: "DNSSource option"
  src_Static :: "StaticSource option"

record ServiceTemplate =
  st_Name :: string
  st_Labels :: labels
  st_Annotations :: labels
  st_ClusterIP :: string
  st_InternalTrafficPolicy :: "string option"
  st_SessionAffinity :: "string option"
  st_PublishNotReadyAddresses :: bool
  st_TopologyHints :: bool

record FailurePolicy =
  fp_FailureThreshold :: int32
  fp_StaleThreshold :: "duration option"
  fp_OnStale :: string

record CrossServiceSpec =
  spec_Ports :: "CrossServicePort list"
  spec_Source :: Source
  spec_Service :: "ServiceTemplate option"
  spec_IPFamilyPolicy :: string
  spec_FailurePolicy :: "FailurePolicy option"

record PersistedEndpoint =
  pe_Address :: string
  pe_Ready :: bool
  pe_Zone :: string
  pe_Hostname :: string
  pe_Ports :: "string \<rightharpoonup> int32"

record SourceStatus =
  sst_Type :: string
  sst_Via :: string
  sst_RemoteService :: string
  sst_ClusterRef :: string
  sst_LastSuccessTime :: "time option"
  sst_LastError :: msg
  sst_ConsecutiveErrors :: int32
  sst_Stale :: bool
  sst_Endpoints :: int32
  sst_LastKnownGood :: "PersistedEndpoint list"

record StatusCondition =
  sc_Type :: string
  sc_Status :: string
  sc_Reason :: string
  sc_Message :: msg
  sc_LastTransitionTime :: time
  sc_ObservedGeneration :: int

record CrossServiceStatus =
  css_Conditions :: "StatusCondition list"
  css_ObservedGeneration :: int
  css_ServiceName :: string
  css_ClusterIP :: string
  css_ReadyEndpoints :: int32
  css_TotalEndpoints :: int32
  css_DroppedAddresses :: int32
  css_EndpointSlices :: "string list"
  css_Source :: "SourceStatus option"

record CrossService =
  xs_Name :: string
  xs_Namespace :: string
  xs_UID :: string
  xs_Generation :: int
  xs_Spec :: CrossServiceSpec
  xs_Status :: CrossServiceStatus

record AddressPolicy =
  ap_AllowedCIDRs :: "string list"
  ap_DeniedCIDRs :: "string list"
  ap_DenySpecialPurpose :: "bool option"

text \<open>Zero values, the starting point for concrete inputs.\<close>

definition zero_port :: CrossServicePort where
  "zero_port = \<lparr>csp_Name = [], csp_Port = 0, csp_Protocol = [], csp_AppProtocol = None,
     csp_TargetPort = None, csp_RemotePort = None\<rparr>"

definition zero_source :: Source where
  "zero_source = \<lparr>src_Type = [], src_ClusterRef = None, src_Service = None, src_Pods = None,
     src_Nodes = None, src_DNS = None, src_Static = None\<rparr>"

definition zero_source_status :: SourceStatus where
  "zero_source_status = \<lparr>sst_Type = [], sst_Via = [], sst_RemoteService = [], sst_ClusterRef = [],
     sst_LastSuccessTime = None, sst_LastError = [], sst_ConsecutiveErrors = 0, sst_Stale = False,
     sst_Endpoints = 0, sst_LastKnownGood = []\<rparr>"

definition zero_status :: CrossServiceStatus where
  "zero_status = \<lparr>css_Conditions = [], css_ObservedGeneration = 0, css_ServiceName = [],
     css_ClusterIP = [], css_ReadyEndpoints = 0, css_TotalEndpoints = 0, css_DroppedAddresses = 0,
     css_EndpointSlices = [], css_Source = None\<rparr>"

lemmas zero_defs = zero_port_def zero_source_def zero_source_status_def zero_status_def

end
