(* ===== verification/Clusters.thy ===== *)
theory Clusters
  imports API_Types
begin

text \<open>
  \<^verbatim>\<open>internal/clusters/provider.go\<close>: the read-only client that the resolvers see, the
  providers that hand such clients out by cluster name, and the client of the local cluster.

  A \<^verbatim>\<open>Client\<close> reads from an informer's cache, so within one reconciliation it is a
  record of functions; a provider may open and drop connections, so its operations pass a state.  The
  manager's own \<^verbatim>\<open>client.Client\<close> is a parameter, the record \<open>KubeReader\<close> of the reads
  that the local client makes.
\<close>

section \<open>Clients and providers\<close>

record Client =
  cl_ListPods :: "string \<Rightarrow> selector option \<Rightarrow> Pod list result"
  cl_GetPod :: "string \<Rightarrow> string \<Rightarrow> Pod result"
  cl_ListNodes :: "selector option \<Rightarrow> Node list result"
  cl_GetNode :: "string \<Rightarrow> Node result"
  cl_GetService :: "string \<Rightarrow> string \<Rightarrow> Service result"
  cl_ListEndpointSlices :: "string \<Rightarrow> string \<Rightarrow> EndpointSlice list result"
  cl_Healthy :: "go_error option"

record 'st Provider =
  pr_Get :: "string \<Rightarrow> 'st \<Rightarrow> Client result \<times> 'st"
  pr_Release :: "string \<Rightarrow> NamespacedName \<Rightarrow> 'st \<Rightarrow> 'st"
  pr_Invalidate :: "string \<Rightarrow> 'st \<Rightarrow> 'st"

definition SourceCluster :: "Source \<Rightarrow> string" where
  "SourceCluster src = (case src_ClusterRef src of None \<Rightarrow> [] | Some r \<Rightarrow> cr_Name r)"

section \<open>The local cluster\<close>

record KubeReader =
  kr_ListPods :: "string \<Rightarrow> selector option \<Rightarrow> Pod list result"
  kr_GetPod :: "NamespacedName \<Rightarrow> Pod result"
  kr_ListNodes :: "selector option \<Rightarrow> Node list result"
  kr_GetNode :: "NamespacedName \<Rightarrow> Node result"
  kr_GetService :: "NamespacedName \<Rightarrow> Service result"
  kr_ListSlices :: "string \<Rightarrow> labels \<Rightarrow> EndpointSlice list result"

text \<open>\<^verbatim>\<open>fmt.Errorf\<close> with \<^verbatim>\<open>%w\<close> around the error of a call.\<close>

definition wrap_err :: "msg \<Rightarrow> 'a result \<Rightarrow> 'a result" where
  "wrap_err m r = (case r of Inl err \<Rightarrow> Inl (Wrapped m err) | Inr v \<Rightarrow> Inr v)"

definition localClient :: "KubeReader \<Rightarrow> Client" where
  "localClient c =
     \<lparr>cl_ListPods = (\<lambda>namespace sel.
        wrap_err [Lit ''listing pods in '', Lit namespace, Lit '': ''] (kr_ListPods c namespace sel)),
      cl_GetPod = (\<lambda>namespace name.
        wrap_err [Lit ''getting pod '', Lit namespace, Lit ''/'', Lit name, Lit '': '']
          (kr_GetPod c \<lparr>nn_Namespace = namespace, nn_Name = name\<rparr>)),
      cl_ListNodes = (\<lambda>sel. wrap_err [Lit ''listing nodes: ''] (kr_ListNodes c sel)),
      cl_GetNode = (\<lambda>name.
        wrap_err [Lit ''getting node '', Lit name, Lit '': '']
          (kr_GetNode c \<lparr>nn_Namespace = [], nn_Name = name\<rparr>)),
      cl_GetService = (\<lambda>namespace name.
        wrap_err [Lit ''getting service '', Lit namespace, Lit ''/'', Lit name, Lit '': '']
          (kr_GetService c \<lparr>nn_Namespace = namespace, nn_Name = name\<rparr>)),
      cl_ListEndpointSlices = (\<lambda>namespace serviceName.
        wrap_err [Lit ''listing endpointslices for '', Lit namespace, Lit ''/'', Lit serviceName, Lit '': '']
          (kr_ListSlices c namespace [ServiceNameLabel \<mapsto> serviceName])),
      cl_Healthy = None\<rparr>"

definition LocalProvider :: "KubeReader \<Rightarrow> 'st Provider" where
  "LocalProvider c =
     \<lparr>pr_Get = (\<lambda>name st. if name \<noteq> [] then (Inl (ErrRemoteNotImplemented name), st)
                          else (Inr (localClient c), st)),
      pr_Release = (\<lambda>_ _ st. st),
      pr_Invalidate = (\<lambda>_ st. st)\<rparr>"

section \<open>Routing\<close>

definition RoutingProvider :: "'st Provider \<Rightarrow> 'st Provider option \<Rightarrow> 'st Provider" where
  "RoutingProvider local remote =
     \<lparr>pr_Get = (\<lambda>name st.
        if name = [] then pr_Get local [] st
        else (case remote of
                None \<Rightarrow> (Inl (ErrRemoteNotImplemented name), st)
              | Some r \<Rightarrow> pr_Get r name st)),
      pr_Release = (\<lambda>name consumer st.
        (case remote of None \<Rightarrow> st | Some r \<Rightarrow> pr_Release r name consumer st)),
      pr_Invalidate = (\<lambda>name st.
        (case remote of None \<Rightarrow> st | Some r \<Rightarrow> pr_Invalidate r name st))\<rparr>"

section \<open>The contract of a provider\<close>

text \<open>
  What the rest of the program relies on: the unnamed cluster is the local one, always at hand, and
  asking for it has no effect.
\<close>

locale cluster_provider =
  fixes provider :: "'st Provider" and reader :: KubeReader
  assumes get_local: "pr_Get provider [] st = (Inr (localClient reader), st)"
begin

lemma source_local: "SourceCluster src = [] \<Longrightarrow> pr_Get provider (SourceCluster src) st = (Inr (localClient reader), st)"
  by (simp add: get_local)

lemma unnamed_local: "src_ClusterRef src = None \<Longrightarrow> pr_Get provider (SourceCluster src) st = (Inr (localClient reader), st)"
  by (simp add: SourceCluster_def get_local)

end

interpretation local_provider: cluster_provider "LocalProvider c" c for c
  by unfold_locales (simp add: LocalProvider_def)

interpretation routing: cluster_provider "RoutingProvider (LocalProvider c) remote" c for c remote
  by unfold_locales (simp add: RoutingProvider_def LocalProvider_def)

lemma routing_named:
  "name \<noteq> [] \<Longrightarrow> pr_Get (RoutingProvider local (Some r)) name st = pr_Get r name st"
  by (simp add: RoutingProvider_def)

end
