(* ===== verification/Resolver_Core.thy ===== *)
theory Resolver_Core
  imports Clusters
begin

text \<open>
  \<^verbatim>\<open>internal/resolver/resolver.go\<close> and \<^verbatim>\<open>static.go\<close>: the intermediate form
  that every source reduces to, the registry that dispatches on the source type, the port map of the
  sources whose backend port is declared, and the Static source.

  A resolver reads through a provider of cluster clients whose state (the cache of remote
  connections) it may change, so it is a function from that state to a result and the next state.
  The conversion \<^verbatim>\<open>IntOrString.IntValue\<close> belongs to a library and is the parameter
  \<open>intValue\<close>.
\<close>

section \<open>The intermediate form\<close>

record Endpoint =
  e_Address :: addr
  e_Ready :: bool
  e_Serving :: bool
  e_Terminating :: bool
  e_Zone :: string
  e_Hostname :: string
  e_TargetRef :: "ObjectReference option"
  e_PortMap :: "string \<rightharpoonup> int32"

record Result =
  r_Endpoints :: "Endpoint list"
  r_TTL :: duration
  r_Warnings :: "msg list"

type_synonym 'st resolver = "Source \<Rightarrow> CrossServicePort list \<Rightarrow> 'st \<Rightarrow> Result result \<times> 'st"

definition zero_endpoint :: Endpoint where
  "zero_endpoint = \<lparr>e_Address = AddrInvalid, e_Ready = False, e_Serving = False,
     e_Terminating = False, e_Zone = [], e_Hostname = [], e_TargetRef = None, e_PortMap = Map.empty\<rparr>"

section \<open>Registry\<close>

type_synonym 'st registry = "string \<rightharpoonup> 'st resolver"

definition Registry_Resolve :: "'st registry \<Rightarrow> 'st resolver" where
  "Registry_Resolve byType src ports st =
     (case byType (src_Type src) of
        None \<Rightarrow> (Inl (UnsupportedSourceError (src_Type src)), st)
      | Some res \<Rightarrow> res src ports st)"

section \<open>Declared ports\<close>

definition resolvedPort :: "(IntOrString \<Rightarrow> int) \<Rightarrow> CrossServicePort \<Rightarrow> int32" where
  "resolvedPort intValue p =
     (case csp_TargetPort p of
        None \<Rightarrow> csp_Port p
      | Some t \<Rightarrow> if 0 < intValue t then to_int32 (intValue t) else csp_Port p)"

definition defaultPortMap ::
    "(IntOrString \<Rightarrow> int) \<Rightarrow> CrossServicePort list \<Rightarrow> (string \<rightharpoonup> int32)" where
  "defaultPortMap intValue ports =
     foldl (\<lambda>out p. out(csp_Name p \<mapsto> resolvedPort intValue p)) Map.empty ports"

section \<open>The Static source\<close>

fun static_endpoints ::
    "string \<Rightarrow> (string \<rightharpoonup> int32) \<Rightarrow> string list \<Rightarrow> Endpoint list \<Rightarrow> Endpoint list result" where
  "static_endpoints zone portMap [] out = Inr out"
| "static_endpoints zone portMap (raw # raws) out =
     (case ParseAddr raw of
        None \<Rightarrow> Inl (Wrapped [Lit ''invalid static address '', Quoted raw, Lit '': '']
                       (Errorf [ParseAddrText raw]))
      | Some a \<Rightarrow> static_endpoints zone portMap raws
          (out @ [zero_endpoint\<lparr>e_Address := Unmap a, e_Ready := True, e_Serving := True,
                    e_Zone := zone, e_PortMap := portMap\<rparr>]))"

definition Static_Resolve :: "(IntOrString \<Rightarrow> int) \<Rightarrow> 'st resolver" where
  "Static_Resolve intValue src ports st =
     (case src_Static src of
        None \<Rightarrow> (Inl (Errorf [Lit ''static source has no static config'']), st)
      | Some cfg \<Rightarrow>
          (case static_endpoints (sts_Zone cfg) (defaultPortMap intValue ports) (sts_Addresses cfg) [] of
             Inl err \<Rightarrow> (Inl err, st)
           | Inr out \<Rightarrow> (Inr \<lparr>r_Endpoints = out, r_TTL = 0, r_Warnings = []\<rparr>, st)))"

section \<open>What every resolver promises\<close>

text \<open>
  The rest of the program relies on four facts about a resolved endpoint: its address is not an
  IPv4-mapped IPv6 address (so the address family decides the slice), its port map names the declared
  ports, all of them and no other (the join key I2), it refers to no object of a remote cluster (I6),
  and it carries no hostname.
\<close>

definition endpoint_ok :: "Source \<Rightarrow> CrossServicePort list \<Rightarrow> Endpoint \<Rightarrow> bool" where
  "endpoint_ok src ports e \<longleftrightarrow>
     \<not> Is4In6 (e_Address e) \<and> dom (e_PortMap e) = csp_Name ` set ports \<and>
     (SourceCluster src \<noteq> [] \<longrightarrow> e_TargetRef e = None) \<and> e_Hostname e = []"

lemma endpoint_ok_port: "endpoint_ok src ports e \<Longrightarrow> (\<exists>n. e_PortMap e q = Some n) \<longleftrightarrow> q \<in> csp_Name ` set ports"
  by (metis domIff endpoint_ok_def not_None_eq)

locale resolver_contract =
  fixes resolve :: "'st resolver"
  assumes resolve_ok:
    "resolve src ports st = (Inr r, st') \<Longrightarrow> e \<in> set (r_Endpoints r) \<Longrightarrow> endpoint_ok src ports e"
begin

lemma resolve_unmapped:
  "resolve src ports st = (Inr r, st') \<Longrightarrow> e \<in> set (r_Endpoints r) \<Longrightarrow> \<not> Is4In6 (e_Address e)"
  using resolve_ok by (auto simp: endpoint_ok_def)

lemma resolve_no_dangling_ref:
  "resolve src ports st = (Inr r, st') \<Longrightarrow> SourceCluster src \<noteq> [] \<Longrightarrow>
     e \<in> set (r_Endpoints r) \<Longrightarrow> e_TargetRef e = None"
  using resolve_ok by (auto simp: endpoint_ok_def)

lemma resolve_declared_ports:
  "resolve src ports st = (Inr r, st') \<Longrightarrow> e \<in> set (r_Endpoints r) \<Longrightarrow> e_PortMap e q = Some n \<Longrightarrow>
     \<exists>p\<in>set ports. csp_Name p = q"
  using endpoint_ok_port [OF resolve_ok, of src ports st r st' e q] by auto

lemma resolve_every_port:
  "resolve src ports st = (Inr r, st') \<Longrightarrow> e \<in> set (r_Endpoints r) \<Longrightarrow> p \<in> set ports \<Longrightarrow>
     \<exists>n. e_PortMap e (csp_Name p) = Some n"
  using endpoint_ok_port [OF resolve_ok] by blast

end

text \<open>Dispatch keeps the contract: a registry of resolvers that satisfy it satisfies it.\<close>

lemma registry_contract:
  assumes "\<And>t res. byType t = Some res \<Longrightarrow> resolver_contract res"
  shows "resolver_contract (Registry_Resolve byType)"
proof unfold_locales
  fix src ports st r st' e
  assume "Registry_Resolve byType src ports st = (Inr r, st')" and e: "e \<in> set (r_Endpoints r)"
  then obtain res where "byType (src_Type src) = Some res" "res src ports st = (Inr r, st')"
    by (auto simp: Registry_Resolve_def split: option.splits)
  with e show "endpoint_ok src ports e"
    by (intro resolver_contract.resolve_ok [OF assms])
qed

section \<open>Lemmas\<close>

lemma Unmap_not_mapped [simp]: "\<not> Is4In6 (Unmap a)"
  by (cases a) (auto simp: Unmap_def Is4In6_def)

lemma defaultPortMap_snoc:
  "defaultPortMap iv (ports @ [p]) = (defaultPortMap iv ports)(csp_Name p \<mapsto> resolvedPort iv p)"
  by (simp add: defaultPortMap_def)

lemma defaultPortMap_Nil: "defaultPortMap iv [] = Map.empty"
  by (simp add: defaultPortMap_def)

lemma dom_defaultPortMap: "dom (defaultPortMap iv ports) = csp_Name ` set ports"
proof (induction ports rule: rev_induct)
  case (snoc p ports)
  have "dom (defaultPortMap iv (ports @ [p])) = insert (csp_Name p) (dom (defaultPortMap iv ports))"
    by (auto simp: defaultPortMap_snoc)
  with snoc show ?case by simp
qed (simp add: defaultPortMap_Nil)

lemma defaultPortMap_name: "defaultPortMap iv ports q = Some n \<Longrightarrow> q \<in> csp_Name ` set ports"
  using dom_defaultPortMap by blast

lemma defaultPortMap_lookup:
  "distinct (map csp_Name ports) \<Longrightarrow> p \<in> set ports \<Longrightarrow>
     defaultPortMap iv ports (csp_Name p) = Some (resolvedPort iv p)"
proof (induction ports rule: rev_induct)
  case (snoc q ports)
  then show ?case
    by (cases "csp_Name p = csp_Name q") (auto simp: defaultPortMap_snoc rev_image_eqI)
qed simp

lemma static_endpoints_Inr:
  "static_endpoints zone pm raws acc = Inr out \<Longrightarrow>
     list_all (\<lambda>raw. ParseAddr raw \<noteq> None) raws \<and>
     out = acc @ map (\<lambda>raw. zero_endpoint\<lparr>e_Address := Unmap (the (ParseAddr raw)), e_Ready := True,
       e_Serving := True, e_Zone := zone, e_PortMap := pm\<rparr>) raws"
proof (induction raws arbitrary: acc)
  case (Cons raw raws)
  then obtain a where a: "ParseAddr raw = Some a" by (auto split: option.splits)
  show ?case using Cons.IH [of "acc @ [zero_endpoint\<lparr>e_Address := Unmap a, e_Ready := True,
      e_Serving := True, e_Zone := zone, e_PortMap := pm\<rparr>]"] Cons.prems
    by (simp add: a)
qed simp

lemma static_endpoints_ok:
  "list_all (\<lambda>raw. ParseAddr raw \<noteq> None) raws \<Longrightarrow> \<exists>out. static_endpoints zone pm raws acc = Inr out"
  by (induction raws arbitrary: acc) (auto split: option.splits)

text \<open>Most sources make endpoints that refer to no object at all, local or remote.\<close>

definition plain_endpoint :: "CrossServicePort list \<Rightarrow> Endpoint \<Rightarrow> bool" where
  "plain_endpoint ports e \<longleftrightarrow> \<not> Is4In6 (e_Address e) \<and> dom (e_PortMap e) = csp_Name ` set ports \<and>
     e_TargetRef e = None \<and> e_Hostname e = []"

lemma plain_endpoint_ok: "plain_endpoint ports e \<Longrightarrow> endpoint_ok src ports e"
  by (simp add: plain_endpoint_def endpoint_ok_def)

lemma plain_endpoints_ok:
  "list_all (plain_endpoint ports) es \<Longrightarrow> e \<in> set es \<Longrightarrow> endpoint_ok src ports e"
  by (auto simp: list_all_iff intro: plain_endpoint_ok)

interpretation static: resolver_contract "Static_Resolve intValue" for intValue
proof unfold_locales
  fix src ports st r st' e
  assume res: "Static_Resolve intValue src ports st = (Inr r, st')" and e: "e \<in> set (r_Endpoints r)"
  have "plain_endpoint ports (zero_endpoint\<lparr>e_Address := Unmap a, e_Ready := True, e_Serving := True,
      e_Zone := z, e_PortMap := defaultPortMap intValue ports\<rparr>)" for a z
    unfolding plain_endpoint_def zero_endpoint_def by (simp add: dom_defaultPortMap)
  with res have "list_all (plain_endpoint ports) (r_Endpoints r)"
    by (auto simp: Static_Resolve_def list_all_iff split: option.splits sum.splits dest!: static_endpoints_Inr)
  then show "endpoint_ok src ports e" using e by (rule plain_endpoints_ok)
qed

end
