(* ===== verification/Policy.thy ===== *)
theory Policy
  imports Resolver_Core
begin

text \<open>
  \<^verbatim>\<open>internal/endpoints/policy.go\<close>: an \<^verbatim>\<open>AddressPolicy\<close> compiled to prefixes and
  enforced against resolved addresses.  The lemmas give the decision of \<^verbatim>\<open>Allow\<close> on every
  branch, the exact set of special-purpose addresses, and that \<^verbatim>\<open>Filter\<close> splits its input.
\<close>

unbundle bit_operations_syntax

section \<open>Compiling a policy\<close>

record Policy =
  pol_allowed :: "prefix list"
  pol_denied :: "prefix list"
  pol_denySpecialPurpose :: bool

fun parsePrefixes :: "string list \<Rightarrow> prefix list result" where
  "parsePrefixes [] = Inr []"
| "parsePrefixes (s # raw) =
     (case ParsePrefix s of
        None \<Rightarrow> Inl (Wrapped [Lit ''invalid CIDR '', Quoted s, Lit '': ''] (Errorf [ParsePrefixText s]))
      | Some p \<Rightarrow> (case parsePrefixes raw of Inl err \<Rightarrow> Inl err | Inr out \<Rightarrow> Inr (Masked p # out)))"

definition NewPolicy :: "AddressPolicy option \<Rightarrow> Policy result" where
  "NewPolicy p =
     (let out = \<lparr>pol_allowed = [], pol_denied = [], pol_denySpecialPurpose = True\<rparr>
      in case p of
        None \<Rightarrow> Inr out
      | Some ap \<Rightarrow>
          (let out = (case ap_DenySpecialPurpose ap of
                        None \<Rightarrow> out
                      | Some b \<Rightarrow> out\<lparr>pol_denySpecialPurpose := b\<rparr>)
           in case parsePrefixes (ap_AllowedCIDRs ap) of
                Inl err \<Rightarrow> Inl (Wrapped [Lit ''allowedCIDRs: ''] err)
              | Inr allowed \<Rightarrow>
                  (case parsePrefixes (ap_DeniedCIDRs ap) of
                     Inl err \<Rightarrow> Inl (Wrapped [Lit ''deniedCIDRs: ''] err)
                   | Inr denied \<Rightarrow> Inr (out\<lparr>pol_allowed := allowed, pol_denied := denied\<rparr>))))"

section \<open>Special-purpose addresses\<close>

definition deniedSpecialV4 :: "prefix list" where
  "deniedSpecialV4 = map MustParsePrefix
     [''0.0.0.0/8'', ''127.0.0.0/8'', ''169.254.0.0/16'', ''224.0.0.0/4'', ''255.255.255.255/32'']"

definition deniedSpecialV6 :: "prefix list" where
  "deniedSpecialV6 = map MustParsePrefix [''::/128'', ''::1/128'', ''fe80::/10'', ''ff00::/8'']"

definition isSpecialPurpose :: "addr \<Rightarrow> bool" where
  "isSpecialPurpose a =
     (if IsLoopback a \<or> IsUnspecified a \<or> IsMulticast a \<or> IsLinkLocalUnicast a \<or>
         IsLinkLocalMulticast a \<or> IsInterfaceLocalMulticast a
      then True
      else list_ex (\<lambda>pfx. Prefix_Contains pfx a) (if Is6 a then deniedSpecialV6 else deniedSpecialV4))"

section \<open>Deciding and filtering\<close>

datatype RejectReason = RejectSpecialPurpose | RejectNotAllowed | RejectDenied

record Rejection =
  rej_Address :: addr
  rej_Reason :: RejectReason

text \<open>The pair of a flag and a reason: \<^const>\<open>None\<close> is \<^verbatim>\<open>(true, "")\<close>.\<close>

definition Allow :: "Policy \<Rightarrow> addr \<Rightarrow> RejectReason option" where
  "Allow p a =
     (let a = Unmap a
      in if pol_denySpecialPurpose p \<and> isSpecialPurpose a then Some RejectSpecialPurpose
         else if list_ex (\<lambda>d. Prefix_Contains d a) (pol_denied p) then Some RejectDenied
         else if pol_allowed p \<noteq> [] then
           (if list_ex (\<lambda>d. Prefix_Contains d a) (pol_allowed p) then None else Some RejectNotAllowed)
         else None)"

fun Filter :: "Policy \<Rightarrow> Endpoint list \<Rightarrow> Endpoint list \<times> Rejection list" where
  "Filter p [] = ([], [])"
| "Filter p (e # es) =
     (case Filter p es of (kept, rejected) \<Rightarrow>
        (case Allow p (e_Address e) of
           Some reason \<Rightarrow> (kept, \<lparr>rej_Address = e_Address e, rej_Reason = reason\<rparr> # rejected)
         | None \<Rightarrow> (e # kept, rejected)))"

section \<open>The prefixes of the literals\<close>

lemma deniedSpecialV4_eq:
  "deniedSpecialV4 =
     [\<lparr>pfx_Addr = Addr4 0, pfx_Bits = 8\<rparr>, \<lparr>pfx_Addr = Addr4 0x7F000000, pfx_Bits = 8\<rparr>,
      \<lparr>pfx_Addr = Addr4 0xA9FE0000, pfx_Bits = 16\<rparr>, \<lparr>pfx_Addr = Addr4 0xE0000000, pfx_Bits = 4\<rparr>,
      \<lparr>pfx_Addr = Addr4 0xFFFFFFFF, pfx_Bits = 32\<rparr>]"
  by code_simp

lemma deniedSpecialV6_eq:
  "deniedSpecialV6 =
     [\<lparr>pfx_Addr = Addr6 0 [], pfx_Bits = 128\<rparr>, \<lparr>pfx_Addr = Addr6 1 [], pfx_Bits = 128\<rparr>,
      \<lparr>pfx_Addr = Addr6 0xFE800000000000000000000000000000 [], pfx_Bits = 10\<rparr>,
      \<lparr>pfx_Addr = Addr6 0xFF000000000000000000000000000000 [], pfx_Bits = 8\<rparr>]"
  by code_simp

section \<open>Which addresses are special-purpose\<close>

text \<open>
  The specification: the values of the denied blocks.  IPv4: \<^verbatim>\<open>0.0.0.0/8\<close>,
  \<^verbatim>\<open>127.0.0.0/8\<close>, \<^verbatim>\<open>169.254.0.0/16\<close>,
  \<^verbatim>\<open>224.0.0.0/4\<close> and the broadcast address.  IPv6: \<^verbatim>\<open>::1\<close>,
  \<^verbatim>\<open>fe80::/10\<close> and \<^verbatim>\<open>ff00::/8\<close>, whatever the zone, and
  \<^verbatim>\<open>::\<close> without a zone.
\<close>

definition special4 :: "int set" where
  "special4 = {0 ..< 0x01000000} \<union> {0x7F000000 ..< 0x80000000} \<union> {0xA9FE0000 ..< 0xA9FF0000}
     \<union> {0xE0000000 ..< 0xF0000000} \<union> {0xFFFFFFFF}"

definition special6 :: "int set" where
  "special6 = {1} \<union> {0xFE800000000000000000000000000000 ..< 0xFEC00000000000000000000000000000}
     \<union> {0xFF000000000000000000000000000000 ..< 0x100000000000000000000000000000000}"

definition special_addr :: "addr \<Rightarrow> bool" where
  "special_addr a = (case a of AddrInvalid \<Rightarrow> False | Addr4 w \<Rightarrow> uint w \<in> special4
                | Addr6 w z \<Rightarrow> uint w \<in> special6 \<or> w = 0 \<and> z = [])"

lemmas classify_defs = IsLoopback_def IsUnspecified_def IsMulticast_def IsLinkLocalUnicast_def
  IsLinkLocalMulticast_def IsInterfaceLocalMulticast_def

lemma isSpecialPurpose_v4: "isSpecialPurpose (Addr4 w) \<longleftrightarrow> uint w \<in> special4"
proof -
  have "isSpecialPurpose (Addr4 w) \<longleftrightarrow>
     uint w div 2 ^ 24 = 127 \<or> uint w = 0 \<or> uint w div 2 ^ 28 = 14 \<or> uint w div 2 ^ 16 = 0xA9FE \<or>
     uint w div 2 ^ 8 = 0xE00000 \<or> uint w div 2 ^ 24 = 0 \<or> uint w = 0xFFFFFFFF"
    unfolding isSpecialPurpose_def classify_defs deniedSpecialV4_eq
    by (simp add: addr_defs Prefix_Contains_v4 drop_bit_word_eq)
       (auto simp: word_uint_eq_iff)
  also have "\<dots> \<longleftrightarrow> uint w \<in> special4"
    using uint_ge_0 [of w] by (simp add: div_eq_interval special4_def) linarith
  finally show ?thesis .
qed

lemma drop_bit_and_mask: "k + n = 128 \<Longrightarrow> drop_bit k (w :: 128 word) AND mask n = drop_bit k w"
  by (rule bit_eqI) (auto simp: bit_simps dest: bit_imp_le_length)

lemma fe80_bits: "drop_bit 112 (w :: 128 word) AND 0xFFC0 = 0xFE80 \<longleftrightarrow> uint w div 2 ^ 118 = 0x3FA"
proof -
  have "drop_bit 112 w AND push_bit 6 (mask 10) = push_bit 6 (drop_bit 118 w AND mask 10)"
    by (rule bit_eqI) (auto simp: bit_simps)
  then have split: "drop_bit 112 w AND 0xFFC0 = push_bit 6 (drop_bit 118 w AND mask 10)"
    by (simp add: mask_eq_exp_minus_1)
  then have "drop_bit 6 (drop_bit 112 w AND 0xFFC0) = drop_bit 118 w"
    by (simp only: drop_bit_and_mask) (rule bit_eqI, auto simp: bit_simps dest: bit_imp_le_length)
  then have "drop_bit 112 w AND 0xFFC0 = 0xFE80 \<longleftrightarrow> drop_bit 118 w = 0x3FA"
    using split by (auto simp: drop_bit_and_mask simp del: drop_bit_and)
  then show ?thesis by (simp add: drop_bit_word_eq)
qed

lemma ff_bits:
  assumes "drop_bit 112 (w :: 128 word) AND 0xFF0F = 0xFF01 \<or> drop_bit 112 w AND 0xFF0F = 0xFF02"
  shows "uint w div 2 ^ 120 = 0xFF"
proof -
  have "drop_bit 8 (drop_bit 112 w AND 0xFF0F) = drop_bit 120 w AND mask 8"
    by (simp add: mask_eq_exp_minus_1)
  with assms have "drop_bit 120 w = 0xFF" by (auto simp: drop_bit_and_mask simp del: drop_bit_and)
  then show ?thesis by (simp add: drop_bit_word_eq)
qed

lemma isSpecialPurpose_v6:
  assumes "\<not> Is4In6 (Addr6 w z)"
  shows "isSpecialPurpose (Addr6 w z) \<longleftrightarrow> uint w \<in> special6 \<or> w = 0 \<and> z = []"
proof -
  have "isSpecialPurpose (Addr6 w z) \<longleftrightarrow>
     uint w = 1 \<or> w = 0 \<and> z = [] \<or> uint w div 2 ^ 120 = 0xFF \<or> uint w div 2 ^ 118 = 0x3FA"
    using assms ff_bits [of w] unfolding isSpecialPurpose_def classify_defs deniedSpecialV6_eq
    by (simp add: Is4In6_def Unmap_def Is6_def Prefix_Contains_v6 drop_bit_word_eq fe80_bits)
       (auto simp: word_uint_eq_iff)
  also have "\<dots> \<longleftrightarrow> uint w \<in> special6 \<or> w = 0 \<and> z = []"
    by (simp add: div_eq_interval special6_def) linarith
  finally show ?thesis .
qed

lemma isSpecialPurpose_Unmap: "isSpecialPurpose (Unmap a) \<longleftrightarrow> special_addr (Unmap a)"
proof (cases "Unmap a")
  case AddrInvalid
  then show ?thesis
    by (simp add: special_addr_def isSpecialPurpose_def classify_defs addr_defs Prefix_Contains_def
        deniedSpecialV4_eq)
next
  case (Addr6 w z)
  with Unmap_not_mapped [of a] show ?thesis by (simp add: special_addr_def isSpecialPurpose_v6)
qed (simp add: special_addr_def isSpecialPurpose_v4)

section \<open>Policies compiled from text\<close>

text \<open>Membership in a CIDR block given as text, by the numeric value of the addresses.\<close>

definition in_cidr :: "addr \<Rightarrow> string \<Rightarrow> bool" where
  "in_cidr a s = (case ParsePrefix s of
      None \<Rightarrow> False
    | Some p \<Rightarrow> same_family (pfx_Addr p) a \<and> Zone a = [] \<and>
        addr_value a div 2 ^ (BitLen a - pfx_Bits p)
          = addr_value (pfx_Addr p) div 2 ^ (BitLen a - pfx_Bits p))"

lemma parsePrefixes_Inr:
  "parsePrefixes raw = Inr ps \<Longrightarrow>
     list_all (\<lambda>s. ParsePrefix s \<noteq> None) raw \<and> ps = map (\<lambda>s. Masked (the (ParsePrefix s))) raw"
  by (induction raw arbitrary: ps) (auto split: option.splits sum.splits)

lemma parsePrefixes_ok:
  "list_all (\<lambda>s. ParsePrefix s \<noteq> None) raw \<Longrightarrow> \<exists>ps. parsePrefixes raw = Inr ps"
  by (induction raw) (auto split: option.splits sum.splits)

lemma parsePrefixes_contains:
  assumes "parsePrefixes raw = Inr ps"
  shows "list_ex (\<lambda>d. Prefix_Contains d a) ps \<longleftrightarrow> list_ex (in_cidr a) raw"
proof -
  have "in_cidr a s \<longleftrightarrow> Prefix_Contains (Masked (the (ParsePrefix s))) a" if "s \<in> set raw" for s
    using parsePrefixes_Inr [OF assms] that
    by (auto simp: list_all_iff in_cidr_def Prefix_Contains_Masked)
  then show ?thesis
    using parsePrefixes_Inr [OF assms] by (auto simp: list_ex_iff)
qed

lemma parsePrefixes_Nil: "parsePrefixes raw = Inr ps \<Longrightarrow> ps = [] \<longleftrightarrow> raw = []"
  using parsePrefixes_Inr by fastforce

section \<open>Properties\<close>

text \<open>
  A policy compiles exactly when every CIDR of both lists parses: a bad entry in either is an
  error and never a policy that silently lacks it.
\<close>

theorem NewPolicy_ok_iff:
  "(\<exists>p. NewPolicy (Some ap) = Inr p) \<longleftrightarrow>
     list_all (\<lambda>s. ParsePrefix s \<noteq> None) (ap_AllowedCIDRs ap @ ap_DeniedCIDRs ap)"
  using parsePrefixes_ok [of "ap_AllowedCIDRs ap"] parsePrefixes_ok [of "ap_DeniedCIDRs ap"]
  by (auto simp: NewPolicy_def Let_def split: sum.splits option.splits dest!: parsePrefixes_Inr)

text \<open>
  C10: a policy compiled from an \<^verbatim>\<open>AddressPolicy\<close> lets an address through exactly when,
  after unmapping, it is not special-purpose (unless that check is switched off), it is in no denied
  block as written, and the allow list is empty or one of its blocks holds it.  So deny overrides
  allow, an empty allow list restricts nothing, and masking the prefixes loses nothing.
\<close>

theorem Allow_iff:
  assumes "NewPolicy (Some ap) = Inr p"
  shows "Allow p a = None \<longleftrightarrow>
     \<not> (boolOrTrue (ap_DenySpecialPurpose ap) \<and> special_addr (Unmap a)) \<and>
     \<not> list_ex (in_cidr (Unmap a)) (ap_DeniedCIDRs ap) \<and>
     (ap_AllowedCIDRs ap = [] \<or> list_ex (in_cidr (Unmap a)) (ap_AllowedCIDRs ap))"
proof -
  obtain al de where ps: "parsePrefixes (ap_AllowedCIDRs ap) = Inr al" "parsePrefixes (ap_DeniedCIDRs ap) = Inr de"
    and p: "p = \<lparr>pol_allowed = al, pol_denied = de, pol_denySpecialPurpose = boolOrTrue (ap_DenySpecialPurpose ap)\<rparr>"
    using assms by (auto simp: NewPolicy_def Let_def boolOrTrue_def split: sum.splits option.splits)
  show ?thesis
    using parsePrefixes_contains [OF ps(1)] parsePrefixes_contains [OF ps(2)] parsePrefixes_Nil [OF ps(1)]
    by (simp add: p Allow_def Let_def isSpecialPurpose_Unmap)
qed

text \<open>A policy of one allowed and one denied block, on an IPv4-mapped address of the denied one.\<close>

theorem Allow_iff_witness:
  "case NewPolicy (Some \<lparr>ap_AllowedCIDRs = [''10.1.2.3/8''], ap_DeniedCIDRs = [''10.9.0.0/16''],
                         ap_DenySpecialPurpose = None\<rparr>) of
     Inl err \<Rightarrow> False
   | Inr p \<Rightarrow> Allow p (Addr6 0xFFFF0A090001 []) \<noteq> None \<and> Allow p (Addr4 0x0AFF0001) = None"
proof -
  let ?ap = "\<lparr>ap_AllowedCIDRs = [''10.1.2.3/8''], ap_DeniedCIDRs = [''10.9.0.0/16''],
              ap_DenySpecialPurpose = None\<rparr>"
  let ?p = "\<lparr>pol_allowed = [\<lparr>pfx_Addr = Addr4 0x0A000000, pfx_Bits = 8\<rparr>],
             pol_denied = [\<lparr>pfx_Addr = Addr4 0x0A090000, pfx_Bits = 16\<rparr>],
             pol_denySpecialPurpose = True\<rparr>"
  have p: "NewPolicy (Some ?ap) = Inr ?p" by code_simp
  have "in_cidr (Unmap (Addr6 0xFFFF0A090001 [])) ''10.9.0.0/16''"
    "in_cidr (Unmap (Addr4 0x0AFF0001)) ''10.1.2.3/8''"
    "\<not> in_cidr (Unmap (Addr4 0x0AFF0001)) ''10.9.0.0/16''" by code_simp+
  moreover have "\<not> special_addr (Unmap (Addr4 0x0AFF0001))"
    by (simp add: special_addr_def special4_def Unmap_def)
  ultimately show ?thesis
    using Allow_iff [OF p, of "Addr6 0xFFFF0A090001 []"] Allow_iff [OF p, of "Addr4 0x0AFF0001"]
    by (simp add: p)
qed

text \<open>
  With the special-purpose check on, an address is rejected for it exactly when its unmapped value
  lies in one of the listed ranges: no address outside them is lost, and none inside (the metadata
  server \<^verbatim>\<open>169.254.169.254\<close> in particular, written in whatever encoding) gets by.
\<close>

theorem Allow_special_iff:
  "Allow p a = Some RejectSpecialPurpose \<longleftrightarrow> pol_denySpecialPurpose p \<and> special_addr (Unmap a)"
  by (simp add: Allow_def Let_def isSpecialPurpose_Unmap)

text \<open>
  C40: an address with a zone is never denied by a CIDR: the deny list has no effect on it, because
  \<^verbatim>\<open>Prefix.Contains\<close> is false for every zoned address and \<^verbatim>\<open>Allow\<close> does not
  remove the zone.
\<close>

theorem Allow_zoned_ignores_denied:
  assumes "Zone (Unmap a) \<noteq> []"
  shows "Allow p a = Allow (p\<lparr>pol_denied := []\<rparr>) a"
  using assms by (auto simp: Allow_def Let_def list_ex_iff Prefix_Contains_def)

text \<open>The address \<^verbatim>\<open>fd00::1%e\<close> passes a policy that denies \<^verbatim>\<open>fd00::/8\<close>.\<close>

theorem Allow_zoned_witness:
  "ParsePrefix ''fd00::/8'' = Some \<lparr>pfx_Addr = Addr6 0xFD000000000000000000000000000000 [], pfx_Bits = 8\<rparr> \<and>
   ParseAddr ''fd00::1%e'' = Some (Addr6 0xFD000000000000000000000000000001 ''e'') \<and>
   Allow \<lparr>pol_allowed = [], pol_denied = [\<lparr>pfx_Addr = Addr6 0xFD000000000000000000000000000000 [],
            pfx_Bits = 8\<rparr>], pol_denySpecialPurpose = True\<rparr>
     (Addr6 0xFD000000000000000000000000000001 ''e'') = None"
proof -
  let ?a = "Addr6 0xFD000000000000000000000000000001 ''e''"
  have "Zone (Unmap ?a) \<noteq> []" by code_simp
  note zoned = Allow_zoned_ignores_denied [OF this, of "\<lparr>pol_allowed = [],
    pol_denied = [\<lparr>pfx_Addr = Addr6 0xFD000000000000000000000000000000 [], pfx_Bits = 8\<rparr>],
    pol_denySpecialPurpose = True\<rparr>"]
  have "Allow \<lparr>pol_allowed = [], pol_denied = [], pol_denySpecialPurpose = True\<rparr> ?a = None"
    by code_simp
  moreover have "ParsePrefix ''fd00::/8'' =
      Some \<lparr>pfx_Addr = Addr6 0xFD000000000000000000000000000000 [], pfx_Bits = 8\<rparr>"
    "ParseAddr ''fd00::1%e'' = Some ?a" by code_simp+
  ultimately show ?thesis using zoned by simp
qed

text \<open>
  \<^verbatim>\<open>Filter\<close> splits its input by the decision on each address: the kept endpoints in their
  order and unchanged, and one rejection per other endpoint with the reason of the decision.
\<close>

theorem Filter_eq:
  "Filter p es =
     (filter (\<lambda>e. Allow p (e_Address e) = None) es,
      map (\<lambda>e. \<lparr>rej_Address = e_Address e, rej_Reason = the (Allow p (e_Address e))\<rparr>)
        (filter (\<lambda>e. Allow p (e_Address e) \<noteq> None) es))"
  by (induction es) (auto split: option.splits)

end
