(* ===== verification/Endpoint_Group.thy ===== *)
theory Endpoint_Group
  imports Policy
begin

text \<open>
  \<^verbatim>\<open>internal/endpoints/group.go\<close>: deduplication by address, the port tuple of an endpoint,
  and the partition of endpoints into groups that can share EndpointSlices.  A Go map that is built,
  then ranged over and sorted is an association list in order of insertion.
\<close>

section \<open>Port tuples\<close>

record PortSpec =
  psp_Name :: string
  psp_Port :: int32
  psp_Protocol :: string
  psp_AppProtocol :: "string option"

type_synonym PortTuple = "PortSpec list"

definition port_text :: "PortSpec \<Rightarrow> string" where
  "port_text p =
     (let app = (case psp_AppProtocol p of None \<Rightarrow> [] | Some a \<Rightarrow> a)
      in psp_Name p @ ''/'' @ string_of_int (sint (psp_Port p)) @ ''/'' @ psp_Protocol p @ ''/'' @ app)"

definition Key :: "PortTuple \<Rightarrow> string" where
  "Key pt = join '','' (map port_text pt)"

definition protocolOrDefault :: "string \<Rightarrow> string" where
  "protocolOrDefault p = (if p = [] then ProtocolTCP else p)"

definition portTupleFor :: "Endpoint \<Rightarrow> CrossServicePort list \<Rightarrow> PortTuple" where
  "portTupleFor e ports =
     sort_key psp_Name
       (List.map_filter
          (\<lambda>p. map_option
             (\<lambda>resolved. \<lparr>psp_Name = csp_Name p, psp_Port = resolved,
                psp_Protocol = protocolOrDefault (csp_Protocol p),
                psp_AppProtocol = csp_AppProtocol p\<rparr>)
             (e_PortMap e (csp_Name p)))
          ports)"

section \<open>Address families\<close>

definition AddressTypeOf :: "Endpoint \<Rightarrow> string" where
  "AddressTypeOf e = (if Is6 (e_Address e) then AddressTypeIPv6 else AddressTypeIPv4)"

definition Allows :: "string \<Rightarrow> string \<Rightarrow> bool" where
  "Allows f at =
     (if f = IPFamilyPolicyIPv6 then at = AddressTypeIPv6
      else if f = IPFamilyPolicyPreferDualStack then True
      else at = AddressTypeIPv4)"

section \<open>Groups\<close>

record Group =
  g_AddressType :: string
  g_Ports :: PortTuple
  g_Endpoints :: "Endpoint list"
  g_Index :: int

record GroupKey =
  gk_AddressType :: string
  gk_PortKey :: string

definition SortEndpoints :: "Endpoint list \<Rightarrow> Endpoint list" where
  "SortEndpoints es = sort_key e_Address es"

definition group_add ::
    "CrossServicePort list \<Rightarrow> string \<Rightarrow> (GroupKey \<times> Group) list \<Rightarrow> Endpoint \<Rightarrow> (GroupKey \<times> Group) list" where
  "group_add ports families byKey e =
     (let at = AddressTypeOf e
      in if \<not> Allows families at then byKey
         else let tuple = portTupleFor e ports
              in if tuple = [] then byKey
                 else let key = \<lparr>gk_AddressType = at, gk_PortKey = Key tuple\<rparr>;
                          g = (case map_of byKey key of
                                 None \<Rightarrow> \<lparr>g_AddressType = at, g_Ports = tuple, g_Endpoints = [], g_Index = 0\<rparr>
                               | Some g \<Rightarrow> g)
                      in AList.update key (g\<lparr>g_Endpoints := g_Endpoints g @ [e]\<rparr>) byKey)"

definition group_order :: "Group \<Rightarrow> string \<times> string" where
  "group_order g = (g_AddressType g, Key (g_Ports g))"

fun assign_index :: "(string \<Rightarrow> int) \<Rightarrow> Group list \<Rightarrow> Group list" where
  "assign_index perFamily [] = []"
| "assign_index perFamily (g # gs) =
     g\<lparr>g_Index := perFamily (g_AddressType g)\<rparr>
       # assign_index (perFamily(g_AddressType g := perFamily (g_AddressType g) + 1)) gs"

definition GroupEndpoints :: "Endpoint list \<Rightarrow> CrossServicePort list \<Rightarrow> string \<Rightarrow> Group list" where
  "GroupEndpoints es ports families =
     (let byKey = foldl (group_add ports families) [] es;
          out = map (\<lambda>(_, g). g\<lparr>g_Endpoints := SortEndpoints (g_Endpoints g)\<rparr>) byKey
      in assign_index (\<lambda>_. 0) (sort_key group_order out))"

section \<open>Deduplication\<close>

definition dedupe_step ::
    "(addr \<rightharpoonup> nat) \<times> Endpoint list \<Rightarrow> Endpoint \<Rightarrow> (addr \<rightharpoonup> nat) \<times> Endpoint list" where
  "dedupe_step s e =
     (case s of (seen, out) \<Rightarrow>
       (case seen (e_Address e) of
          None \<Rightarrow> (seen(e_Address e \<mapsto> length out), out @ [e])
        | Some idx \<Rightarrow>
            if e_Ready e \<and> \<not> e_Ready (out ! idx) then (seen, out[idx := e]) else (seen, out)))"

definition Dedupe :: "Endpoint list \<Rightarrow> Endpoint list" where
  "Dedupe es = snd (foldl dedupe_step (Map.empty, []) es)"

section \<open>Lemmas: the key of a port tuple\<close>

text \<open>
  What the API's validation of port names gives: names are distinct and have no slash, so the key of
  a tuple determines the tuple among those made from one list of declared ports.
\<close>

definition valid_port_names :: "CrossServicePort list \<Rightarrow> bool" where
  "valid_port_names ports \<longleftrightarrow>
     distinct (map csp_Name ports) \<and> list_all (\<lambda>p. CHR ''/'' \<notin> set (csp_Name p)) ports"

definition declares :: "CrossServicePort list \<Rightarrow> PortSpec \<Rightarrow> bool" where
  "declares ports s \<longleftrightarrow>
     (\<exists>p\<in>set ports. psp_Name s = csp_Name p \<and> psp_Protocol s = protocolOrDefault (csp_Protocol p) \<and>
        psp_AppProtocol s = csp_AppProtocol p)"

lemma portTupleFor_declares: "s \<in> set (portTupleFor e ports) \<Longrightarrow> declares ports s"
  by (auto simp: portTupleFor_def declares_def map_filter_def)

lemma port_text_eq:
  "port_text s @ x = psp_Name s @ CHR ''/'' # string_of_int (sint (psp_Port s)) @ CHR ''/''
     # psp_Protocol s @ ''/'' @ (case psp_AppProtocol s of None \<Rightarrow> [] | Some a \<Rightarrow> a) @ x"
  by (simp add: port_text_def Let_def)

lemma port_text_inj:
  assumes "valid_port_names ports" "declares ports s" "declares ports t"
    and "port_text s @ x = port_text t @ y"
  shows "s = t \<and> x = y"
proof -
  obtain p q where p: "p \<in> set ports" "psp_Name s = csp_Name p" "psp_AppProtocol s = csp_AppProtocol p"
      "psp_Protocol s = protocolOrDefault (csp_Protocol p)"
    and q: "q \<in> set ports" "psp_Name t = csp_Name q" "psp_AppProtocol t = csp_AppProtocol q"
      "psp_Protocol t = protocolOrDefault (csp_Protocol q)"
    using assms(2,3) by (auto simp: declares_def)
  then have "CHR ''/'' \<notin> set (psp_Name s)" "CHR ''/'' \<notin> set (psp_Name t)"
    using assms(1) by (auto simp: valid_port_names_def list_all_iff)
  with assms(4) have name: "psp_Name s = psp_Name t" and port: "psp_Port s = psp_Port t"
    and rest: "psp_Protocol s @ ''/'' @ (case psp_AppProtocol s of None \<Rightarrow> [] | Some a \<Rightarrow> a) @ x =
      psp_Protocol t @ ''/'' @ (case psp_AppProtocol t of None \<Rightarrow> [] | Some a \<Rightarrow> a) @ y"
    by (auto simp: port_text_eq append_sep_eq no_slash_int dest!: string_of_int_inj intro: signed_word_eqI)
  moreover have "p = q"
    using name p q assms(1) by (auto simp: valid_port_names_def distinct_map dest: inj_onD)
  ultimately show ?thesis using p q by (auto intro: PortSpec.equality)
qed

lemma Key_inj:
  assumes "valid_port_names ports"
  shows "list_all (declares ports) pt \<Longrightarrow> list_all (declares ports) pt' \<Longrightarrow> Key pt = Key pt' \<Longrightarrow> pt = pt'"
proof (induction pt arbitrary: pt')
  case Nil
  then show ?case by (cases pt'; cases "tl pt'") (auto simp: Key_def port_text_def Let_def)
next
  case (Cons s pt)
  have ne: "Key (u # us) \<noteq> []" for u us
    by (cases us) (auto simp: Key_def port_text_def Let_def)
  then obtain t ts where pt': "pt' = t # ts" using Cons.prems(3) by (cases pt') (auto simp: Key_def)
  have split: "Key (u # us) = port_text u @ (if us = [] then [] else CHR '','' # Key us)" for u us
    by (cases us) (simp_all add: Key_def)
  from Cons.prems have "s = t \<and> (if pt = [] then [] else CHR '','' # Key pt) = (if ts = [] then [] else CHR '','' # Key ts)"
    unfolding pt' by (intro port_text_inj [OF assms]) (simp_all flip: split)
  then show ?case using Cons.IH [of ts] Cons.prems by (auto simp: pt' split: if_splits)
qed

lemma Key_portTupleFor:
  assumes "valid_port_names ports"
  shows "Key (portTupleFor e ports) = Key (portTupleFor f ports) \<longleftrightarrow>
     portTupleFor e ports = portTupleFor f ports"
  using Key_inj [OF assms] by (metis list_all_iff portTupleFor_declares)

section \<open>Lemmas: the fold over endpoints\<close>

definition placeable :: "CrossServicePort list \<Rightarrow> string \<Rightarrow> Endpoint \<Rightarrow> bool" where
  "placeable ports families e \<longleftrightarrow> Allows families (AddressTypeOf e) \<and> portTupleFor e ports \<noteq> []"

definition ep_key :: "CrossServicePort list \<Rightarrow> Endpoint \<Rightarrow> GroupKey" where
  "ep_key ports e = \<lparr>gk_AddressType = AddressTypeOf e, gk_PortKey = Key (portTupleFor e ports)\<rparr>"

definition members :: "CrossServicePort list \<Rightarrow> string \<Rightarrow> Endpoint list \<Rightarrow> GroupKey \<Rightarrow> Endpoint list" where
  "members ports families es k = filter (\<lambda>e. placeable ports families e \<and> ep_key ports e = k) es"

definition group_of :: "CrossServicePort list \<Rightarrow> GroupKey \<Rightarrow> Endpoint list \<Rightarrow> Group" where
  "group_of ports k xs = \<lparr>g_AddressType = gk_AddressType k, g_Ports = portTupleFor (hd xs) ports,
     g_Endpoints = xs, g_Index = 0\<rparr>"

lemma members_snoc:
  "members ports fam (es @ [e]) k =
     members ports fam es k @ (if placeable ports fam e \<and> ep_key ports e = k then [e] else [])"
  by (simp add: members_def)

lemma group_add_placeable:
  "group_add ports fam byKey e =
     (if placeable ports fam e
      then AList.update (ep_key ports e)
             (case map_of byKey (ep_key ports e) of
                None \<Rightarrow> group_of ports (ep_key ports e) [e]
              | Some g \<Rightarrow> g\<lparr>g_Endpoints := g_Endpoints g @ [e]\<rparr>) byKey
      else byKey)"
  by (simp add: group_add_def placeable_def ep_key_def group_of_def Let_def split: option.split)

lemma group_fold_lookup:
  "map_of (foldl (group_add ports fam) [] es) k =
     (if members ports fam es k = [] then None else Some (group_of ports k (members ports fam es k)))"
proof (induction es arbitrary: k rule: rev_induct)
  case Nil
  then show ?case by (simp add: members_def)
next
  case (snoc e es)
  define l where "l = foldl (group_add ports fam) [] es"
  have "map_of (group_add ports fam l e) k =
      (if members ports fam (es @ [e]) k = [] then None
       else Some (group_of ports k (members ports fam (es @ [e]) k)))"
    using snoc.IH [folded l_def, of "ep_key ports e"] snoc.IH [folded l_def, of k]
    by (auto simp: group_add_placeable members_snoc update_conv' group_of_def)
  then show ?case by (simp add: l_def)
qed

lemma group_fold_distinct: "distinct (map fst (foldl (group_add ports fam) [] es))"
  by (induction es rule: rev_induct) (auto simp: group_add_placeable intro: distinct_update)

lemma group_fold_set:
  "set (foldl (group_add ports fam) [] es) =
     (\<lambda>k. (k, group_of ports k (members ports fam es k))) ` ep_key ports ` {e\<in>set es. placeable ports fam e}"
  (is "?A = ?B")
proof -
  have mem: "members ports fam es k \<noteq> [] \<longleftrightarrow> k \<in> ep_key ports ` {e\<in>set es. placeable ports fam e}" for k
    by (auto simp: members_def filter_empty_conv)
  have "(k, g) \<in> ?A \<longleftrightarrow> (k, g) \<in> ?B" for k g
    using map_of_eq_Some_iff [OF group_fold_distinct, of ports fam es k g] mem [of k]
    by (auto simp: group_fold_lookup split: if_splits)
  then show ?thesis by auto
qed

section \<open>Lemmas: the groups\<close>

definition groups_unindexed :: "Endpoint list \<Rightarrow> CrossServicePort list \<Rightarrow> string \<Rightarrow> Group list" where
  "groups_unindexed es ports fam =
     sort_key group_order (map (\<lambda>(_, g). g\<lparr>g_Endpoints := SortEndpoints (g_Endpoints g)\<rparr>)
       (foldl (group_add ports fam) [] es))"

lemma GroupEndpoints_unindexed:
  "GroupEndpoints es ports fam = assign_index (\<lambda>_. 0) (groups_unindexed es ports fam)"
  by (simp add: GroupEndpoints_def groups_unindexed_def)

lemma assign_index_fields:
  "map g_AddressType (assign_index f gs) = map g_AddressType gs"
  "map g_Ports (assign_index f gs) = map g_Ports gs"
  "map g_Endpoints (assign_index f gs) = map g_Endpoints gs"
  "map group_order (assign_index f gs) = map group_order gs"
  by (induction gs arbitrary: f) (auto simp: group_order_def)

lemma ep_key_eq:
  "ep_key ports e = k \<longleftrightarrow>
     AddressTypeOf e = gk_AddressType k \<and> Key (portTupleFor e ports) = gk_PortKey k"
  by (cases k) (simp add: ep_key_def)

lemma members_hd:
  assumes "k \<in> ep_key ports ` {e\<in>set es. placeable ports fam e}"
  shows "members ports fam es k \<noteq> []" "placeable ports fam (hd (members ports fam es k))"
    "AddressTypeOf (hd (members ports fam es k)) = gk_AddressType k"
    "Key (portTupleFor (hd (members ports fam es k)) ports) = gk_PortKey k"
proof -
  show ne: "members ports fam es k \<noteq> []" using assms by (auto simp: members_def filter_empty_conv)
  have "hd (members ports fam es k) \<in> set (members ports fam es k)" using ne by simp
  then show "placeable ports fam (hd (members ports fam es k))"
    "AddressTypeOf (hd (members ports fam es k)) = gk_AddressType k"
    "Key (portTupleFor (hd (members ports fam es k)) ports) = gk_PortKey k"
    by (auto simp: members_def ep_key_eq)
qed

definition key_pair :: "GroupKey \<Rightarrow> string \<times> string" where
  "key_pair k = (gk_AddressType k, gk_PortKey k)"

lemma key_pair_inj: "key_pair k = key_pair k' \<longleftrightarrow> k = k'"
  by (auto simp: key_pair_def intro: GroupKey.equality)

lemma group_order_group_of:
  "k \<in> ep_key ports ` {e\<in>set es. placeable ports fam e} \<Longrightarrow>
     group_order (group_of ports k (members ports fam es k)) = key_pair k"
  by (simp add: group_order_def group_of_def key_pair_def members_hd)

lemma groups_order_distinct: "distinct (map group_order (groups_unindexed es ports fam))"
proof -
  let ?l = "foldl (group_add ports fam) [] es"
  have "map group_order (map (\<lambda>(_, g). g\<lparr>g_Endpoints := SortEndpoints (g_Endpoints g)\<rparr>) ?l) =
     map key_pair (map fst ?l)"
    by (auto simp: group_fold_set group_order_def intro!: group_order_group_of [unfolded group_order_def])
  moreover have "distinct (map key_pair (map fst ?l))"
    using group_fold_distinct by (simp add: distinct_map key_pair_inj inj_on_def)
  ultimately show ?thesis
    unfolding groups_unindexed_def distinct_map_sort_key by (simp only:)
qed

lemma SortEndpoints_simps [simp]:
  "set (SortEndpoints es) = set es" "mset (SortEndpoints es) = mset es"
  "SortEndpoints es = [] \<longleftrightarrow> es = []" "length (SortEndpoints es) = length es"
  "sorted (map e_Address (SortEndpoints es))"
  by (simp_all add: SortEndpoints_def) (metis length_0_conv length_sort)

lemma SortEndpoints_perm:
  "mset es = mset es' \<Longrightarrow> distinct (map e_Address es) \<Longrightarrow> SortEndpoints es = SortEndpoints es'"
  unfolding SortEndpoints_def by (rule sort_key_perm_eq) (auto simp: distinct_map)

lemma mset_concat_SortEndpoints:
  "mset (concat (map (\<lambda>x. SortEndpoints (f x)) xs)) = mset (concat (map f xs))"
  by (induction xs) simp_all

lemma groups_set:
  "set (groups_unindexed es ports fam) =
     (\<lambda>k. (group_of ports k (members ports fam es k))\<lparr>g_Endpoints := SortEndpoints (members ports fam es k)\<rparr>)
       ` ep_key ports ` {e\<in>set es. placeable ports fam e}"
  by (simp add: groups_unindexed_def group_fold_set image_image group_of_def)

lemma groups_elem:
  assumes "g \<in> set (groups_unindexed es ports fam)"
  shows "\<exists>k\<in>ep_key ports ` {e\<in>set es. placeable ports fam e}.
    g_AddressType g = gk_AddressType k \<and> g_Endpoints g = SortEndpoints (members ports fam es k) \<and>
    g_Ports g = portTupleFor (hd (members ports fam es k)) ports"
  using assms unfolding groups_set group_of_def by (elim imageE) (simp, blast)

lemma groups_perm:
  assumes "valid_port_names ports" and "mset es = mset es'" and "distinct (map e_Address es)"
  shows "groups_unindexed es ports fam = groups_unindexed es' ports fam"
proof (rule map_sorted_distinct_set_unique [where f = group_order])
  have sets: "set es = set es'" using assms(2) mset_eq_setD by blast
  let ?grp = "\<lambda>es k. (group_of ports k (members ports fam es k))
      \<lparr>g_Endpoints := SortEndpoints (members ports fam es k)\<rparr>"
  have "?grp es k = ?grp es' k" if k: "k \<in> ep_key ports ` {e\<in>set es. placeable ports fam e}" for k
  proof -
    have "Key (portTupleFor (hd (members ports fam es k)) ports) =
        Key (portTupleFor (hd (members ports fam es' k)) ports)"
      using members_hd(4) [OF k] members_hd(4) [OF k [unfolded sets]] by simp
    then have "portTupleFor (hd (members ports fam es k)) ports =
        portTupleFor (hd (members ports fam es' k)) ports"
      by (simp only: Key_portTupleFor [OF assms(1)])
    moreover have "SortEndpoints (members ports fam es k) = SortEndpoints (members ports fam es' k)"
      by (rule SortEndpoints_perm)
         (use assms in \<open>auto simp: members_def mset_filter distinct_map_filter\<close>)
    ultimately show ?thesis by (simp add: group_of_def)
  qed
  then show "set (groups_unindexed es ports fam) = set (groups_unindexed es' ports fam)"
    unfolding groups_set by (simp add: image_image sets)
  then show "inj_on group_order (set (groups_unindexed es ports fam) \<union> set (groups_unindexed es' ports fam))"
    using groups_order_distinct by (simp add: distinct_map)
qed (use groups_order_distinct in \<open>simp_all add: groups_unindexed_def\<close>)

lemma assign_index_set:
  "g \<in> set (assign_index f gs) \<Longrightarrow> \<exists>g'\<in>set gs. g_AddressType g = g_AddressType g' \<and>
     g_Ports g = g_Ports g' \<and> g_Endpoints g = g_Endpoints g'"
  by (induction gs arbitrary: f) auto

lemma update_endpoints_mset:
  "mset (concat (map (\<lambda>kg. g_Endpoints (snd kg))
      (AList.update k (case map_of l k of None \<Rightarrow> group_of ports k [e]
                       | Some g \<Rightarrow> g\<lparr>g_Endpoints := g_Endpoints g @ [e]\<rparr>) l))) =
   mset (concat (map (\<lambda>kg. g_Endpoints (snd kg)) l)) + {#e#}"
  by (induction l) (auto simp: group_of_def split: option.splits)

lemma group_fold_mset:
  "mset (concat (map (\<lambda>kg. g_Endpoints (snd kg)) (foldl (group_add ports fam) [] es))) =
   mset (filter (placeable ports fam) es)"
  by (induction es rule: rev_induct) (simp_all add: group_add_placeable [of ports fam "foldl _ _ _"] update_endpoints_mset)

section \<open>Deduplication, specified\<close>

text \<open>Of the endpoints with one address, the first ready one, or else the first.\<close>

definition choose_ready :: "Endpoint list \<Rightarrow> Endpoint" where
  "choose_ready xs = (case find e_Ready xs of Some e \<Rightarrow> e | None \<Rightarrow> hd xs)"

definition preferred :: "Endpoint list \<Rightarrow> addr \<Rightarrow> Endpoint" where
  "preferred es a = choose_ready (filter (\<lambda>e. e_Address e = a) es)"

lemma choose_ready_snoc:
  assumes "xs \<noteq> []"
  shows "choose_ready (xs @ [e]) = (if e_Ready e \<and> \<not> e_Ready (choose_ready xs) then e else choose_ready xs)"
proof -
  have "find e_Ready (xs @ [e]) =
      (case find e_Ready xs of Some x \<Rightarrow> Some x | None \<Rightarrow> if e_Ready e then Some e else None)"
    by (induction xs) auto
  moreover have "e_Ready x" if "find e_Ready xs = Some x" for x
    using that by (auto simp: find_Some_iff)
  moreover have "\<not> e_Ready (hd xs)" if "find e_Ready xs = None"
    using that assms by (simp add: find_None_iff)
  ultimately show ?thesis using assms by (simp add: choose_ready_def split: option.split)
qed

lemma preferred_snoc:
  "preferred (es @ [e]) a =
     (if e_Address e \<noteq> a then preferred es a
      else if a \<notin> e_Address ` set es then e
      else if e_Ready e \<and> \<not> e_Ready (preferred es a) then e else preferred es a)"
proof -
  have "filter (\<lambda>e. e_Address e = a) es = [] \<longleftrightarrow> a \<notin> e_Address ` set es"
    by (auto simp: filter_empty_conv)
  then show ?thesis
    by (cases "filter (\<lambda>e. e_Address e = a) es = []")
       (simp_all add: preferred_def choose_ready_snoc choose_ready_def [of "[_]"])
qed

definition dedupe_inv :: "Endpoint list \<Rightarrow> (addr \<rightharpoonup> nat) \<times> Endpoint list \<Rightarrow> bool" where
  "dedupe_inv es s \<longleftrightarrow>
     (let as = firsts (map e_Address es)
      in snd s = map (preferred es) as \<and> (\<forall>a i. fst s a = Some i \<longleftrightarrow> i < length as \<and> as ! i = a))"

lemma dedupe_inv_step:
  assumes "dedupe_inv es s"
  shows "dedupe_inv (es @ [e]) (dedupe_step s e)"
proof -
  obtain seen out where s: "s = (seen, out)" by (cases s)
  define as where "as = firsts (map e_Address es)"
  have out: "out = map (preferred es) as" and seen: "seen a = Some i \<longleftrightarrow> i < length as \<and> as ! i = a" for a i
    using assms by (auto simp: s dedupe_inv_def as_def Let_def)
  have as: "distinct as" "set as = e_Address ` set es" by (simp_all add: as_def)
  show ?thesis
  proof (cases "seen (e_Address e)")
    case None
    then have new: "e_Address e \<notin> e_Address ` set es"
      using seen as(2) by (metis in_set_conv_nth option.distinct(1))
    have not_as: "i < length as \<Longrightarrow> as ! i \<noteq> e_Address e" for i
      using None seen [of "e_Address e" i] by auto
    have "firsts (map e_Address (es @ [e])) = as @ [e_Address e]" using new by (simp add: firsts_snoc as_def)
    moreover have "map (preferred (es @ [e])) as = out"
      using new as by (auto simp: out preferred_snoc)
    ultimately show ?thesis
      using None new seen not_as
      by (auto simp: dedupe_inv_def dedupe_step_def s preferred_snoc out nth_append less_Suc_eq)
  next
    case (Some i)
    then have i: "i < length as" "as ! i = e_Address e" using seen by auto
    have uniq: "as ! j = e_Address e \<longleftrightarrow> j = i" if "j < length as" for j
      using i as(1) that by (metis nth_eq_iff_index_eq)
    then have uniq_sym: "e_Address e = as ! j \<longleftrightarrow> j = i" if "j < length as" for j
      using that by metis
    have old: "e_Address e \<in> e_Address ` set es" using i as(2) by (metis nth_mem)
    then have "firsts (map e_Address (es @ [e])) = as" by (simp add: firsts_snoc as_def)
    moreover have "snd (dedupe_step s e) = map (preferred (es @ [e])) as"
      using i(1) uniq uniq_sym old
      by (intro nth_equalityI)
         (auto simp: dedupe_step_def s Some out preferred_snoc nth_list_update i)
    moreover have "fst (dedupe_step s e) = seen" by (simp add: dedupe_step_def s Some)
    ultimately show ?thesis using seen by (simp add: dedupe_inv_def)
  qed
qed

lemma dedupe_inv_fold: "dedupe_inv es (foldl dedupe_step (Map.empty, []) es)"
  by (induction es rule: rev_induct) (simp_all add: dedupe_inv_step, simp add: dedupe_inv_def)

lemma preferred_address:
  assumes "a \<in> e_Address ` set es"
  shows "e_Address (preferred es a) = a" "preferred es a \<in> set es"
proof -
  have "filter (\<lambda>e. e_Address e = a) es \<noteq> []" using assms by (auto simp: filter_empty_conv)
  then have "choose_ready (filter (\<lambda>e. e_Address e = a) es) \<in> set (filter (\<lambda>e. e_Address e = a) es)"
    by (auto simp: choose_ready_def find_Some_iff simp del: set_filter split: option.split)
  then show "e_Address (preferred es a) = a" "preferred es a \<in> set es"
    by (auto simp: preferred_def)
qed

lemma dedupe_fold_spec:
  "snd (foldl dedupe_step (Map.empty, []) es) = map (preferred es) (firsts (map e_Address es))"
  using dedupe_inv_fold [of es] by (simp add: dedupe_inv_def Let_def)

lemma Dedupe_distinct: "distinct (map e_Address (Dedupe es))"
proof -
  have "map e_Address (Dedupe es) = firsts (map e_Address es)"
    unfolding Dedupe_def dedupe_fold_spec map_map
    by (rule map_idI) (simp add: preferred_address)
  then show ?thesis by simp
qed

lemma Dedupe_subset: "set (Dedupe es) \<subseteq> set es"
  by (auto simp: Dedupe_def dedupe_fold_spec preferred_address)

lemma GroupEndpoints_mset:
  "mset (concat (map g_Endpoints (GroupEndpoints es ports fam))) = mset (filter (placeable ports fam) es)"
proof -
  let ?l = "foldl (group_add ports fam) [] es"
  have "mset (concat (map g_Endpoints (groups_unindexed es ports fam))) =
     mset (concat (map (\<lambda>kg. SortEndpoints (g_Endpoints (snd kg))) ?l))"
    unfolding groups_unindexed_def
    by (subst mset_concat_map_perm [OF mset_sort]) (simp add: comp_def case_prod_beta)
  also have "\<dots> = mset (concat (map (\<lambda>kg. g_Endpoints (snd kg)) ?l))"
    by (rule mset_concat_SortEndpoints)
  finally show ?thesis by (simp add: GroupEndpoints_unindexed assign_index_fields group_fold_mset)
qed

section \<open>Properties\<close>

text \<open>
  Deduplication keeps one endpoint per address, in the order in which the addresses first occur,
  and for each address the first ready endpoint that has it, or the first of all when none is ready.
\<close>

theorem Dedupe_eq: "Dedupe es = map (preferred es) (firsts (map e_Address es))"
  by (simp add: Dedupe_def dedupe_fold_spec)


text \<open>
  C22: every group is one that EndpointSlices can hold.  Its endpoints are exactly those of the input
  with the group's address family (I3) and with the group's ports (I4), sorted by address; it is not
  empty, it has a port, and its family is one that the policy lets through.
\<close>

theorem GroupEndpoints_sound:
  assumes "valid_port_names ports" and "g \<in> set (GroupEndpoints es ports fam)"
  shows "g_Endpoints g \<noteq> [] \<and> sorted (map e_Address (g_Endpoints g)) \<and> Allows fam (g_AddressType g) \<and>
     (\<forall>e. e \<in> set (g_Endpoints g) \<longleftrightarrow> e \<in> set es \<and> AddressTypeOf e = g_AddressType g \<and>
            portTupleFor e ports = g_Ports g) \<and> g_Ports g \<noteq> []"
proof -
  obtain g' where g': "g' \<in> set (groups_unindexed es ports fam)" "g_AddressType g = g_AddressType g'"
      "g_Ports g = g_Ports g'" "g_Endpoints g = g_Endpoints g'"
    using assms(2) assign_index_set unfolding GroupEndpoints_unindexed by blast
  obtain k where k: "k \<in> ep_key ports ` {e\<in>set es. placeable ports fam e}"
    and g: "g_AddressType g = gk_AddressType k" "g_Endpoints g = SortEndpoints (members ports fam es k)"
      "g_Ports g = portTupleFor (hd (members ports fam es k)) ports"
    unfolding g'(2-4) using groups_elem [OF g'(1)] by blast
  have "placeable ports fam e \<and> ep_key ports e = k \<longleftrightarrow>
      AddressTypeOf e = g_AddressType g \<and> portTupleFor e ports = g_Ports g" for e
    using members_hd(2,3,4) [OF k] Key_portTupleFor [OF assms(1), of e "hd (members ports fam es k)"]
    by (auto simp: placeable_def ep_key_eq g)
  then have "e \<in> set (members ports fam es k) \<longleftrightarrow>
      e \<in> set es \<and> AddressTypeOf e = g_AddressType g \<and> portTupleFor e ports = g_Ports g" for e
    by (auto simp: members_def)
  moreover have "g_Ports g \<noteq> []" "Allows fam (g_AddressType g)"
    using members_hd(2,3) [OF k] by (simp_all add: g placeable_def)
  ultimately show ?thesis using members_hd(1) [OF k] by (simp add: g(2))
qed

text \<open>Two endpoints with different ports and one without any.\<close>

definition demo_ports :: "CrossServicePort list" where
  "demo_ports = [zero_port\<lparr>csp_Name := ''web'', csp_Port := 80\<rparr>, zero_port\<lparr>csp_Name := ''adm'', csp_Port := 81\<rparr>]"

definition demo_endpoints :: "Endpoint list" where
  "demo_endpoints =
     [zero_endpoint\<lparr>e_Address := Addr4 0x0A000002, e_PortMap := [''web'' \<mapsto> 8080]\<rparr>,
      zero_endpoint\<lparr>e_Address := Addr4 0x0A000003\<rparr>,
      zero_endpoint\<lparr>e_Address := Addr4 0x0A000001, e_PortMap := [''web'' \<mapsto> 8080]\<rparr>,
      zero_endpoint\<lparr>e_Address := Addr4 0x0A000004, e_PortMap := [''web'' \<mapsto> 8080, ''adm'' \<mapsto> 81]\<rparr>]"

lemma demo_ports_valid: "valid_port_names demo_ports"
  by (simp add: valid_port_names_def demo_ports_def zero_port_def)

theorem GroupEndpoints_sound_witness:
  "map (\<lambda>g. map e_Address (g_Endpoints g)) (GroupEndpoints demo_endpoints demo_ports IPFamilyPolicyIPv4)
     = [[Addr4 0x0A000004], [Addr4 0x0A000001, Addr4 0x0A000002]] \<and>
   list_all (\<lambda>g. g_Ports g \<noteq> []) (GroupEndpoints demo_endpoints demo_ports IPFamilyPolicyIPv4)"
proof
  show "map (\<lambda>g. map e_Address (g_Endpoints g)) (GroupEndpoints demo_endpoints demo_ports IPFamilyPolicyIPv4)
     = [[Addr4 0x0A000004], [Addr4 0x0A000001, Addr4 0x0A000002]]" by code_simp
  show "list_all (\<lambda>g. g_Ports g \<noteq> []) (GroupEndpoints demo_endpoints demo_ports IPFamilyPolicyIPv4)"
    using GroupEndpoints_sound [OF demo_ports_valid] by (simp add: list_all_iff)
qed

text \<open>
  Groups come in a strictly increasing order of address type and port key, so no two groups share
  a key.
\<close>

theorem GroupEndpoints_ordered:
  "sorted (map group_order (GroupEndpoints es ports fam)) \<and> distinct (map group_order (GroupEndpoints es ports fam))"
  unfolding GroupEndpoints_unindexed assign_index_fields
  using groups_order_distinct by (simp add: groups_unindexed_def)

text \<open>
  C21: the result does not depend on the order of the input (I7): a permutation of endpoints with
  distinct addresses gives the very same groups, so round-robin answers and unstable listing cause no
  difference downstream.
\<close>

theorem GroupEndpoints_perm:
  assumes "valid_port_names ports" and "mset es = mset es'" and "distinct (map e_Address es)"
  shows "GroupEndpoints es ports fam = GroupEndpoints es' ports fam"
  unfolding GroupEndpoints_unindexed groups_perm [OF assms] ..

theorem GroupEndpoints_perm_witness:
  "GroupEndpoints (rev demo_endpoints) demo_ports IPFamilyPolicyIPv4 =
     GroupEndpoints demo_endpoints demo_ports IPFamilyPolicyIPv4 \<and> rev demo_endpoints \<noteq> demo_endpoints"
proof -
  have "distinct (map e_Address (rev demo_endpoints))" "map e_Address (rev demo_endpoints) \<noteq> map e_Address demo_endpoints"
    by (simp_all add: demo_endpoints_def)
  then show ?thesis using GroupEndpoints_perm [OF demo_ports_valid, of "rev demo_endpoints" demo_endpoints] by auto
qed

end
