(* ===== verification/Failure.thy ===== *)
theory Failure
  imports Endpoint_Group
begin

text \<open>
  \<^verbatim>\<open>internal/endpoints/failure.go\<close>: what a source that fails to resolve keeps serving (I9),
  and the last-known-good endpoints carried in the status.
\<close>

section \<open>Last-known-good endpoints in the status\<close>

definition MaxPersistedEndpoints :: nat where
  "MaxPersistedEndpoints = 512"

definition to_persisted1 :: "Endpoint \<Rightarrow> PersistedEndpoint" where
  "to_persisted1 e = \<lparr>pe_Address = String (e_Address e), pe_Ready = e_Ready e, pe_Zone = e_Zone e,
     pe_Hostname = e_Hostname e, pe_Ports = e_PortMap e\<rparr>"

definition ToPersisted :: "Endpoint list \<Rightarrow> PersistedEndpoint list" where
  "ToPersisted es =
     map to_persisted1 (if MaxPersistedEndpoints < length es then take MaxPersistedEndpoints es else es)"

definition endpointsFromStatus :: "SourceStatus option \<Rightarrow> Endpoint list" where
  "endpointsFromStatus prev =
     (case prev of
        None \<Rightarrow> []
      | Some st \<Rightarrow>
          List.map_filter
            (\<lambda>pe. map_option
               (\<lambda>a. zero_endpoint\<lparr>e_Address := a, e_Ready := pe_Ready pe, e_Serving := pe_Ready pe,
                  e_Zone := pe_Zone pe, e_Hostname := pe_Hostname pe, e_PortMap := pe_Ports pe\<rparr>)
               (ParseAddr (pe_Address pe)))
            (sst_LastKnownGood st))"

section \<open>The policy\<close>

record FailureState =
  fs_Endpoints :: "Endpoint list"
  fs_Stale :: bool
  fs_Degraded :: bool
  fs_ConsecutiveErrors :: int32
  fs_Reason :: string

definition FailurePolicyDefaults :: "FailurePolicy option \<Rightarrow> int32 \<times> duration \<times> string" where
  "FailurePolicyDefaults p =
     (case p of
        None \<Rightarrow> (3, 5 * Minute, StaleActionMarkNotReady)
      | Some fp \<Rightarrow>
          (if 0 < sint (fp_FailureThreshold fp) then fp_FailureThreshold fp else 3,
           case fp_StaleThreshold fp of None \<Rightarrow> 5 * Minute | Some d \<Rightarrow> d,
           if fp_OnStale fp \<noteq> [] then fp_OnStale fp else StaleActionMarkNotReady))"

definition withinStaleWindow :: "SourceStatus option \<Rightarrow> time \<Rightarrow> duration \<Rightarrow> bool" where
  "withinStaleWindow prev now staleAfter =
     (case prev of
        None \<Rightarrow> False
      | Some st \<Rightarrow>
          (case sst_LastSuccessTime st of
             None \<Rightarrow> False
           | Some t \<Rightarrow> time_sub now t \<le> staleAfter))"

definition consecutive_errors :: "SourceStatus option \<Rightarrow> int32" where
  "consecutive_errors prev = (case prev of None \<Rightarrow> 1 | Some st \<Rightarrow> sst_ConsecutiveErrors st + 1)"

definition ApplyFailurePolicy ::
    "FailurePolicy option \<Rightarrow> SourceStatus option \<Rightarrow> Endpoint list \<Rightarrow> go_error option \<Rightarrow> time \<Rightarrow> FailureState" where
  "ApplyFailurePolicy policy prev fresh resolveErr now =
     (case FailurePolicyDefaults policy of (threshold, staleAfter, onStale) \<Rightarrow>
        if resolveErr = None then
          \<lparr>fs_Endpoints = fresh, fs_Stale = False, fs_Degraded = False, fs_ConsecutiveErrors = 0,
           fs_Reason = []\<rparr>
        else
          let consecutive = consecutive_errors prev;
              lastKnownGood = endpointsFromStatus prev
          in if sint consecutive < sint threshold then
               \<lparr>fs_Endpoints = lastKnownGood, fs_Stale = False, fs_Degraded = False,
                fs_ConsecutiveErrors = consecutive, fs_Reason = []\<rparr>
             else if withinStaleWindow prev now staleAfter then
               \<lparr>fs_Endpoints = lastKnownGood, fs_Stale = True, fs_Degraded = True,
                fs_ConsecutiveErrors = consecutive, fs_Reason = ReasonStaleEndpoints\<rparr>
             else if onStale = StaleActionRemove then
               \<lparr>fs_Endpoints = [], fs_Stale = True, fs_Degraded = True,
                fs_ConsecutiveErrors = consecutive, fs_Reason = ReasonStaleEndpoints\<rparr>
             else
               \<lparr>fs_Endpoints = map (\<lambda>e. e\<lparr>e_Ready := False, e_Serving := False\<rparr>) lastKnownGood,
                fs_Stale = True, fs_Degraded = True,
                fs_ConsecutiveErrors = consecutive, fs_Reason = ReasonStaleEndpoints\<rparr>)"

section \<open>Lemmas\<close>

text \<open>What the status keeps of an endpoint.\<close>

definition persisted_view :: "Endpoint \<Rightarrow> Endpoint" where
  "persisted_view e = e\<lparr>e_Serving := e_Ready e, e_Terminating := False, e_TargetRef := None\<rparr>"

lemma persisted_view_simps [simp]:
  "e_Address (persisted_view e) = e_Address e" "e_Ready (persisted_view e) = e_Ready e"
  "e_PortMap (persisted_view e) = e_PortMap e" "e_Zone (persisted_view e) = e_Zone e"
  by (simp_all add: persisted_view_def)

lemma ToPersisted_take: "ToPersisted es = map to_persisted1 (take MaxPersistedEndpoints es)"
  by (simp add: ToPersisted_def)

lemma endpointsFromStatus_persisted:
  assumes "sst_LastKnownGood st = ToPersisted es" and "list_all (\<lambda>e. IsValid (e_Address e)) es"
  shows "endpointsFromStatus (Some st) = map persisted_view (take MaxPersistedEndpoints es)"
proof -
  have "List.map_filter (\<lambda>pe. map_option
               (\<lambda>a. zero_endpoint\<lparr>e_Address := a, e_Ready := pe_Ready pe, e_Serving := pe_Ready pe,
                  e_Zone := pe_Zone pe, e_Hostname := pe_Hostname pe, e_PortMap := pe_Ports pe\<rparr>)
               (ParseAddr (pe_Address pe))) (map to_persisted1 xs) = map persisted_view xs"
    if "list_all (\<lambda>e. IsValid (e_Address e)) xs" for xs
    using that
    by (induction xs)
       (simp_all add: List.map_filter_simps to_persisted1_def ParseAddr_String zero_endpoint_def persisted_view_def)
  moreover have "list_all (\<lambda>e. IsValid (e_Address e)) (take MaxPersistedEndpoints es)"
    using assms(2) by (auto simp: list_all_iff dest: in_set_takeD)
  ultimately show ?thesis by (simp add: endpointsFromStatus_def assms(1) ToPersisted_take)
qed

lemma ApplyFailurePolicy_ok:
  "ApplyFailurePolicy policy prev fresh None now =
     \<lparr>fs_Endpoints = fresh, fs_Stale = False, fs_Degraded = False, fs_ConsecutiveErrors = 0, fs_Reason = []\<rparr>"
  by (simp add: ApplyFailurePolicy_def split: prod.split)

lemma failure_addresses_subset:
  "e_Address ` set (fs_Endpoints (ApplyFailurePolicy policy prev fresh (Some err) now)) \<subseteq>
     e_Address ` set (endpointsFromStatus prev)"
  by (auto simp: ApplyFailurePolicy_def Let_def split: prod.split)

section \<open>Properties\<close>


text \<open>A status with one good endpoint, last refreshed at time 0.\<close>

definition demo_status :: SourceStatus where
  "demo_status = zero_source_status\<lparr>sst_LastSuccessTime := Some 0, sst_ConsecutiveErrors := 2,
     sst_LastKnownGood := [\<lparr>pe_Address = ''10.0.0.1'', pe_Ready = True, pe_Zone = [], pe_Hostname = [],
       pe_Ports = [''web'' \<mapsto> 80]\<rparr>]\<rparr>"


text \<open>
  C23: storing endpoints in the status and falling back on them is a round trip: a failure that follows a
  success with at most 512 valid endpoints, inside the stale window or below the threshold, serves the
  same endpoints, with address, readiness, zone, hostname and ports.  Lost are only the reference to
  the target, the terminating flag and a serving flag that differs from the ready flag.
\<close>

theorem failure_roundtrip:
  assumes "list_all (\<lambda>e. IsValid (e_Address e)) es" and "length es \<le> MaxPersistedEndpoints"
    and "sst_LastKnownGood st = ToPersisted es" and "sst_ConsecutiveErrors st = 0"
    and "sst_LastSuccessTime st = Some t"
    and "FailurePolicyDefaults policy = (threshold, staleAfter, onStale)"
    and "1 < sint threshold \<or> time_sub now t \<le> staleAfter"
  shows "fs_Endpoints (ApplyFailurePolicy policy (Some st) fresh (Some err) now) =
     map (\<lambda>e. e\<lparr>e_Serving := e_Ready e, e_Terminating := False, e_TargetRef := None\<rparr>) es"
  using assms endpointsFromStatus_persisted [of st es]
  by (auto simp: ApplyFailurePolicy_def Let_def consecutive_errors_def withinStaleWindow_def
      persisted_view_def)

theorem failure_roundtrip_witness:
  "map e_Address (fs_Endpoints (ApplyFailurePolicy None
     (Some (zero_source_status\<lparr>sst_LastSuccessTime := Some 0,
        sst_LastKnownGood := ToPersisted demo_endpoints\<rparr>)) [] (Some (Errorf [])) 1))
   = map e_Address demo_endpoints"
  by (subst failure_roundtrip [where es = demo_endpoints and t = 0 and threshold = 3
        and staleAfter = "5 * Minute" and onStale = StaleActionMarkNotReady])
     (simp_all add: demo_endpoints_def IsValid_def MaxPersistedEndpoints_def zero_source_status_def
       FailurePolicyDefaults_def)

text \<open>
  C24: past 512 endpoints the fallback is not what the slices already hold: with distinct valid
  addresses, a failing source stops serving every endpoint after the first 512, from the first failure
  on and whatever the policy says.
\<close>

theorem failure_drops_past_limit:
  assumes "list_all (\<lambda>e. IsValid (e_Address e)) es" and "distinct (map e_Address es)"
    and "sst_LastKnownGood st = ToPersisted es" and "MaxPersistedEndpoints \<le> i" and "i < length es"
  shows "e_Address (es ! i) \<notin>
     e_Address ` set (fs_Endpoints (ApplyFailurePolicy policy (Some st) fresh (Some err) now))"
proof
  assume "e_Address (es ! i) \<in>
     e_Address ` set (fs_Endpoints (ApplyFailurePolicy policy (Some st) fresh (Some err) now))"
  then have "e_Address (es ! i) \<in> e_Address ` set (take MaxPersistedEndpoints es)"
    using failure_addresses_subset endpointsFromStatus_persisted [OF assms(3,1)]
    by (fastforce simp: image_image)
  then obtain j where "j < MaxPersistedEndpoints" "j < length es" "e_Address (es ! j) = e_Address (es ! i)"
    by (auto simp: in_set_conv_nth)
  with assms(2,4,5) show False by (auto simp: distinct_conv_nth)
qed

theorem failure_drops_witness:
  "Addr4 512 \<notin> e_Address ` set (fs_Endpoints (ApplyFailurePolicy None
     (Some (zero_source_status\<lparr>sst_LastKnownGood :=
        ToPersisted (map (\<lambda>n. zero_endpoint\<lparr>e_Address := Addr4 (of_nat n)\<rparr>) [0..<513])\<rparr>))
     [] (Some (Errorf [])) 0))"
proof -
  let ?es = "map (\<lambda>n. zero_endpoint\<lparr>e_Address := Addr4 (of_nat n)\<rparr>) [0..<513]"
  let ?st = "zero_source_status\<lparr>sst_LastKnownGood := ToPersisted ?es\<rparr>"
  have "inj_on (of_nat :: nat \<Rightarrow> 32 word) {0..<513}"
    by (rule inj_onI) (auto simp: word_of_nat_eq_iff take_bit_eq_mod)
  then have "distinct (map e_Address ?es)" by (simp add: distinct_map inj_on_def)
  moreover have "list_all (\<lambda>e. IsValid (e_Address e)) ?es" by (simp add: list_all_iff IsValid_def)
  ultimately show ?thesis
    using failure_drops_past_limit [of ?es ?st 512 None "[]" "Errorf []" 0]
    by (simp add: MaxPersistedEndpoints_def)
qed

end
