(* ===== verification/Slice_Plan.thy ===== *)
theory Slice_Plan
  imports Endpoint_Group
begin

text \<open>
  The planner of \<^verbatim>\<open>internal/endpoints/slice.go\<close>: which endpoint goes into which
  EndpointSlice, which slices are created and which are left over.

  The map \<^verbatim>\<open>remaining\<close> is an association list with distinct keys; its order is never
  observed, since \<^verbatim>\<open>sortedRemaining\<close> sorts its values.  \<^verbatim>\<open>usedNames\<close> is the
  list of its keys.  The capacity is a positive number: the only caller replaces every other value by
  the default, so the third pass always advances.
\<close>

section \<open>Slice names\<close>

definition truncateForSuffix :: "string \<Rightarrow> nat \<Rightarrow> string" where
  "truncateForSuffix name suffixLen =
     (let maxBase = 253 - suffixLen
      in if length name \<le> maxBase then name else TrimRight CHR ''-'' (take maxBase name))"

definition slice_name :: "string \<Rightarrow> string \<Rightarrow> nat \<Rightarrow> string" where
  "slice_name serviceName family n =
     truncateForSuffix serviceName (length family + 8) @ ''-'' @ family @ ''-'' @ decimal (int n)"

lemma slice_name_inj: "slice_name s f m = slice_name s f n \<longleftrightarrow> m = n"
  using decimal_inj [of "int m" "int n"] by (auto simp: slice_name_def)

text \<open>The loop ends because only finitely many names are in use.\<close>

function next_name_from :: "string \<Rightarrow> string \<Rightarrow> string list \<Rightarrow> nat \<Rightarrow> string" where
  "next_name_from serviceName family used n =
     (let name = slice_name serviceName family n
      in if name \<in> set used then next_name_from serviceName family used (Suc n) else name)"
  by pat_completeness auto
termination
proof (relation "measure (\<lambda>(s, f, used, n). card {m. n \<le> m \<and> slice_name s f m \<in> set used})")
  fix s f used n name
  assume "name = slice_name s f n" "name \<in> set used"
  then have n: "n \<in> {m. n \<le> m \<and> slice_name s f m \<in> set used}" by simp
  have "finite (slice_name s f -` set used)"
    by (rule finite_vimageI) (auto simp: inj_def slice_name_inj)
  then have "finite {m. n \<le> m \<and> slice_name s f m \<in> set used}"
    by (rule rev_finite_subset) auto
  moreover have "{m. Suc n \<le> m \<and> slice_name s f m \<in> set used} \<subset> {m. n \<le> m \<and> slice_name s f m \<in> set used}"
  proof (rule psubsetI)
    show "{m. Suc n \<le> m \<and> slice_name s f m \<in> set used} \<noteq> {m. n \<le> m \<and> slice_name s f m \<in> set used}"
      using n by (metis (no_types, lifting) mem_Collect_eq not_less_eq_eq order_refl)
  qed auto
  ultimately show "((s, f, used, Suc n), s, f, used, n)
      \<in> measure (\<lambda>(s, f, used, n). card {m. n \<le> m \<and> slice_name s f m \<in> set used})"
    by (simp add: psubset_card_mono)
qed simp

declare next_name_from.simps [simp del]

definition family_text :: "string \<Rightarrow> string" where
  "family_text at = (if at = AddressTypeIPv6 then ''ipv6'' else ''ipv4'')"

definition nextSliceName :: "string \<Rightarrow> string \<Rightarrow> string list \<Rightarrow> string" where
  "nextSliceName serviceName at used = next_name_from serviceName (family_text at) used 0"

section \<open>The plan\<close>

record slicePlan =
  sp_Name :: string
  sp_AddressType :: string
  sp_Ports :: PortTuple
  sp_Endpoints :: "Endpoint list"
  sp_Existing :: "EndpointSlice option"

definition portTupleOfSlice :: "EndpointSlice \<Rightarrow> PortTuple" where
  "portTupleOfSlice s =
     sort_key psp_Name
       (map (\<lambda>p. \<lparr>psp_Name = (case epp_Name p of None \<Rightarrow> [] | Some n \<Rightarrow> n),
                  psp_Port = (case epp_Port p of None \<Rightarrow> 0 | Some n \<Rightarrow> n),
                  psp_Protocol = (case epp_Protocol p of None \<Rightarrow> ProtocolTCP | Some n \<Rightarrow> n),
                  psp_AppProtocol = epp_AppProtocol p\<rparr>)
          (es_Ports s))"

definition slice_key :: "EndpointSlice \<Rightarrow> GroupKey" where
  "slice_key s = \<lparr>gk_AddressType = es_AddressType s, gk_PortKey = Key (portTupleOfSlice s)\<rparr>"

definition group_key :: "Group \<Rightarrow> GroupKey" where
  "group_key g = \<lparr>gk_AddressType = g_AddressType g, gk_PortKey = Key (g_Ports g)\<rparr>"

text \<open>The index of existing slices by the group they belong to, the orphans and the used names.\<close>

fun index_existing ::
    "GroupKey set \<Rightarrow> EndpointSlice list \<Rightarrow> (GroupKey \<Rightarrow> EndpointSlice list) \<Rightarrow> EndpointSlice list \<Rightarrow> string list
     \<Rightarrow> (GroupKey \<Rightarrow> EndpointSlice list) \<times> EndpointSlice list \<times> string list" where
  "index_existing wanted [] byGroup orphans used = (byGroup, orphans, used)"
| "index_existing wanted (s # existing) byGroup orphans used =
     (let used = es_Name s # used; key = slice_key s
      in if key \<notin> wanted then index_existing wanted existing byGroup (orphans @ [s]) used
         else index_existing wanted existing (byGroup(key := byGroup key @ [s])) orphans used)"

definition init_remaining :: "Endpoint list \<Rightarrow> (string \<times> Endpoint) list" where
  "init_remaining es = foldl (\<lambda>m e. AList.update (String (e_Address e)) e m) [] es"

definition sortedRemaining :: "(string \<times> Endpoint) list \<Rightarrow> Endpoint list" where
  "sortedRemaining m = SortEndpoints (map snd m)"

text \<open>Pass 1: keep endpoints on the slice that already carries them.\<close>

definition slice_addresses :: "EndpointSlice \<Rightarrow> string list" where
  "slice_addresses s = concat (map se_Addresses (es_Endpoints s))"

fun keep_on_slice ::
    "nat \<Rightarrow> string list \<Rightarrow> (string \<times> Endpoint) list \<Rightarrow> Endpoint list
     \<Rightarrow> Endpoint list \<times> (string \<times> Endpoint) list" where
  "keep_on_slice maxPer [] remaining assigned = (assigned, remaining)"
| "keep_on_slice maxPer (addr # addrs) remaining assigned =
     (case map_of remaining addr of
        Some e \<Rightarrow>
          if length assigned < maxPer
          then keep_on_slice maxPer addrs (AList.delete addr remaining) (assigned @ [e])
          else keep_on_slice maxPer addrs remaining assigned
      | None \<Rightarrow> keep_on_slice maxPer addrs remaining assigned)"

fun pass1 ::
    "nat \<Rightarrow> EndpointSlice list \<Rightarrow> (string \<times> Endpoint) list
     \<Rightarrow> Endpoint list list \<times> (string \<times> Endpoint) list" where
  "pass1 maxPer [] remaining = ([], remaining)"
| "pass1 maxPer (s # owned) remaining =
     (case keep_on_slice maxPer (slice_addresses s) remaining [] of (a, remaining) \<Rightarrow>
        (case pass1 maxPer owned remaining of (assigned, remaining) \<Rightarrow> (a # assigned, remaining)))"

text \<open>Pass 2: fill spare capacity in name order.\<close>

fun pass2 :: "nat \<Rightarrow> Endpoint list list \<Rightarrow> Endpoint list \<Rightarrow> Endpoint list list \<times> Endpoint list" where
  "pass2 maxPer [] leftover = ([], leftover)"
| "pass2 maxPer (a # assigned) leftover =
     (case pass2 maxPer assigned (drop (maxPer - length a) leftover) of (assigned, rest) \<Rightarrow>
        ((a @ take (maxPer - length a) leftover) # assigned, rest))"

fun place_owned ::
    "Group \<Rightarrow> EndpointSlice list \<Rightarrow> Endpoint list list \<Rightarrow> slicePlan list \<times> EndpointSlice list" where
  "place_owned g (s # owned) (a # assigned) =
     (case place_owned g owned assigned of (plans, orphans) \<Rightarrow>
        if a = [] then (plans, s # orphans)
        else (\<lparr>sp_Name = es_Name s, sp_AddressType = g_AddressType g, sp_Ports = g_Ports g,
               sp_Endpoints = SortEndpoints a, sp_Existing = Some s\<rparr> # plans, orphans))"
| "place_owned g _ _ = ([], [])"

text \<open>Pass 3: whatever is still unplaced needs new slices.\<close>

function pass3 ::
    "nat \<Rightarrow> string \<Rightarrow> Group \<Rightarrow> Endpoint list \<Rightarrow> string list \<Rightarrow> slicePlan list \<times> string list" where
  "pass3 maxPer serviceName g leftover used =
     (if leftover = [] \<or> maxPer = 0 then ([], used)
      else let chunk = take maxPer leftover;
               name = nextSliceName serviceName (g_AddressType g) used
           in (case pass3 maxPer serviceName g (drop maxPer leftover) (name # used) of
                (plans, used) \<Rightarrow>
                  (\<lparr>sp_Name = name, sp_AddressType = g_AddressType g, sp_Ports = g_Ports g,
                    sp_Endpoints = SortEndpoints chunk, sp_Existing = None\<rparr> # plans, used)))"
  by pat_completeness auto
termination
  by (relation "measure (\<lambda>(m, s, g, l, u). length l)") auto

declare pass3.simps [simp del]

definition plan_group ::
    "nat \<Rightarrow> string \<Rightarrow> (GroupKey \<Rightarrow> EndpointSlice list) \<Rightarrow> Group \<Rightarrow> string list
     \<Rightarrow> slicePlan list \<times> EndpointSlice list \<times> string list" where
  "plan_group maxPer serviceName byGroup g used =
     (let owned = sort_key es_Name (byGroup (group_key g))
      in (case pass1 maxPer owned (init_remaining (g_Endpoints g)) of (assigned, remaining) \<Rightarrow>
          (case pass2 maxPer assigned (sortedRemaining remaining) of (assigned, leftover) \<Rightarrow>
          (case place_owned g owned assigned of (kept, orphans) \<Rightarrow>
          (case pass3 maxPer serviceName g leftover used of (created, used) \<Rightarrow>
             (kept @ created, orphans, used))))))"

fun plan_groups ::
    "nat \<Rightarrow> string \<Rightarrow> (GroupKey \<Rightarrow> EndpointSlice list) \<Rightarrow> Group list \<Rightarrow> string list
     \<Rightarrow> slicePlan list \<times> EndpointSlice list \<times> string list" where
  "plan_groups maxPer serviceName byGroup [] used = ([], [], used)"
| "plan_groups maxPer serviceName byGroup (g # groups) used =
     (case plan_group maxPer serviceName byGroup g used of (plans, orphans, used) \<Rightarrow>
     (case plan_groups maxPer serviceName byGroup groups used of (plans', orphans', used) \<Rightarrow>
        (plans @ plans', orphans @ orphans', used)))"

definition planSlices ::
    "EndpointSlice list \<Rightarrow> Group list \<Rightarrow> string \<Rightarrow> nat \<Rightarrow> slicePlan list \<times> EndpointSlice list" where
  "planSlices existing groups serviceName maxPer =
     (case index_existing (group_key ` set groups) existing (\<lambda>_. []) [] [] of
        (byGroup, orphans, used) \<Rightarrow>
     (case plan_groups maxPer serviceName byGroup groups used of (plans, orphans', _) \<Rightarrow>
        (sort_key sp_Name plans, orphans @ orphans')))"

section \<open>Lemmas: names\<close>

lemma next_name_from_unused: "next_name_from s f used n \<notin> set used"
  by (induction s f used n rule: next_name_from.induct) (subst next_name_from.simps, simp add: Let_def)

lemma next_name_from_lowest:
  "\<exists>k\<ge>n. next_name_from s f used n = slice_name s f k \<and> (\<forall>m. n \<le> m \<and> m < k \<longrightarrow> slice_name s f m \<in> set used)"
proof (induction s f used n rule: next_name_from.induct)
  case (1 s f used n)
  show ?case
  proof (cases "slice_name s f n \<in> set used")
    case True
    then obtain k where "k \<ge> Suc n" "next_name_from s f used (Suc n) = slice_name s f k"
      "\<forall>m. Suc n \<le> m \<and> m < k \<longrightarrow> slice_name s f m \<in> set used" using 1 by blast
    with True show ?thesis
      by (intro exI [of _ k]) (auto simp: next_name_from.simps [of s f used n] Let_def le_Suc_eq intro: antisym dest: Suc_leI, metis Suc_leI le_neq_implies_less)
  next
    case False
    then show ?thesis by (intro exI [of _ n]) (auto simp: next_name_from.simps [of s f used n] Let_def)
  qed
qed

lemma nextSliceName_unused: "nextSliceName s at used \<notin> set used"
  by (simp add: nextSliceName_def next_name_from_unused)

section \<open>Lemmas: the index\<close>

lemma index_existing_eq:
  "index_existing wanted existing byGroup orphans used =
     ((\<lambda>k. byGroup k @ (if k \<in> wanted then filter (\<lambda>s. slice_key s = k) existing else [])),
      orphans @ filter (\<lambda>s. slice_key s \<notin> wanted) existing,
      rev (map es_Name existing) @ used)"
  by (induction existing arbitrary: byGroup orphans used) (auto simp: Let_def)

lemma planSlices_unfold:
  "planSlices existing groups serviceName maxPer =
     (case plan_groups maxPer serviceName
        (\<lambda>k. if k \<in> group_key ` set groups then filter (\<lambda>s. slice_key s = k) existing else [])
        groups (rev (map es_Name existing)) of (plans, orphans, _) \<Rightarrow>
      (sort_key sp_Name plans, filter (\<lambda>s. slice_key s \<notin> group_key ` set groups) existing @ orphans))"
  by (simp add: planSlices_def index_existing_eq)

section \<open>Lemmas: the passes\<close>

lemma init_remaining_eq:
  "distinct (map e_Address es) \<Longrightarrow> init_remaining es = map (\<lambda>e. (String (e_Address e), e)) es"
proof (induction es rule: rev_induct)
  case (snoc e es)
  then have "AList.update (String (e_Address e)) e (map (\<lambda>e. (String (e_Address e), e)) es) =
      map (\<lambda>e. (String (e_Address e), e)) es @ [(String (e_Address e), e)]"
    by (intro alist_update_new) (auto simp: String_inj image_iff)
  with snoc show ?case by (simp add: init_remaining_def)
qed (simp add: init_remaining_def)

lemma distinct_init_remaining: "distinct (map fst (init_remaining es))"
  by (induction es rule: rev_induct) (simp_all add: init_remaining_def distinct_update)

lemma keep_on_slice_mset:
  "distinct (map fst rem) \<Longrightarrow> keep_on_slice m addrs rem acc = (acc', rem') \<Longrightarrow>
     mset acc' + mset (map snd rem') = mset acc + mset (map snd rem) \<and> distinct (map fst rem')"
proof (induction m addrs rem acc rule: keep_on_slice.induct)
  case (2 m addr addrs rem acc)
  show ?case
  proof (cases "map_of rem addr")
    case None
    with 2 show ?thesis by simp
  next
    case (Some e)
    with 2 show ?thesis
      using alist_delete_mset [OF 2(4) Some] by (auto split: if_splits simp: distinct_delete)
  qed
qed simp

lemma keep_on_slice_length:
  "keep_on_slice m addrs rem acc = (acc', rem') \<Longrightarrow> length acc \<le> m \<Longrightarrow> length acc' \<le> m"
  by (induction m addrs rem acc rule: keep_on_slice.induct) (auto split: option.splits if_splits)

lemma pass1_mset:
  "distinct (map fst rem) \<Longrightarrow> pass1 m owned rem = (assigned, rem') \<Longrightarrow>
     mset (concat assigned) + mset (map snd rem') = mset (map snd rem) \<and> distinct (map fst rem')"
  by (induction m owned rem arbitrary: assigned rem' rule: pass1.induct)
     (fastforce split: prod.splits dest: keep_on_slice_mset simp: ac_simps)+

lemma pass1_length:
  "pass1 m owned rem = (assigned, rem') \<Longrightarrow>
     length assigned = length owned \<and> (\<forall>a\<in>set assigned. length a \<le> m)"
proof (induction m owned rem arbitrary: assigned rem' rule: pass1.induct)
  case (2 m s owned rem)
  obtain a rem1 where a: "keep_on_slice m (slice_addresses s) rem [] = (a, rem1)" by fastforce
  then have "length a \<le> m" using keep_on_slice_length [OF a] by simp
  with 2 a show ?case by (auto split: prod.splits)
qed simp

lemma pass2_mset:
  "pass2 m assigned left = (assigned', left') \<Longrightarrow>
     mset (concat assigned') + mset left' = mset (concat assigned) + mset left"
proof (induction m assigned left arbitrary: assigned' rule: pass2.induct)
  case (2 m a as left)
  have "mset left = mset (take (m - length a) left) + mset (drop (m - length a) left)"
    by (metis append_take_drop_id mset_append)
  with 2 show ?case by (auto split: prod.splits)
qed simp

lemma pass2_length:
  "pass2 m assigned left = (assigned', left') \<Longrightarrow> \<forall>a\<in>set assigned. length a \<le> m \<Longrightarrow>
     length assigned' = length assigned \<and> (\<forall>a\<in>set assigned'. length a \<le> m)"
  by (induction m assigned left arbitrary: assigned' rule: pass2.induct) (auto split: prod.splits)

section \<open>Lemmas: the plan of one group\<close>

definition plan_key :: "slicePlan \<Rightarrow> GroupKey" where
  "plan_key p = \<lparr>gk_AddressType = sp_AddressType p, gk_PortKey = Key (sp_Ports p)\<rparr>"

definition plan_ok :: "nat \<Rightarrow> Group \<Rightarrow> slicePlan \<Rightarrow> bool" where
  "plan_ok maxPer g p \<longleftrightarrow>
     sp_AddressType p = g_AddressType g \<and> sp_Ports p = g_Ports g \<and>
     sp_Endpoints p \<noteq> [] \<and> length (sp_Endpoints p) \<le> maxPer \<and> sorted (map e_Address (sp_Endpoints p)) \<and>
     (case sp_Existing p of None \<Rightarrow> True
      | Some s \<Rightarrow> es_Name s = sp_Name p \<and> slice_key s = group_key g)"

abbreviation kept_plans :: "slicePlan list \<Rightarrow> slicePlan list" where
  "kept_plans ps \<equiv> filter (\<lambda>p. sp_Existing p \<noteq> None) ps"

abbreviation new_plans :: "slicePlan list \<Rightarrow> slicePlan list" where
  "new_plans ps \<equiv> filter (\<lambda>p. sp_Existing p = None) ps"

abbreviation old_slices :: "slicePlan list \<Rightarrow> EndpointSlice list" where
  "old_slices ps \<equiv> List.map_filter sp_Existing ps"

lemma plan_ok_key: "plan_ok m g p \<Longrightarrow> plan_key p = group_key g"
  by (simp add: plan_ok_def plan_key_def group_key_def)

lemma place_owned_spec:
  assumes "length assigned = length owned" and "place_owned g owned assigned = (plans, orphans)"
    and "\<forall>a\<in>set assigned. length a \<le> m" and "\<forall>s\<in>set owned. slice_key s = group_key g"
  shows "mset (concat (map sp_Endpoints plans)) = mset (concat assigned) \<and>
     mset (old_slices plans) + mset orphans = mset owned \<and>
     list_all (plan_ok m g) plans \<and> new_plans plans = []"
  using assms
proof (induction assigned owned arbitrary: plans orphans rule: list_induct2)
  case (Cons a as s owned)
  obtain ps os where "place_owned g owned as = (ps, os)" by fastforce
  with Cons show ?case
    by (auto simp: List.map_filter_simps plan_ok_def split: if_splits)
qed (simp add: List.map_filter_simps)

lemma pass3_spec:
  assumes "0 < m" and "pass3 m sn g left used = (plans, used')"
  shows "mset (concat (map sp_Endpoints plans)) = mset left \<and>
     list_all (plan_ok m g) plans \<and> new_plans plans = plans \<and> distinct (map sp_Name plans) \<and>
     sp_Name ` set plans \<inter> set used = {} \<and> set used' = set used \<union> sp_Name ` set plans"
  using assms
proof (induction m sn g left used arbitrary: plans used' rule: pass3.induct)
  case (1 m sn g left used)
  show ?case
  proof (cases "left = []")
    case True
    with 1 show ?thesis by (simp add: pass3.simps [of m sn g "[]" used])
  next
    case False
    let ?name = "nextSliceName sn (g_AddressType g) used"
    obtain ps where ps: "pass3 m sn g (drop m left) (?name # used) = (ps, used')"
      and plans: "plans = \<lparr>sp_Name = ?name, sp_AddressType = g_AddressType g, sp_Ports = g_Ports g,
                    sp_Endpoints = SortEndpoints (take m left), sp_Existing = None\<rparr> # ps"
      using 1(2,3) False by (auto simp: pass3.simps [of m sn g left used] Let_def split: prod.splits)
    have "mset (take m left) + mset (drop m left) = mset left"
      by (metis append_take_drop_id mset_append)
    moreover have "?name \<notin> set used" by (rule nextSliceName_unused)
    ultimately show ?thesis
      using 1(1) [OF _ refl refl 1(2) ps] 1(2) False by (auto simp: plans plan_ok_def)
  qed
qed

lemma plan_group_spec:
  assumes "0 < m" and "distinct (map e_Address (g_Endpoints g))"
    and "\<forall>s\<in>set (byGroup (group_key g)). slice_key s = group_key g"
    and "plan_group m sn byGroup g used = (plans, orphans, used')"
  shows "mset (concat (map sp_Endpoints plans)) = mset (g_Endpoints g) \<and>
     mset (old_slices plans) + mset orphans = mset (byGroup (group_key g)) \<and>
     list_all (plan_ok m g) plans \<and> distinct (map sp_Name (new_plans plans)) \<and>
     sp_Name ` set (new_plans plans) \<inter> set used = {} \<and>
     set used' = set used \<union> sp_Name ` set (new_plans plans)"
proof -
  let ?owned = "sort_key es_Name (byGroup (group_key g))"
  obtain as1 rem as2 left kept created
    where p1: "pass1 m ?owned (init_remaining (g_Endpoints g)) = (as1, rem)"
      and p2: "pass2 m as1 (sortedRemaining rem) = (as2, left)"
      and po: "place_owned g ?owned as2 = (kept, orphans)"
      and p3: "pass3 m sn g left used = (created, used')"
      and plans: "plans = kept @ created"
    using assms(4) by (auto simp: plan_group_def Let_def split: prod.splits)
  have l2: "length as2 = length ?owned" "\<forall>a\<in>set as2. length a \<le> m"
    using pass1_length [OF p1] pass2_length [OF p2] by auto
  note spec = place_owned_spec [OF l2(1) po l2(2)] pass3_spec [OF assms(1) p3]
  have "mset (concat as2) + mset left = mset (g_Endpoints g)"
    using pass1_mset [OF distinct_init_remaining p1] pass2_mset [OF p2]
    by (simp add: init_remaining_eq [OF assms(2)] sortedRemaining_def comp_def)
  moreover have "old_slices created = []" using spec(2)
    by (auto simp: filter_id_conv filter_empty_conv List.map_filter_def)
  ultimately show ?thesis
    using spec assms(3) unfolding plans by (auto simp: map_filter_append)
qed

section \<open>Lemmas: the plan of all groups\<close>

lemma plan_groups_spec:
  assumes "0 < m" and "\<forall>g\<in>set groups. distinct (map e_Address (g_Endpoints g))"
    and "\<And>k s. s \<in> set (byGroup k) \<Longrightarrow> slice_key s = k"
    and "distinct (map group_key groups)"
    and "plan_groups m sn byGroup groups used = (plans, orphans, used')"
  shows "(\<forall>g\<in>set groups. mset (concat (map sp_Endpoints (filter (\<lambda>p. plan_key p = group_key g) plans)))
              = mset (g_Endpoints g)) \<and>
     mset (old_slices plans) + mset orphans = mset (concat (map (\<lambda>g. byGroup (group_key g)) groups)) \<and>
     (\<forall>p\<in>set plans. \<exists>g\<in>set groups. plan_ok m g p) \<and> distinct (map sp_Name (new_plans plans)) \<and>
     sp_Name ` set (new_plans plans) \<inter> set used = {}"
  using assms(2,4,5)
proof (induction groups arbitrary: used plans orphans)
  case (Cons g groups)
  obtain ps os u1 ps' os' where g: "plan_group m sn byGroup g used = (ps, os, u1)"
    and gs: "plan_groups m sn byGroup groups u1 = (ps', os', used')"
    and plans: "plans = ps @ ps'" "orphans = os @ os'"
    using Cons.prems(3) by (auto split: prod.splits)
  have one: "mset (concat (map sp_Endpoints ps)) = mset (g_Endpoints g)"
      "mset (old_slices ps) + mset os = mset (byGroup (group_key g))"
      "list_all (plan_ok m g) ps" "distinct (map sp_Name (new_plans ps))"
      "sp_Name ` set (new_plans ps) \<inter> set used = {}" "set u1 = set used \<union> sp_Name ` set (new_plans ps)"
    using plan_group_spec [OF assms(1) _ _ g] Cons.prems(1) assms(3) by auto
  have rest: "\<forall>g\<in>set groups. mset (concat (map sp_Endpoints (filter (\<lambda>p. plan_key p = group_key g) ps')))
              = mset (g_Endpoints g)"
      "mset (old_slices ps') + mset os' = mset (concat (map (\<lambda>g. byGroup (group_key g)) groups))"
      "\<forall>p\<in>set ps'. \<exists>g\<in>set groups. plan_ok m g p" "distinct (map sp_Name (new_plans ps'))"
      "sp_Name ` set (new_plans ps') \<inter> set u1 = {}"
    using Cons.IH [OF _ _ gs] Cons.prems(1,2) by auto
  have keys: "plan_key p = group_key g" if "p \<in> set ps" for p
    using one(3) that plan_ok_key by (auto simp: list_all_iff)
  have keys': "plan_key p \<in> group_key ` set groups" if "p \<in> set ps'" for p
    using rest(3) that plan_ok_key by blast
  have other: "plan_key p \<noteq> group_key g" if "p \<in> set ps'" for p
    using keys' [OF that] Cons.prems(2) by auto
  have here: "filter (\<lambda>p. plan_key p = group_key g) ps = ps" "filter (\<lambda>p. plan_key p = group_key g) ps' = []"
    using keys other by (auto simp: filter_id_conv filter_empty_conv)
  have there: "filter (\<lambda>p. plan_key p = group_key h) ps = []" if "h \<in> set groups" for h
    using keys that Cons.prems(2) by (force simp: filter_empty_conv)
  show ?case
    unfolding plans
  proof (intro conjI)
    show "\<forall>h\<in>set (g # groups). mset (concat (map sp_Endpoints (filter (\<lambda>p. plan_key p = group_key h) (ps @ ps'))))
        = mset (g_Endpoints h)"
      using one(1) rest(1) there by (simp add: here)
    show "mset (old_slices (ps @ ps')) + mset (os @ os') =
        mset (concat (map (\<lambda>g. byGroup (group_key g)) (g # groups)))"
      using one(2) rest(2) by (simp add: map_filter_append ac_simps flip: one(2) rest(2))
    show "\<forall>p\<in>set (ps @ ps'). \<exists>g\<in>set (g # groups). plan_ok m g p"
      using one(3) rest(3) by (auto simp: list_all_iff)
    show "distinct (map sp_Name (new_plans (ps @ ps')))"
      using one(4,6) rest(4,5) by auto
    show "sp_Name ` set (new_plans (ps @ ps')) \<inter> set used = {}"
      using one(5,6) rest(5) by auto
  qed
qed simp

text \<open>What the planner is given: existing slices with distinct names and groups as \<^const>\<open>GroupEndpoints\<close> makes them.\<close>

definition plan_input_ok :: "EndpointSlice list \<Rightarrow> Group list \<Rightarrow> nat \<Rightarrow> bool" where
  "plan_input_ok existing groups maxPer \<longleftrightarrow>
     0 < maxPer \<and> distinct (map es_Name existing) \<and> distinct (map group_key groups) \<and>
     (\<forall>g\<in>set groups. distinct (map e_Address (g_Endpoints g)))"

text \<open>Plans have distinct names when the new ones are new: the others keep the names of the slices they fill.\<close>

lemma plan_names_distinct:
  assumes old: "mset (old_slices plans) + mset orphans = mset existing" and "distinct (map es_Name existing)"
    and "distinct (map sp_Name (new_plans plans))"
    and "\<And>p s. p \<in> set plans \<Longrightarrow> sp_Existing p = Some s \<Longrightarrow> es_Name s = sp_Name p"
    and "sp_Name ` set (new_plans plans) \<inter> es_Name ` set existing = {}"
  shows "distinct (map sp_Name plans)"
proof (rule distinct_map_partition [where P = "\<lambda>p. sp_Existing p = None"])
  have kept: "map sp_Name (kept_plans plans) = map es_Name (old_slices plans)"
    using assms(4) by (auto simp: List.map_filter_def)
  have "mset (map es_Name existing) = mset (map es_Name (old_slices plans @ orphans))"
    by (simp flip: old)
  then have "distinct (map es_Name (old_slices plans @ orphans))"
    using assms(2) by (metis mset_eq_imp_distinct_iff)
  then show "distinct (map sp_Name (filter (\<lambda>p. sp_Existing p \<noteq> None) plans))"
    unfolding kept by simp
  have "set (old_slices plans) \<subseteq> set existing"
    using old by (metis mset_eq_setD mset_append set_append Un_upper1)
  then have "sp_Name ` set (kept_plans plans) \<subseteq> es_Name ` set existing"
    using kept by (metis image_mono set_map)
  then show "sp_Name ` set (new_plans plans) \<inter> sp_Name ` set (kept_plans plans) = {}"
    using assms(5) by blast
qed (rule assms(3))

lemma planSlices_spec:
  assumes "plan_input_ok existing groups m" and "planSlices existing groups sn m = (plans, orphans)"
  shows "\<forall>g\<in>set groups. mset (concat (map sp_Endpoints (filter (\<lambda>p. plan_key p = group_key g) plans)))
              = mset (g_Endpoints g)"
    and "mset (old_slices plans) + mset orphans = mset existing"
    and "\<forall>p\<in>set plans. \<exists>g\<in>set groups. plan_ok m g p"
    and "distinct (map sp_Name plans)"
    and "sp_Name ` set (new_plans plans) \<inter> es_Name ` set existing = {}"
proof -
  let ?by = "\<lambda>k. if k \<in> group_key ` set groups then filter (\<lambda>s. slice_key s = k) existing else []"
  obtain ps os used where pg: "plan_groups m sn ?by groups (rev (map es_Name existing)) = (ps, os, used)"
    and plans: "plans = sort_key sp_Name ps"
    and orphans: "orphans = filter (\<lambda>s. slice_key s \<notin> group_key ` set groups) existing @ os"
    using assms(2) by (auto simp: planSlices_unfold split: prod.splits)
  have in_ok: "0 < m" "distinct (map es_Name existing)" "distinct (map group_key groups)"
      "\<forall>g\<in>set groups. distinct (map e_Address (g_Endpoints g))"
    using assms(1) by (auto simp: plan_input_ok_def)
  have "slice_key s = k" if "s \<in> set (?by k)" for k s using that by (auto split: if_splits)
  note spec = plan_groups_spec [OF in_ok(1,4) this in_ok(3) pg]
  show "\<forall>g\<in>set groups. mset (concat (map sp_Endpoints (filter (\<lambda>p. plan_key p = group_key g) plans)))
      = mset (g_Endpoints g)"
    using spec mset_concat_map_perm [of "filter _ plans" "filter _ ps" sp_Endpoints]
    by (simp add: plans)
  show "\<forall>p\<in>set plans. \<exists>g\<in>set groups. plan_ok m g p" using spec by (simp add: plans)
  show fresh: "sp_Name ` set (new_plans plans) \<inter> es_Name ` set existing = {}"
    using spec by (simp add: plans)
  have "concat (map (\<lambda>g. ?by (group_key g)) groups) =
      concat (map (\<lambda>k. filter (\<lambda>s. slice_key s = k) existing) (map group_key groups))"
    by (simp add: comp_def cong: map_cong)
  then have "mset (concat (map (\<lambda>g. ?by (group_key g)) groups)) =
      mset (filter (\<lambda>s. slice_key s \<in> group_key ` set groups) existing)"
    using concat_filter_keys [OF in_ok(3), of slice_key existing] by simp
  moreover have "mset (old_slices plans) = mset (old_slices ps)"
    by (simp add: plans List.map_filter_def)
  ultimately have "mset (old_slices plans) + mset os =
      filter_mset (\<lambda>s. slice_key s \<in> group_key ` set groups) (mset existing)"
    using spec by simp
  then show old: "mset (old_slices plans) + mset orphans = mset existing"
    unfolding orphans mset_append mset_filter by (rule mset_rejoin)
  show "distinct (map sp_Name plans)"
  proof (rule plan_names_distinct [OF old in_ok(2) _ _ fresh])
    show "distinct (map sp_Name (new_plans plans))"
      using spec by (simp add: plans filter_sort distinct_map_sort_key)
    show "es_Name s = sp_Name p" if "p \<in> set plans" "sp_Existing p = Some s" for p s
      using spec that by (force simp: plans plan_ok_def)
  qed
qed

section \<open>Lemmas: endpoints stay where they are\<close>

lemma keep_on_slice_keeps: "e \<in> set acc \<Longrightarrow> e \<in> set (fst (keep_on_slice m addrs rem acc))"
  by (induction m addrs rem acc rule: keep_on_slice.induct) (auto split: option.splits)

lemma keep_on_slice_takes:
  "a \<in> set addrs \<Longrightarrow> map_of rem a = Some e \<Longrightarrow> length acc + length addrs \<le> m \<Longrightarrow>
     e \<in> set (fst (keep_on_slice m addrs rem acc))"
proof (induction m addrs rem acc rule: keep_on_slice.induct)
  case (2 m b addrs rem acc)
  then show ?case
    by (cases "b = a") (auto split: option.splits simp: delete_conv' intro: keep_on_slice_keeps)
qed simp

lemma keep_on_slice_other:
  "a \<notin> set addrs \<Longrightarrow> map_of (snd (keep_on_slice m addrs rem acc)) a = map_of rem a"
  by (induction m addrs rem acc rule: keep_on_slice.induct) (auto split: option.splits simp: delete_conv')

lemma pass1_takes:
  assumes "s \<in> set owned" and "a \<in> set (slice_addresses s)"
    and "\<forall>s'\<in>set owned. s' \<noteq> s \<longrightarrow> a \<notin> set (slice_addresses s')" and "map_of rem a = Some e"
    and "length (slice_addresses s) \<le> m"
  shows "\<exists>i < length owned. owned ! i = s \<and> e \<in> set (fst (pass1 m owned rem) ! i)"
  using assms(1,3,4,5)
proof (induction m owned rem rule: pass1.induct)
  case (2 m s' owned rem)
  obtain b rem1 where b: "keep_on_slice m (slice_addresses s') rem [] = (b, rem1)" by fastforce
  show ?case
  proof (cases "s' = s")
    case True
    then show ?thesis
      using keep_on_slice_takes [OF assms(2) 2(4), of "[]" m] 2(5) b
      by (intro exI [of _ 0]) (auto split: prod.splits)
  next
    case False
    then have "map_of rem1 a = Some e"
      using keep_on_slice_other [of a "slice_addresses s'" m rem "[]"] 2(3,4) b by auto
    with 2 False b obtain i where "i < length owned" "owned ! i = s" "e \<in> set (fst (pass1 m owned rem1) ! i)"
      by auto
    then show ?thesis using b by (intro exI [of _ "Suc i"]) (auto split: prod.splits)
  qed
qed simp

lemma pass2_extends:
  "i < length assigned \<Longrightarrow> e \<in> set (assigned ! i) \<Longrightarrow> e \<in> set (fst (pass2 m assigned left) ! i)"
proof (induction m assigned left arbitrary: i rule: pass2.induct)
  case (2 m a as left)
  then show ?case by (cases i) (auto split: prod.splits)
qed simp

lemma place_owned_nonempty:
  "i < length owned \<Longrightarrow> length assigned = length owned \<Longrightarrow> e \<in> set (assigned ! i) \<Longrightarrow>
     \<exists>p\<in>set (fst (place_owned g owned assigned)). sp_Existing p = Some (owned ! i) \<and> e \<in> set (sp_Endpoints p)"
proof (induction g owned assigned arbitrary: i rule: place_owned.induct)
  case (1 g s owned a assigned)
  then show ?case by (cases i) (auto split: prod.splits)
qed auto

lemma plan_group_keeps:
  assumes "distinct (map e_Address (g_Endpoints g))" and "e \<in> set (g_Endpoints g)"
    and "s \<in> set (byGroup (group_key g))" and "String (e_Address e) \<in> set (slice_addresses s)"
    and "\<forall>s'\<in>set (byGroup (group_key g)). s' \<noteq> s \<longrightarrow> String (e_Address e) \<notin> set (slice_addresses s')"
    and "length (slice_addresses s) \<le> m"
  shows "\<exists>p\<in>set (fst (plan_group m sn byGroup g used)). sp_Existing p = Some s \<and> e \<in> set (sp_Endpoints p)"
proof -
  let ?owned = "sort_key es_Name (byGroup (group_key g))"
  obtain as1 rem where p1: "pass1 m ?owned (init_remaining (g_Endpoints g)) = (as1, rem)" by force
  obtain as2 left where p2: "pass2 m as1 (sortedRemaining rem) = (as2, left)" by force
  have "map_of (init_remaining (g_Endpoints g)) (String (e_Address e)) = Some e"
    using assms(2) distinct_init_remaining [of "g_Endpoints g"]
    by (simp add: init_remaining_eq [OF assms(1)] map_of_eq_Some_iff)
  then obtain i where i: "i < length ?owned" "?owned ! i = s" "e \<in> set (as1 ! i)"
    using pass1_takes [of s ?owned "String (e_Address e)" "init_remaining (g_Endpoints g)" e m]
      assms(3-6) by (auto simp: p1)
  then have "e \<in> set (as2 ! i)" "length as2 = length ?owned"
    using pass2_extends [of i as1 e m "sortedRemaining rem"] pass1_length [OF p1] pass2_length [OF p2] p2
    by auto
  then have "\<exists>p\<in>set (fst (place_owned g ?owned as2)). sp_Existing p = Some s \<and> e \<in> set (sp_Endpoints p)"
    using place_owned_nonempty [OF i(1), of as2 e g] i(2) by simp
  moreover have "set (fst (place_owned g ?owned as2)) \<subseteq> set (fst (plan_group m sn byGroup g used))"
    by (simp add: plan_group_def Let_def p1 p2 split: prod.split)
  ultimately show ?thesis by blast
qed

lemma plan_groups_contains:
  "g \<in> set groups \<Longrightarrow>
     \<exists>used'. set (fst (plan_group m sn byGroup g used')) \<subseteq> set (fst (plan_groups m sn byGroup groups used))"
proof (induction groups arbitrary: used)
  case (Cons h groups)
  obtain ps os u where h: "plan_group m sn byGroup h used = (ps, os, u)" by (metis prod_cases3)
  show ?case
  proof (cases "g = h")
    case True
    then show ?thesis using h by (intro exI [of _ used]) (auto split: prod.splits)
  next
    case False
    then obtain used' where "set (fst (plan_group m sn byGroup g used')) \<subseteq> set (fst (plan_groups m sn byGroup groups u))"
      using Cons by auto
    then show ?thesis using h by (intro exI [of _ used']) (auto split: prod.splits)
  qed
qed simp

lemma planSlices_keep:
  assumes "\<forall>g\<in>set groups. distinct (map e_Address (g_Endpoints g))"
    and "g \<in> set groups" and "e \<in> set (g_Endpoints g)" and "s \<in> set existing" and "slice_key s = group_key g"
    and "String (e_Address e) \<in> set (slice_addresses s)" and "length (slice_addresses s) \<le> m"
    and "\<forall>s'\<in>set existing. s' \<noteq> s \<and> slice_key s' = group_key g \<longrightarrow>
           String (e_Address e) \<notin> set (slice_addresses s')"
  shows "\<exists>p\<in>set (fst (planSlices existing groups sn m)). sp_Existing p = Some s \<and> e \<in> set (sp_Endpoints p)"
proof -
  let ?by = "\<lambda>k. if k \<in> group_key ` set groups then filter (\<lambda>s. slice_key s = k) existing else []"
  let ?names = "rev (map es_Name existing)"
  obtain used where "set (fst (plan_group m sn ?by g used)) \<subseteq> set (fst (plan_groups m sn ?by groups ?names))"
    using plan_groups_contains [OF assms(2)] by blast
  moreover have "\<exists>p\<in>set (fst (plan_group m sn ?by g used)). sp_Existing p = Some s \<and> e \<in> set (sp_Endpoints p)"
    by (rule plan_group_keeps) (use assms in auto)
  moreover have "set (fst (planSlices existing groups sn m)) = set (fst (plan_groups m sn ?by groups ?names))"
    by (simp add: planSlices_unfold split: prod.split)
  ultimately show ?thesis by blast
qed

section \<open>Lemmas: settled slices\<close>

text \<open>
  Existing slices are settled for a list of groups when they hold, group by group, exactly the
  addresses wanted, within capacity and with no empty slice.
\<close>

definition settled :: "EndpointSlice list \<Rightarrow> Group list \<Rightarrow> nat \<Rightarrow> bool" where
  "settled existing groups m \<longleftrightarrow>
     plan_input_ok existing groups m \<and>
     (\<forall>s\<in>set existing. slice_key s \<in> group_key ` set groups \<and> slice_addresses s \<noteq> [] \<and>
        length (slice_addresses s) \<le> m) \<and>
     (\<forall>g\<in>set groups. mset (concat (map slice_addresses (filter (\<lambda>s. slice_key s = group_key g) existing))) =
        mset (map (\<lambda>e. String (e_Address e)) (g_Endpoints g)))"

lemma distinct_texts:
  "distinct (map e_Address es) \<Longrightarrow> distinct (map (\<lambda>e. String (e_Address e)) es)"
  by (auto simp: distinct_map inj_on_def String_inj)

lemma settled_group:
  assumes "settled existing groups m" and "g \<in> set groups"
  shows "distinct (concat (map slice_addresses (filter (\<lambda>s. slice_key s = group_key g) existing)))"
    and "(\<exists>s\<in>set existing. slice_key s = group_key g \<and> a \<in> set (slice_addresses s)) \<longleftrightarrow>
           a \<in> (\<lambda>e. String (e_Address e)) ` set (g_Endpoints g)"
proof -
  have eq: "mset (concat (map slice_addresses (filter (\<lambda>s. slice_key s = group_key g) existing))) =
      mset (map (\<lambda>e. String (e_Address e)) (g_Endpoints g))"
    using assms by (auto simp: settled_def)
  moreover have "distinct (map (\<lambda>e. String (e_Address e)) (g_Endpoints g))"
    using assms by (intro distinct_texts) (auto simp: settled_def plan_input_ok_def)
  ultimately show "distinct (concat (map slice_addresses (filter (\<lambda>s. slice_key s = group_key g) existing)))"
    by (metis mset_eq_imp_distinct_iff)
  show "(\<exists>s\<in>set existing. slice_key s = group_key g \<and> a \<in> set (slice_addresses s)) \<longleftrightarrow>
           a \<in> (\<lambda>e. String (e_Address e)) ` set (g_Endpoints g)"
    using mset_eq_setD [OF eq] by (auto simp: set_eq_iff)
qed

lemma settled_placed:
  assumes "settled existing groups m" and "planSlices existing groups sn m = (plans, orphans)"
    and "s \<in> set existing" "g \<in> set groups" "slice_key s = group_key g"
    and "e \<in> set (g_Endpoints g)" "String (e_Address e) \<in> set (slice_addresses s)"
  shows "\<exists>p\<in>set plans. sp_Existing p = Some s \<and> e \<in> set (sp_Endpoints p)"
proof -
  have "\<exists>p\<in>set (fst (planSlices existing groups sn m)). sp_Existing p = Some s \<and> e \<in> set (sp_Endpoints p)"
  proof (rule planSlices_keep [OF _ assms(4,6,3,5,7)])
    show "\<forall>g\<in>set groups. distinct (map e_Address (g_Endpoints g))" "length (slice_addresses s) \<le> m"
      using assms(1,3) by (auto simp: settled_def plan_input_ok_def)
    show "\<forall>s'\<in>set existing. s' \<noteq> s \<and> slice_key s' = group_key g \<longrightarrow>
        String (e_Address e) \<notin> set (slice_addresses s')"
      using distinct_concat_unique [OF settled_group(1) [OF assms(1,4)]] assms(3,5,7) by auto
  qed
  then show ?thesis by (simp add: assms(2))
qed

lemma plans_of_group:
  assumes input: "plan_input_ok existing groups m" and pl: "planSlices existing groups sn m = (plans, orphans)"
    and g: "g \<in> set groups"
  defines "mine \<equiv> filter (\<lambda>p. plan_key p = group_key g) plans"
  shows "\<And>p x. p \<in> set mine \<Longrightarrow> x \<in> set (sp_Endpoints p) \<Longrightarrow> x \<in> set (g_Endpoints g)"
    and "\<And>p q x. p \<in> set mine \<Longrightarrow> q \<in> set mine \<Longrightarrow> x \<in> set (sp_Endpoints p) \<Longrightarrow> x \<in> set (sp_Endpoints q) \<Longrightarrow> p = q"
    and "\<And>p. p \<in> set mine \<Longrightarrow> distinct (map (\<lambda>e. String (e_Address e)) (sp_Endpoints p))"
proof -
  have part: "mset (concat (map sp_Endpoints mine)) = mset (g_Endpoints g)"
    using planSlices_spec(1) [OF input pl] g by (simp add: mine_def)
  then show "x \<in> set (g_Endpoints g)" if "p \<in> set mine" "x \<in> set (sp_Endpoints p)" for p x
    using that mset_eq_setD [OF part] by auto
  have "mset (map e_Address (concat (map sp_Endpoints mine))) = mset (map e_Address (g_Endpoints g))"
    using part by (simp only: mset_map)
  then have dist: "distinct (map e_Address (concat (map sp_Endpoints mine)))"
    using input g by (metis mset_eq_imp_distinct_iff plan_input_ok_def)
  show "p = q" if "p \<in> set mine" "q \<in> set mine" "x \<in> set (sp_Endpoints p)" "x \<in> set (sp_Endpoints q)" for p q x
    using distinct_concat_unique [of sp_Endpoints mine, OF _ that] dist by (simp add: distinct_map)
  show "distinct (map (\<lambda>e. String (e_Address e)) (sp_Endpoints p))" if "p \<in> set mine" for p
    using distinct_concat_elem [of "\<lambda>p. map e_Address (sp_Endpoints p)" mine p] that dist
    by (intro distinct_texts) (simp add: map_concat comp_def)
qed

lemma plan_of_slice_unique:
  assumes "plan_input_ok existing groups m" and "planSlices existing groups sn m = (plans, orphans)"
    and "p \<in> set plans" "q \<in> set plans" "sp_Existing p = Some s" "sp_Existing q = Some s"
  shows "p = q"
proof -
  note spec = planSlices_spec [OF assms(1,2)]
  have "sp_Name r = es_Name s" if "r \<in> set plans" "sp_Existing r = Some s" for r
    using spec(3) that by (fastforce simp: plan_ok_def)
  with assms(3-6) have "sp_Name p = sp_Name q" by simp
  then show ?thesis using spec(4) assms(3,4) by (auto simp: distinct_map dest: inj_onD)
qed

lemma settled_plan:
  assumes st: "settled existing groups m" and pl: "planSlices existing groups sn m = (plans, orphans)"
    and p: "p \<in> set plans" and g: "g \<in> set groups" "plan_ok m g p"
  shows "\<exists>s\<in>set existing. sp_Existing p = Some s \<and> slice_key s = group_key g \<and>
     mset (map (\<lambda>e. String (e_Address e)) (sp_Endpoints p)) = mset (slice_addresses s)"
proof -
  have input: "plan_input_ok existing groups m" using st by (simp add: settled_def)
  note mine = plans_of_group [OF input pl g(1)] and spec = planSlices_spec [OF input pl]
  have p_mine: "p \<in> set (filter (\<lambda>p. plan_key p = group_key g) plans)" using p plan_ok_key [OF g(2)] by simp
  have home: "sp_Existing p = Some s"
    if s: "s \<in> set existing" "slice_key s = group_key g" "String (e_Address x) \<in> set (slice_addresses s)"
      and x: "x \<in> set (sp_Endpoints p)" for s x
  proof -
    obtain q where q: "q \<in> set plans" "sp_Existing q = Some s" "x \<in> set (sp_Endpoints q)"
      using settled_placed [OF st pl s(1) g(1) s(2) mine(1) [OF p_mine x] s(3)] by blast
    then obtain h where "h \<in> set groups" "plan_ok m h q" using spec(3) by blast
    then have "plan_key q = group_key g" using q(2) s(2) plan_ok_key by (auto simp: plan_ok_def)
    then show ?thesis using mine(2) [OF p_mine _ x q(3)] q(1,2) by auto
  qed
  have slice: "\<exists>s\<in>set existing. slice_key s = group_key g \<and> String (e_Address x) \<in> set (slice_addresses s)"
    if "x \<in> set (sp_Endpoints p)" for x
    using settled_group(2) [OF st g(1)] mine(1) [OF p_mine that] by blast
  have "hd (sp_Endpoints p) \<in> set (sp_Endpoints p)" using g(2) by (simp add: plan_ok_def)
  then obtain s where s: "s \<in> set existing" "slice_key s = group_key g" "sp_Existing p = Some s"
    using slice home by blast
  have "String (e_Address x) \<in> set (slice_addresses s)" if "x \<in> set (sp_Endpoints p)" for x
    using slice [OF that] home [OF _ _ _ that] s(3) by auto
  moreover have "a \<in> (\<lambda>e. String (e_Address e)) ` set (sp_Endpoints p)" if a: "a \<in> set (slice_addresses s)" for a
  proof -
    obtain x where x: "x \<in> set (g_Endpoints g)" "a = String (e_Address x)"
      using settled_group(2) [OF st g(1), of a] s(1,2) a by blast
    then obtain q where "q \<in> set plans" "sp_Existing q = Some s" "x \<in> set (sp_Endpoints q)"
      using settled_placed [OF st pl s(1) g(1) s(2) x(1)] a by blast
    then show ?thesis using plan_of_slice_unique [OF input pl p _ s(3)] x(2) by auto
  qed
  ultimately have "set (map (\<lambda>e. String (e_Address e)) (sp_Endpoints p)) = set (slice_addresses s)" by auto
  moreover have "distinct (slice_addresses s)"
    using distinct_concat_elem [OF settled_group(1) [OF st g(1)]] s by simp
  ultimately show ?thesis using s mine(3) [OF p_mine] by (metis set_eq_iff_mset_eq_distinct)
qed

lemma settled_no_orphans:
  assumes st: "settled existing groups m" and pl: "planSlices existing groups sn m = (plans, orphans)"
  shows "orphans = []"
proof (rule ccontr)
  assume "orphans \<noteq> []"
  then obtain s where s: "s \<in> set orphans" using hd_in_set by blast
  have input: "plan_input_ok existing groups m" using st by (simp add: settled_def)
  note old = planSlices_spec(2) [OF input pl]
  have "distinct existing" using input by (simp add: plan_input_ok_def distinct_map)
  then have "distinct (old_slices plans @ orphans)" using old by (metis mset_append mset_eq_imp_distinct_iff)
  then have not_old: "s \<notin> set (old_slices plans)" using s by auto
  have s_in: "s \<in> set existing" using old s by (metis UnCI mset_append mset_eq_setD set_append)
  then obtain g where g: "g \<in> set groups" "slice_key s = group_key g" and ne: "slice_addresses s \<noteq> []"
    using st by (auto simp: settled_def)
  then have "hd (slice_addresses s) \<in> (\<lambda>e. String (e_Address e)) ` set (g_Endpoints g)"
    using settled_group(2) [OF st g(1)] s_in by (metis list.set_sel(1))
  then obtain e where e: "e \<in> set (g_Endpoints g)" "hd (slice_addresses s) = String (e_Address e)" by blast
  then have "String (e_Address e) \<in> set (slice_addresses s)" using ne hd_in_set by metis
  then obtain p where "p \<in> set plans" "sp_Existing p = Some s"
    using settled_placed [OF st pl s_in g e(1)] by blast
  then have "s \<in> set (old_slices plans)" by (force simp: List.map_filter_def)
  with not_old show False by contradiction
qed

section \<open>Lemmas: the length of a name\<close>

lemma length_decimal: "0 \<le> n \<Longrightarrow> n < 10 ^ Suc k \<Longrightarrow> length (decimal n) \<le> Suc k"
proof (induction k arbitrary: n)
  case 0
  then show ?case by (simp add: decimal.simps [of n])
next
  case (Suc k)
  then have "n div 10 < 10 ^ Suc k" by (simp add: div_less_iff_less_mult)
  with Suc show ?case by (simp add: decimal.simps [of n])
qed

lemma length_truncate: "k \<le> 253 \<Longrightarrow> length (truncateForSuffix s k) \<le> 253 - k"
proof -
  have "length (TrimRight c t) \<le> length t" for c t
    unfolding TrimRight_def by (metis length_dropWhile_le length_rev)
  from this [of "CHR ''-''" "take (253 - k) s"] show ?thesis
    by (simp add: truncateForSuffix_def Let_def)
qed

lemma nextSliceName_index:
  "\<exists>k\<le>length used. nextSliceName s at used = slice_name s (family_text at) k \<and>
     (\<forall>m<k. slice_name s (family_text at) m \<in> set used)"
proof -
  obtain k where k: "nextSliceName s at used = slice_name s (family_text at) k"
    "\<forall>m. 0 \<le> m \<and> m < k \<longrightarrow> slice_name s (family_text at) m \<in> set used"
    using next_name_from_lowest unfolding nextSliceName_def by blast
  then have "slice_name s (family_text at) ` {..<k} \<subseteq> set used" by auto
  moreover have "card (slice_name s (family_text at) ` {..<k}) = k"
    by (subst card_image) (auto simp: inj_on_def slice_name_inj)
  ultimately have "k \<le> length used" by (metis card_mono card_length finite_set order_trans)
  with k show ?thesis by auto
qed

section \<open>Properties\<close>




definition demo_groups :: "Group list" where
  "demo_groups = GroupEndpoints demo_endpoints demo_ports IPFamilyPolicyIPv4"

lemma demo_input_ok: "plan_input_ok [] demo_groups 2"
  unfolding plan_input_ok_def demo_groups_def by code_simp


text \<open>
  Every planned slice is one the writer may write: it is not empty and within capacity, its
  endpoints are sorted and belong to the group whose address type and ports it carries, and when it
  reuses an existing slice it keeps that slice's name and its address type, which is immutable (I3).
\<close>

theorem planSlices_sound:
  assumes "plan_input_ok existing groups m" and "planSlices existing groups sn m = (plans, orphans)"
    and p: "p \<in> set plans"
  shows "(\<exists>g. g \<in> set groups \<and> sp_AddressType p = g_AddressType g \<and> sp_Ports p = g_Ports g \<and>
            set (sp_Endpoints p) \<subseteq> set (g_Endpoints g)) \<and>
     sp_Endpoints p \<noteq> [] \<and> length (sp_Endpoints p) \<le> m \<and> sorted (map e_Address (sp_Endpoints p)) \<and>
     (case sp_Existing p of
        None \<Rightarrow> sp_Name p \<notin> es_Name ` set existing
      | Some s \<Rightarrow> s \<in> set existing \<and> es_Name s = sp_Name p \<and> es_AddressType s = sp_AddressType p)"
proof -
  note spec = planSlices_spec [OF assms(1,2)]
  obtain g where g: "g \<in> set groups" "plan_ok m g p" using spec(3) p by blast
  have "set (sp_Endpoints p) \<subseteq> set (g_Endpoints g)"
    using plans_of_group(1) [OF assms(1,2) g(1), of p] p plan_ok_key [OF g(2)] by auto
  moreover have "set (old_slices plans) \<subseteq> set existing"
    using spec(2) by (metis mset_eq_setD mset_append set_append Un_upper1)
  then have "s \<in> set existing" if "sp_Existing p = Some s" for s
    using that p by (force simp: List.map_filter_def)
  moreover have "sp_Name p \<notin> es_Name ` set existing" if "sp_Existing p = None"
    using spec(5) p that by auto
  ultimately show ?thesis
    using g by (auto simp: plan_ok_def slice_key_def group_key_def split: option.splits)
qed

theorem planSlices_sound_witness:
  "list_all (\<lambda>p. length (sp_Endpoints p) \<le> 2) (fst (planSlices [] demo_groups ''svc'' 2)) \<and>
   length (fst (planSlices [] demo_groups ''svc'' 2)) = 2"
proof
  obtain plans orphans where p: "planSlices [] demo_groups ''svc'' 2 = (plans, orphans)" by fastforce
  show "list_all (\<lambda>p. length (sp_Endpoints p) \<le> 2) (fst (planSlices [] demo_groups ''svc'' 2))"
    using planSlices_sound [OF demo_input_ok p] by (simp add: p list_all_iff)
  show "length (fst (planSlices [] demo_groups ''svc'' 2)) = 2" unfolding demo_groups_def by code_simp
qed

text \<open>
  Nothing is forgotten and nothing collides: each existing slice is reused by exactly one planned
  slice or is an orphan to delete, never both; planned slices have distinct names, and a slice to
  create has the name of no existing one.
\<close>

theorem planSlices_conserves:
  assumes "plan_input_ok existing groups m" and "planSlices existing groups sn m = (plans, orphans)"
  shows "mset (List.map_filter sp_Existing plans) + mset orphans = mset existing \<and>
     distinct (map sp_Name plans) \<and>
     sp_Name ` {p \<in> set plans. sp_Existing p = None} \<inter> es_Name ` set existing = {}"
  using planSlices_spec(2,4,5) [OF assms] by simp

theorem planSlices_conserves_witness:
  "distinct (map sp_Name (fst (planSlices [] demo_groups ''svc'' 2))) \<and>
   snd (planSlices [] demo_groups ''svc'' 2) = []"
proof -
  obtain plans orphans where p: "planSlices [] demo_groups ''svc'' 2 = (plans, orphans)" by fastforce
  then show ?thesis using planSlices_conserves [OF demo_input_ok p] by simp
qed

text \<open>
  C19: an endpoint that already sits on a slice of its group, and on no other slice of that group, stays
  there (I12): adding or removing other endpoints never moves it, provided the slice lists no more
  addresses than the capacity.
\<close>

theorem planSlices_stable:
  assumes "plan_input_ok existing groups m" and "planSlices existing groups sn m = (plans, orphans)"
    and "g \<in> set groups" and "e \<in> set (g_Endpoints g)" and "s \<in> set existing" and "slice_key s = group_key g"
    and "String (e_Address e) \<in> set (slice_addresses s)" and "length (slice_addresses s) \<le> m"
    and "\<forall>s'\<in>set existing. s' \<noteq> s \<and> slice_key s' = group_key g \<longrightarrow>
           String (e_Address e) \<notin> set (slice_addresses s')"
  shows "\<exists>p. p \<in> set plans \<and> sp_Existing p = Some s \<and> sp_Name p = es_Name s \<and> e \<in> set (sp_Endpoints p)"
proof -
  obtain p where p: "p \<in> set plans" "sp_Existing p = Some s" "e \<in> set (sp_Endpoints p)"
    using planSlices_keep [OF _ assms(3-9), of sn] assms(1,2) by (auto simp: plan_input_ok_def)
  moreover obtain h where "plan_ok m h p" using planSlices_spec(3) [OF assms(1,2)] p(1) by blast
  ultimately show ?thesis by (auto simp: plan_ok_def)
qed

text \<open>
  The plan is a fixed point on slices that already hold what is wanted: nothing is created, nothing
  is deleted, and each planned slice reuses an existing one and assigns to it exactly the addresses it
  holds.
\<close>

theorem planSlices_settled:
  assumes "settled existing groups m" and "planSlices existing groups sn m = (plans, orphans)"
  shows "orphans = [] \<and> mset (List.map_filter sp_Existing plans) = mset existing \<and>
     list_all (\<lambda>p. case sp_Existing p of None \<Rightarrow> False
        | Some s \<Rightarrow> mset (map (\<lambda>e. String (e_Address e)) (sp_Endpoints p)) = mset (slice_addresses s)) plans"
proof -
  have input: "plan_input_ok existing groups m" using assms(1) by (simp add: settled_def)
  note spec = planSlices_spec [OF input assms(2)] and no = settled_no_orphans [OF assms]
  have "case sp_Existing p of None \<Rightarrow> False
        | Some s \<Rightarrow> mset (map (\<lambda>e. String (e_Address e)) (sp_Endpoints p)) = mset (slice_addresses s)"
    if "p \<in> set plans" for p
    using spec(3) settled_plan [OF assms that] that by fastforce
  then show ?thesis using no spec(2) by (simp add: list_all_iff)
qed

end
