(* ===== verification/Slice_Writer.thy ===== *)
theory Slice_Writer
  imports Slice_Plan
begin

text \<open>
  The writer of \<^verbatim>\<open>internal/endpoints/slice.go\<close>: rendering a plan, comparing it with what
  exists, and creating, updating and deleting EndpointSlices.

  The API client is a parameter: a record of its four calls on a state of which nothing is assumed
  except, where a theorem needs it, \<open>slice_store_ok\<close>: what the calls promise about the stored
  objects.  Two more functions of libraries are parameters, the semantic comparison
  \<^verbatim>\<open>equality.Semantic.DeepEqual\<close> (of port lists and of endpoint lists) and the function
  that sets the owner reference.
\<close>

section \<open>Rendering\<close>

definition build_port :: "PortSpec \<Rightarrow> EndpointPort" where
  "build_port ps = \<lparr>epp_Name = Some (psp_Name ps), epp_Port = Some (psp_Port ps),
     epp_Protocol = Some (psp_Protocol ps), epp_AppProtocol = psp_AppProtocol ps\<rparr>"

definition build_endpoint :: "Endpoint \<Rightarrow> SliceEndpoint" where
  "build_endpoint e =
     \<lparr>se_Addresses = [String (e_Address e)],
      se_Ready = Some (e_Ready e), se_Serving = Some (e_Serving e), se_Terminating = Some (e_Terminating e),
      se_Hostname = (if e_Hostname e \<noteq> [] then Some (e_Hostname e) else None),
      se_TargetRef = e_TargetRef e,
      se_NodeName = None,
      se_Zone = (if e_Zone e \<noteq> [] then Some (e_Zone e) else None)\<rparr>"

definition buildSlice :: "CrossService \<Rightarrow> string \<Rightarrow> slicePlan \<Rightarrow> EndpointSlice" where
  "buildSlice xsvc serviceName p =
     \<lparr>es_Name = sp_Name p,
      es_Namespace = xs_Namespace xsvc,
      es_Labels = [ServiceNameLabel \<mapsto> serviceName, ManagedByLabel \<mapsto> ManagedByLabelValue,
        CrossServiceNameLabel \<mapsto> xs_Name xsvc, CrossServiceNamespaceLabel \<mapsto> xs_Namespace xsvc],
      es_OwnerReferences = [],
      es_AddressType = sp_AddressType p,
      es_Ports = map build_port (sp_Ports p),
      es_Endpoints = map build_endpoint (sp_Endpoints p)\<rparr>"

section \<open>Comparing\<close>

definition derefString :: "string option \<Rightarrow> string" where
  "derefString s = (case s of None \<Rightarrow> [] | Some t \<Rightarrow> t)"

definition canonicalSlice :: "EndpointSlice \<Rightarrow> EndpointSlice" where
  "canonicalSlice s =
     s\<lparr>es_Ports := sort_key (\<lambda>p. derefString (epp_Name p)) (es_Ports s),
       es_Endpoints := sort_key (\<lambda>e. join '','' (se_Addresses e))
         (map (\<lambda>e. e\<lparr>se_Addresses := sort (se_Addresses e)\<rparr>) (es_Endpoints s))\<rparr>"

record DeepEqual =
  deq_ports :: "EndpointPort list \<Rightarrow> EndpointPort list \<Rightarrow> bool"
  deq_endpoints :: "SliceEndpoint list \<Rightarrow> SliceEndpoint list \<Rightarrow> bool"

definition sliceEqual :: "DeepEqual \<Rightarrow> EndpointSlice \<Rightarrow> EndpointSlice \<Rightarrow> bool" where
  "sliceEqual deq existing desired =
     (if es_AddressType existing \<noteq> es_AddressType desired then False
      else if \<exists>k\<in>dom (es_Labels desired).
                derefString (es_Labels existing k) \<noteq> the (es_Labels desired k) then False
      else let a = canonicalSlice existing; b = canonicalSlice desired
           in deq_ports deq (es_Ports a) (es_Ports b) \<and> deq_endpoints deq (es_Endpoints a) (es_Endpoints b))"

section \<open>The writer\<close>

record 'st SliceClient =
  slc_List :: "string \<Rightarrow> labels \<Rightarrow> 'st \<Rightarrow> EndpointSlice list result \<times> 'st"
  slc_Create :: "EndpointSlice \<Rightarrow> 'st \<Rightarrow> go_error option \<times> 'st"
  slc_Update :: "EndpointSlice \<Rightarrow> 'st \<Rightarrow> go_error option \<times> 'st"
  slc_Delete :: "EndpointSlice \<Rightarrow> 'st \<Rightarrow> go_error option \<times> 'st"

record 'st Writer =
  w_Client :: "'st SliceClient"
  w_MaxEndpointsPerSlice :: int

definition DefaultMaxEndpointsPerSlice :: nat where
  "DefaultMaxEndpointsPerSlice = 100"

record Outcome =
  out_Created :: "string list"
  out_Updated :: "string list"
  out_Deleted :: "string list"
  out_Unchanged :: "string list"

definition Writes :: "Outcome \<Rightarrow> nat" where
  "Writes out = length (out_Created out) + length (out_Updated out) + length (out_Deleted out)"

definition SliceNames :: "Outcome \<Rightarrow> string list" where
  "SliceNames out = sort (out_Created out @ out_Updated out @ out_Unchanged out)"

definition zero_outcome :: Outcome where
  "zero_outcome = \<lparr>out_Created = [], out_Updated = [], out_Deleted = [], out_Unchanged = []\<rparr>"

definition service_selector :: "string \<Rightarrow> labels" where
  "service_selector serviceName =
     [ServiceNameLabel \<mapsto> serviceName, ManagedByLabel \<mapsto> ManagedByLabelValue]"

definition Writer_list :: "'st Writer \<Rightarrow> string \<Rightarrow> string \<Rightarrow> 'st \<Rightarrow> EndpointSlice list result \<times> 'st" where
  "Writer_list w namespace serviceName st =
     (case slc_List (w_Client w) namespace (service_selector serviceName) st of
        (Inl err, st) \<Rightarrow> (Inl (Wrapped [Lit ''listing endpointslices: ''] err), st)
      | (Inr items, st) \<Rightarrow> (Inr (sort_key es_Name items), st))"

definition merge_slice :: "EndpointSlice \<Rightarrow> EndpointSlice \<Rightarrow> EndpointSlice" where
  "merge_slice existing desired =
     existing\<lparr>es_Labels := es_Labels desired, es_OwnerReferences := es_OwnerReferences desired,
       es_AddressType := es_AddressType desired, es_Ports := es_Ports desired,
       es_Endpoints := es_Endpoints desired\<rparr>"

fun write_plans ::
    "'st Writer \<Rightarrow> DeepEqual \<Rightarrow> (EndpointSlice \<Rightarrow> EndpointSlice result) \<Rightarrow> CrossService \<Rightarrow> string
     \<Rightarrow> slicePlan list \<Rightarrow> Outcome \<Rightarrow> 'st \<Rightarrow> (Outcome \<times> go_error option) \<times> 'st" where
  "write_plans w deq owner xsvc serviceName [] out st = ((out, None), st)"
| "write_plans w deq owner xsvc serviceName (p # plan) out st =
     (case owner (buildSlice xsvc serviceName p) of
        Inl err \<Rightarrow> ((out, Some (Wrapped [Lit ''setting owner on '', Lit (sp_Name p), Lit '': ''] err)), st)
      | Inr desired \<Rightarrow>
          (case sp_Existing p of
             None \<Rightarrow>
               (case slc_Create (w_Client w) desired st of
                  (Some err, st) \<Rightarrow>
                    ((out, Some (Wrapped [Lit ''creating '', Lit (es_Name desired), Lit '': ''] err)), st)
                | (None, st) \<Rightarrow>
                    write_plans w deq owner xsvc serviceName plan
                      (out\<lparr>out_Created := out_Created out @ [es_Name desired]\<rparr>) st)
           | Some existing \<Rightarrow>
               if sliceEqual deq existing desired then
                 write_plans w deq owner xsvc serviceName plan
                   (out\<lparr>out_Unchanged := out_Unchanged out @ [es_Name desired]\<rparr>) st
               else
                 let merged = merge_slice existing desired
                 in (case slc_Update (w_Client w) merged st of
                       (Some err, st) \<Rightarrow>
                         ((out, Some (Wrapped [Lit ''updating '', Lit (es_Name merged), Lit '': ''] err)), st)
                     | (None, st) \<Rightarrow>
                         write_plans w deq owner xsvc serviceName plan
                           (out\<lparr>out_Updated := out_Updated out @ [es_Name merged]\<rparr>) st)))"

fun delete_orphans ::
    "'st Writer \<Rightarrow> EndpointSlice list \<Rightarrow> Outcome \<Rightarrow> 'st \<Rightarrow> (Outcome \<times> go_error option) \<times> 'st" where
  "delete_orphans w [] out st = ((out, None), st)"
| "delete_orphans w (o' # orphans) out st =
     (case slc_Delete (w_Client w) o' st of
        (Some err, st) \<Rightarrow>
          if IsNotFound err
          then delete_orphans w orphans (out\<lparr>out_Deleted := out_Deleted out @ [es_Name o']\<rparr>) st
          else ((out, Some (Wrapped [Lit ''deleting '', Lit (es_Name o'), Lit '': ''] err)), st)
      | (None, st) \<Rightarrow>
          delete_orphans w orphans (out\<lparr>out_Deleted := out_Deleted out @ [es_Name o']\<rparr>) st)"

definition sort_outcome :: "Outcome \<Rightarrow> Outcome" where
  "sort_outcome out = \<lparr>out_Created = sort (out_Created out), out_Updated = sort (out_Updated out),
     out_Deleted = sort (out_Deleted out), out_Unchanged = sort (out_Unchanged out)\<rparr>"

definition max_per :: "'st Writer \<Rightarrow> nat" where
  "max_per w = (if w_MaxEndpointsPerSlice w \<le> 0 then DefaultMaxEndpointsPerSlice
                else nat (w_MaxEndpointsPerSlice w))"

definition Writer_Reconcile ::
    "'st Writer \<Rightarrow> DeepEqual \<Rightarrow> (EndpointSlice \<Rightarrow> EndpointSlice result) \<Rightarrow> CrossService \<Rightarrow> string
     \<Rightarrow> Group list \<Rightarrow> 'st \<Rightarrow> (Outcome \<times> go_error option) \<times> 'st" where
  "Writer_Reconcile w deq owner xsvc serviceName groups st =
     (case Writer_list w (xs_Namespace xsvc) serviceName st of
        (Inl err, st) \<Rightarrow> ((zero_outcome, Some err), st)
      | (Inr existing, st) \<Rightarrow>
          (case planSlices existing groups serviceName (max_per w) of (plan, orphans) \<Rightarrow>
             (case write_plans w deq owner xsvc serviceName plan zero_outcome st of
                ((out, Some err), st) \<Rightarrow> ((out, Some err), st)
              | ((out, None), st) \<Rightarrow>
                  (case delete_orphans w orphans out st of
                     ((out, Some err), st) \<Rightarrow> ((out, Some err), st)
                   | ((out, None), st) \<Rightarrow> ((sort_outcome out, None), st)))))"

section \<open>What the API promises\<close>

definition slice_obj_key :: "EndpointSlice \<Rightarrow> string \<times> string" where
  "slice_obj_key s = (es_Namespace s, es_Name s)"

text \<open>
  \<open>view\<close> reads the stored objects by namespace and name.  A list returns the objects of the namespace
  that carry the labels, once each; a successful create or update stores the object; a successful
  delete, and one that finds nothing, leave the name free.  A call that fails otherwise promises
  nothing.
\<close>

definition slice_store_ok :: "('st \<Rightarrow> (string \<times> string \<rightharpoonup> EndpointSlice)) \<Rightarrow> 'st SliceClient \<Rightarrow> bool" where
  "slice_store_ok view c \<longleftrightarrow>
     (\<forall>st k s. view st k = Some s \<longrightarrow> slice_obj_key s = k) \<and>
     (\<forall>st ns sel items st'. slc_List c ns sel st = (Inr items, st') \<longrightarrow>
        view st' = view st \<and> distinct items \<and>
        set items = {s. view st (slice_obj_key s) = Some s \<and> es_Namespace s = ns \<and> sel \<subseteq>\<^sub>m es_Labels s}) \<and>
     (\<forall>st s st'. slc_Create c s st = (None, st') \<longrightarrow> view st' = (view st)(slice_obj_key s \<mapsto> s)) \<and>
     (\<forall>st s st'. slc_Update c s st = (None, st') \<longrightarrow> view st' = (view st)(slice_obj_key s \<mapsto> s)) \<and>
     (\<forall>st s err st'. slc_Delete c s st = (err, st') \<and> (case err of None \<Rightarrow> True | Some e \<Rightarrow> IsNotFound e) \<longrightarrow>
        view st' = (view st)(slice_obj_key s := None))"

text \<open>The owner function succeeds and sets the owner references only.\<close>

definition owner_ok :: "(EndpointSlice \<Rightarrow> EndpointSlice result) \<Rightarrow> bool" where
  "owner_ok owner \<longleftrightarrow> (\<forall>s. \<exists>refs. owner s = Inr (s\<lparr>es_OwnerReferences := refs\<rparr>))"

text \<open>
  Semantic equality compares by structure; the differences it ignores (a nil and an empty list, for
  one) are not visible in these types.
\<close>

definition deep_equal_ok :: "DeepEqual \<Rightarrow> bool" where
  "deep_equal_ok deq \<longleftrightarrow> (\<forall>x y. deq_ports deq x y \<longleftrightarrow> x = y) \<and> (\<forall>x y. deq_endpoints deq x y \<longleftrightarrow> x = y)"

section \<open>Lemmas: what a slice holds\<close>

lemma slice_ports_cong: "es_Ports s = es_Ports t \<Longrightarrow> portTupleOfSlice s = portTupleOfSlice t"
  by (simp add: portTupleOfSlice_def)

lemma slice_addresses_build:
  "slice_addresses (buildSlice xsvc sn p) = map (\<lambda>e. String (e_Address e)) (sp_Endpoints p)"
  by (simp add: slice_addresses_def buildSlice_def build_endpoint_def comp_def)

lemma portTupleOfSlice_build:
  "sorted (map psp_Name (sp_Ports p)) \<Longrightarrow> portTupleOfSlice (buildSlice xsvc sn p) = sp_Ports p"
  by (simp add: portTupleOfSlice_def buildSlice_def build_port_def comp_def sort_key_id_if_sorted map_idI)

lemma slice_key_build:
  "sorted (map psp_Name (sp_Ports p)) \<Longrightarrow> slice_key (buildSlice xsvc sn p) = plan_key p"
  by (simp add: slice_key_def plan_key_def portTupleOfSlice_build) (simp add: buildSlice_def)

lemma slice_content_cong:
  "es_Ports s = es_Ports t \<Longrightarrow> es_AddressType s = es_AddressType t \<Longrightarrow> slice_key s = slice_key t"
  "es_Endpoints s = es_Endpoints t \<Longrightarrow> slice_addresses s = slice_addresses t"
  by (simp_all add: slice_key_def portTupleOfSlice_def slice_addresses_def)

lemma canonical_addresses:
  "mset (slice_addresses (canonicalSlice s)) = mset (slice_addresses s)"
proof -
  have "mset (concat (map se_Addresses (map (\<lambda>e. e\<lparr>se_Addresses := sort (se_Addresses e)\<rparr>) es))) =
      mset (concat (map se_Addresses es))" for es :: "SliceEndpoint list"
    by (induction es) auto
  moreover have "mset (concat (map se_Addresses (sort_key k es))) = mset (concat (map se_Addresses es))"
    for k :: "SliceEndpoint \<Rightarrow> string" and es
    by (rule mset_concat_map_perm) simp
  ultimately show ?thesis
    unfolding canonicalSlice_def slice_addresses_def by (simp del: map_map)
qed

section \<open>Lemmas: one pass of the writer\<close>

lemma store_list:
  "slice_store_ok view c \<Longrightarrow> slc_List c ns sel st = (Inr items, st') \<Longrightarrow> view st' = view st \<and> distinct items \<and>
     set items = {s. view st (slice_obj_key s) = Some s \<and> es_Namespace s = ns \<and> sel \<subseteq>\<^sub>m es_Labels s}"
  unfolding slice_store_ok_def by blast

lemma store_create:
  "slice_store_ok view c \<Longrightarrow> slc_Create c s st = (None, st') \<Longrightarrow> view st' = (view st)(slice_obj_key s \<mapsto> s)"
  unfolding slice_store_ok_def by blast

lemma store_update:
  "slice_store_ok view c \<Longrightarrow> slc_Update c s st = (None, st') \<Longrightarrow> view st' = (view st)(slice_obj_key s \<mapsto> s)"
  unfolding slice_store_ok_def by blast

lemma store_delete:
  "slice_store_ok view c \<Longrightarrow> slc_Delete c s st = (err, st') \<Longrightarrow>
   (case err of None \<Rightarrow> True | Some e \<Rightarrow> IsNotFound e) \<Longrightarrow> view st' = (view st)(slice_obj_key s := None)"
  unfolding slice_store_ok_def by blast

definition desired_of :: "(EndpointSlice \<Rightarrow> EndpointSlice result) \<Rightarrow> CrossService \<Rightarrow> string \<Rightarrow> slicePlan \<Rightarrow> EndpointSlice" where
  "desired_of owner xsvc sn p = projr (owner (buildSlice xsvc sn p))"

definition final_of ::
    "DeepEqual \<Rightarrow> (EndpointSlice \<Rightarrow> EndpointSlice result) \<Rightarrow> CrossService \<Rightarrow> string \<Rightarrow> slicePlan \<Rightarrow> EndpointSlice" where
  "final_of deq owner xsvc sn p =
     (case sp_Existing p of
        None \<Rightarrow> desired_of owner xsvc sn p
      | Some s \<Rightarrow> if sliceEqual deq s (desired_of owner xsvc sn p) then s
                  else merge_slice s (desired_of owner xsvc sn p))"

lemma desired_fields:
  assumes "owner_ok owner"
  shows "owner (buildSlice xsvc sn p) = Inr (desired_of owner xsvc sn p)"
    and "es_Name (desired_of owner xsvc sn p) = sp_Name p"
    and "es_Namespace (desired_of owner xsvc sn p) = xs_Namespace xsvc"
    and "es_Labels (desired_of owner xsvc sn p) = es_Labels (buildSlice xsvc sn p)"
    and "es_AddressType (desired_of owner xsvc sn p) = sp_AddressType p"
    and "es_Ports (desired_of owner xsvc sn p) = map build_port (sp_Ports p)"
    and "es_Endpoints (desired_of owner xsvc sn p) = map build_endpoint (sp_Endpoints p)"
proof -
  obtain refs where "owner (buildSlice xsvc sn p) = Inr ((buildSlice xsvc sn p)\<lparr>es_OwnerReferences := refs\<rparr>)"
    using assms by (auto simp: owner_ok_def)
  then show "owner (buildSlice xsvc sn p) = Inr (desired_of owner xsvc sn p)"
    "es_Name (desired_of owner xsvc sn p) = sp_Name p"
    "es_Namespace (desired_of owner xsvc sn p) = xs_Namespace xsvc"
    "es_Labels (desired_of owner xsvc sn p) = es_Labels (buildSlice xsvc sn p)"
    "es_AddressType (desired_of owner xsvc sn p) = sp_AddressType p"
    "es_Ports (desired_of owner xsvc sn p) = map build_port (sp_Ports p)"
    "es_Endpoints (desired_of owner xsvc sn p) = map build_endpoint (sp_Endpoints p)"
    by (simp_all add: desired_of_def buildSlice_def)
qed

lemma selector_labels: "service_selector sn \<subseteq>\<^sub>m es_Labels (buildSlice xsvc sn p)"
  by (auto simp: map_le_def service_selector_def buildSlice_def label_defs)

lemma final_meta:
  assumes "owner_ok owner"
    and "\<And>s. sp_Existing p = Some s \<Longrightarrow>
           slice_obj_key s = (xs_Namespace xsvc, sp_Name p) \<and> service_selector sn \<subseteq>\<^sub>m es_Labels s"
  shows "slice_obj_key (final_of deq owner xsvc sn p) = (xs_Namespace xsvc, sp_Name p)"
    and "service_selector sn \<subseteq>\<^sub>m es_Labels (final_of deq owner xsvc sn p)"
proof -
  note d = desired_fields [OF assms(1), of xsvc sn p] and sel = selector_labels [of sn xsvc p]
  have "slice_obj_key (final_of deq owner xsvc sn p) = (xs_Namespace xsvc, sp_Name p) \<and>
    service_selector sn \<subseteq>\<^sub>m es_Labels (final_of deq owner xsvc sn p)"
  proof (cases "sp_Existing p")
    case None
    then show ?thesis using d sel by (simp add: final_of_def slice_obj_key_def)
  next
    case (Some s)
    then show ?thesis using d sel assms(2) [OF Some] by (simp add: final_of_def slice_obj_key_def merge_slice_def)
  qed
  then show "slice_obj_key (final_of deq owner xsvc sn p) = (xs_Namespace xsvc, sp_Name p)"
    "service_selector sn \<subseteq>\<^sub>m es_Labels (final_of deq owner xsvc sn p)" by auto
qed

lemma write_plans_view:
  assumes store: "slice_store_ok view (w_Client w)" and owner: "owner_ok owner"
    and "distinct (map sp_Name plans)"
    and "\<And>p s. p \<in> set plans \<Longrightarrow> sp_Existing p = Some s \<Longrightarrow>
           es_Name s = sp_Name p \<and> es_Namespace s = xs_Namespace xsvc \<and>
           view st (xs_Namespace xsvc, sp_Name p) = Some s"
    and "write_plans w deq owner xsvc sn plans out st = ((out', None), st')"
  shows "view st' k =
     (case find (\<lambda>p. (xs_Namespace xsvc, sp_Name p) = k) plans of
        Some p \<Rightarrow> Some (final_of deq owner xsvc sn p) | None \<Rightarrow> view st k)"
  using assms(3-5)
proof (induction plans arbitrary: out st)
  case (Cons p plans)
  let ?key = "(xs_Namespace xsvc, sp_Name p)"
  let ?d = "desired_of owner xsvc sn p" and ?f = "final_of deq owner xsvc sn p"
  note d = desired_fields [OF owner, of xsvc sn p]
  have "\<exists>out1 st1. write_plans w deq owner xsvc sn plans out1 st1 = ((out', None), st') \<and>
      view st1 = (view st)(?key \<mapsto> ?f)"
  proof (cases "sp_Existing p")
    case None
    with Cons.prems(3) d(1) obtain st1 where c: "slc_Create (w_Client w) ?d st = (None, st1)"
      and rest: "write_plans w deq owner xsvc sn plans (out\<lparr>out_Created := out_Created out @ [es_Name ?d]\<rparr>) st1
        = ((out', None), st')"
      by (auto split: prod.splits option.splits)
    have "view st1 = (view st)(?key \<mapsto> ?f)"
      using store_create [OF store c] d None by (simp add: slice_obj_key_def final_of_def)
    with rest show ?thesis by blast
  next
    case (Some s)
    have s: "es_Name s = sp_Name p" "es_Namespace s = xs_Namespace xsvc" "view st ?key = Some s"
      using Cons.prems(2) [of p s] Some by auto
    show ?thesis
    proof (cases "sliceEqual deq s ?d")
      case True
      with Cons.prems(3) d(1) Some
      have "write_plans w deq owner xsvc sn plans (out\<lparr>out_Unchanged := out_Unchanged out @ [es_Name ?d]\<rparr>) st
          = ((out', None), st')" by simp
      with True Some s(3) show ?thesis by (auto simp: final_of_def map_upd_triv)
    next
      case False
      with Cons.prems(3) d(1) Some obtain st1 where c: "slc_Update (w_Client w) (merge_slice s ?d) st = (None, st1)"
        and rest: "write_plans w deq owner xsvc sn plans
          (out\<lparr>out_Updated := out_Updated out @ [es_Name (merge_slice s ?d)]\<rparr>) st1 = ((out', None), st')"
        by (auto simp: Let_def split: prod.splits option.splits)
      have "view st1 = (view st)(?key \<mapsto> ?f)"
        using store_update [OF store c] s False Some
        by (simp add: slice_obj_key_def final_of_def merge_slice_def)
      with rest show ?thesis by blast
    qed
  qed
  then obtain out1 st1 where rest: "write_plans w deq owner xsvc sn plans out1 st1 = ((out', None), st')"
    and st1: "view st1 = (view st)(?key \<mapsto> ?f)" by blast
  have "es_Name s = sp_Name q \<and> es_Namespace s = xs_Namespace xsvc \<and> view st1 (xs_Namespace xsvc, sp_Name q) = Some s"
    if "q \<in> set plans" "sp_Existing q = Some s" for q s
  proof -
    have "sp_Name q \<noteq> sp_Name p" using Cons.prems(1) that(1) by (force simp: image_iff)
    then show ?thesis using Cons.prems(2) [of q s] that by (simp add: st1)
  qed
  then have "view st' k = (case find (\<lambda>p. (xs_Namespace xsvc, sp_Name p) = k) plans of
        Some p \<Rightarrow> Some (final_of deq owner xsvc sn p) | None \<Rightarrow> view st1 k)"
    using Cons.IH [OF _ _ rest] Cons.prems(1) by simp
  moreover have "find (\<lambda>p. (xs_Namespace xsvc, sp_Name p) = ?key) plans = None"
    using Cons.prems(1) unfolding find_None_iff by simp (metis image_eqI)
  ultimately show ?case by (auto simp: st1 split: option.split)
qed simp

lemma delete_orphans_view:
  assumes store: "slice_store_ok view (w_Client w)"
    and "delete_orphans w orphans out st = ((out', None), st')"
  shows "view st' k = (if k \<in> slice_obj_key ` set orphans then None else view st k)"
  using assms(2)
proof (induction orphans arbitrary: out st)
  case (Cons s orphans)
  then obtain out1 st1 err where del: "slc_Delete (w_Client w) s st = (err, st1)"
      "case err of None \<Rightarrow> True | Some e \<Rightarrow> IsNotFound e"
    and rest: "delete_orphans w orphans out1 st1 = ((out', None), st')"
    by (auto split: prod.splits option.splits if_splits)
  then have "view st1 = (view st)(slice_obj_key s := None)"
    by (intro store_delete [OF store])
  with Cons.IH [OF rest] show ?case by auto
qed simp

section \<open>Lemmas: a whole run\<close>

definition managed ::
    "(string \<times> string \<rightharpoonup> EndpointSlice) \<Rightarrow> string \<Rightarrow> string \<Rightarrow> EndpointSlice set" where
  "managed v ns sn = {s. v (slice_obj_key s) = Some s \<and> es_Namespace s = ns \<and> service_selector sn \<subseteq>\<^sub>m es_Labels s}"

lemma Writer_list_spec:
  assumes store: "slice_store_ok view (w_Client w)" and "Writer_list w ns sn st = (Inr existing, st1)"
  shows "view st1 = view st" "distinct (map es_Name existing)" "sorted (map es_Name existing)"
    "set existing = managed (view st) ns sn"
proof -
  obtain items where items: "slc_List (w_Client w) ns (service_selector sn) st = (Inr items, st1)"
    and ex: "existing = sort_key es_Name items"
    using assms(2) by (auto simp: Writer_list_def split: prod.splits sum.splits)
  then have law: "view st1 = view st \<and> distinct items \<and> set items = managed (view st) ns sn"
    using store_list [OF store] unfolding managed_def by blast
  then have "inj_on es_Name (set items)"
    by (auto simp: inj_on_def managed_def slice_obj_key_def)
  then show "distinct (map es_Name existing)" using law by (simp add: ex distinct_map)
  show "view st1 = view st" "sorted (map es_Name existing)" "set existing = managed (view st) ns sn"
    using law by (simp_all add: ex)
qed

text \<open>The steps of a successful run.\<close>

definition run_steps ::
    "'st Writer \<Rightarrow> DeepEqual \<Rightarrow> (EndpointSlice \<Rightarrow> EndpointSlice result) \<Rightarrow> CrossService \<Rightarrow> string \<Rightarrow> Group list \<Rightarrow> 'st
     \<Rightarrow> EndpointSlice list \<Rightarrow> 'st \<Rightarrow> slicePlan list \<Rightarrow> EndpointSlice list \<Rightarrow> 'st \<Rightarrow> bool" where
  "run_steps w deq owner xsvc sn groups st existing st1 plan orphans st' \<longleftrightarrow>
     Writer_list w (xs_Namespace xsvc) sn st = (Inr existing, st1) \<and>
     planSlices existing groups sn (max_per w) = (plan, orphans) \<and>
     (\<exists>out1 st2 out2. write_plans w deq owner xsvc sn plan zero_outcome st1 = ((out1, None), st2) \<and>
        delete_orphans w orphans out1 st2 = ((out2, None), st'))"

lemma Reconcile_ok_cases:
  assumes "Writer_Reconcile w deq owner xsvc sn groups st = ((out, None), st')"
  obtains existing st1 plan orphans where "run_steps w deq owner xsvc sn groups st existing st1 plan orphans st'"
  using assms by (auto simp: Writer_Reconcile_def run_steps_def split: prod.splits sum.splits option.splits)

text \<open>Groups as the grouping makes them.\<close>

definition groups_ok :: "Group list \<Rightarrow> bool" where
  "groups_ok groups \<longleftrightarrow> distinct (map group_key groups) \<and>
     (\<forall>g\<in>set groups. distinct (map e_Address (g_Endpoints g)) \<and> sorted (map psp_Name (g_Ports g)))"

lemma max_per_pos: "0 < max_per w"
  by (simp add: max_per_def DefaultMaxEndpointsPerSlice_def)

lemma groups_input_ok:
  "groups_ok groups \<Longrightarrow> distinct (map es_Name existing) \<Longrightarrow> plan_input_ok existing groups (max_per w)"
  by (simp add: groups_ok_def plan_input_ok_def max_per_pos)

lemma planned_slices:
  assumes "plan_input_ok existing groups m" and "planSlices existing groups sn m = (plan, orphans)"
  shows "set (old_slices plan) \<union> set orphans = set existing" "set (old_slices plan) \<inter> set orphans = {}"
proof -
  note spec = planSlices_spec [OF assms]
  show "set (old_slices plan) \<union> set orphans = set existing"
    using spec(2) by (metis mset_append mset_eq_setD set_append)
  have "distinct existing" using assms(1) by (simp add: plan_input_ok_def distinct_map)
  then have "distinct (old_slices plan @ orphans)" using spec(2) by (metis mset_append mset_eq_imp_distinct_iff)
  then show "set (old_slices plan) \<inter> set orphans = {}" by simp
qed

lemma planned_existing:
  assumes "plan_input_ok existing groups m" and "planSlices existing groups sn m = (plan, orphans)"
    and "p \<in> set plan" and "sp_Existing p = Some s"
  shows "s \<in> set (old_slices plan)" "s \<in> set existing" "es_Name s = sp_Name p"
proof -
  show old: "s \<in> set (old_slices plan)" using assms(3,4) by (force simp: List.map_filter_def)
  then show "s \<in> set existing" using planned_slices(1) [OF assms(1,2)] by blast
  show "es_Name s = sp_Name p" using planSlices_spec(3) [OF assms(1,2)] assms(3,4) by (fastforce simp: plan_ok_def)
qed

lemma planned_not_orphan:
  assumes "plan_input_ok existing groups m" and "planSlices existing groups sn m = (plan, orphans)"
    and "p \<in> set plan" and "t \<in> set orphans"
  shows "es_Name t \<noteq> sp_Name p"
proof (cases "sp_Existing p")
  case None
  then show ?thesis using planSlices_spec(5) [OF assms(1,2)] planned_slices(1) [OF assms(1,2)] assms(3,4) by auto
next
  case (Some s)
  note old = planned_existing [OF assms(1-3) Some] and slices = planned_slices [OF assms(1,2)]
  have "t \<in> set existing" "t \<noteq> s" using slices assms(4) old(1) by auto
  moreover have "inj_on es_Name (set existing)" using assms(1) by (simp add: plan_input_ok_def distinct_map)
  ultimately show ?thesis using old(2,3) by (metis inj_onD)
qed

text \<open>What the steps leave in the store.\<close>

lemma run_view:
  assumes store: "slice_store_ok view (w_Client w)" and owner: "owner_ok owner" and groups: "groups_ok groups"
    and steps: "run_steps w deq owner xsvc sn groups st existing st1 plan orphans st'"
  shows "plan_input_ok existing groups (max_per w)" and "planSlices existing groups sn (max_per w) = (plan, orphans)"
    and "view st1 = view st" and "set existing = managed (view st) (xs_Namespace xsvc) sn"
    and "p \<in> set plan \<Longrightarrow> sp_Existing p = Some s \<Longrightarrow> es_Name s = sp_Name p \<and> es_Namespace s = xs_Namespace xsvc \<and>
      view st (xs_Namespace xsvc, sp_Name p) = Some s \<and> service_selector sn \<subseteq>\<^sub>m es_Labels s"
    and "p \<in> set plan \<Longrightarrow> slice_obj_key (final_of deq owner xsvc sn p) = (xs_Namespace xsvc, sp_Name p)"
    and "p \<in> set plan \<Longrightarrow> service_selector sn \<subseteq>\<^sub>m es_Labels (final_of deq owner xsvc sn p)"
    and "view st' k = (if k \<in> slice_obj_key ` set orphans then None
      else case find (\<lambda>p. (xs_Namespace xsvc, sp_Name p) = k) plan of
             Some p \<Rightarrow> Some (final_of deq owner xsvc sn p) | None \<Rightarrow> view st k)"
proof -
  obtain out1 st2 out2 where list: "Writer_list w (xs_Namespace xsvc) sn st = (Inr existing, st1)"
    and plan: "planSlices existing groups sn (max_per w) = (plan, orphans)"
    and wp: "write_plans w deq owner xsvc sn plan zero_outcome st1 = ((out1, None), st2)"
    and del: "delete_orphans w orphans out1 st2 = ((out2, None), st')"
    using steps unfolding run_steps_def by blast
  note ls = Writer_list_spec [OF store list]
  show input: "plan_input_ok existing groups (max_per w)" by (rule groups_input_ok [OF groups ls(2)])
  show "planSlices existing groups sn (max_per w) = (plan, orphans)" "view st1 = view st"
    "set existing = managed (view st) (xs_Namespace xsvc) sn"
    by (rule plan ls)+
  have existing: "es_Name s = sp_Name p \<and> es_Namespace s = xs_Namespace xsvc \<and> view st (xs_Namespace xsvc, sp_Name p) = Some s \<and>
      service_selector sn \<subseteq>\<^sub>m es_Labels s" if "p \<in> set plan" "sp_Existing p = Some s" for p s
    using planned_existing(2,3) [OF input plan that] ls(4) by (auto simp: managed_def slice_obj_key_def)
  then show "p \<in> set plan \<Longrightarrow> sp_Existing p = Some s \<Longrightarrow> es_Name s = sp_Name p \<and> es_Namespace s = xs_Namespace xsvc \<and>
      view st (xs_Namespace xsvc, sp_Name p) = Some s \<and> service_selector sn \<subseteq>\<^sub>m es_Labels s" .
  show "slice_obj_key (final_of deq owner xsvc sn p) = (xs_Namespace xsvc, sp_Name p)"
    "service_selector sn \<subseteq>\<^sub>m es_Labels (final_of deq owner xsvc sn p)" if "p \<in> set plan"
    by (rule final_meta [OF owner]; use existing [OF that] in \<open>simp add: slice_obj_key_def\<close>)+
  have "view st2 k = (case find (\<lambda>p. (xs_Namespace xsvc, sp_Name p) = k) plan of
      Some p \<Rightarrow> Some (final_of deq owner xsvc sn p) | None \<Rightarrow> view st1 k)"
    by (rule write_plans_view [OF store owner planSlices_spec(4) [OF input plan] _ wp]) (use existing ls(1) in simp)
  then show "view st' k = (if k \<in> slice_obj_key ` set orphans then None
      else case find (\<lambda>p. (xs_Namespace xsvc, sp_Name p) = k) plan of
             Some p \<Rightarrow> Some (final_of deq owner xsvc sn p) | None \<Rightarrow> view st k)"
    unfolding delete_orphans_view [OF store del] ls(1) by simp
qed

lemma Reconcile_managed:
  assumes store: "slice_store_ok view (w_Client w)" and owner: "owner_ok owner" and groups: "groups_ok groups"
    and steps: "run_steps w deq owner xsvc sn groups st existing st1 plan orphans st'"
  shows "managed (view st') (xs_Namespace xsvc) sn = final_of deq owner xsvc sn ` set plan"
proof (intro set_eqI iffI)
  let ?ns = "xs_Namespace xsvc" and ?final = "final_of deq owner xsvc sn"
  note run = run_view [OF store owner groups steps]
  {
    fix s assume "s \<in> ?final ` set plan"
    then obtain p where p: "p \<in> set plan" "s = ?final p" by blast
    have "(?ns, sp_Name p) \<notin> slice_obj_key ` set orphans"
      using planned_not_orphan [OF run(1,2) p(1)] by (fastforce simp: slice_obj_key_def)
    then have "view st' (?ns, sp_Name p) = Some (?final p)"
      using find_distinct_key [OF planSlices_spec(4) [OF run(1,2)] p(1)] by (simp add: run(8))
    then show "s \<in> managed (view st') ?ns sn"
      using run(6,7) [OF p(1)] p(2) by (auto simp: managed_def slice_obj_key_def)
  }
  fix s assume "s \<in> managed (view st') ?ns sn"
  then have s: "view st' (slice_obj_key s) = Some s" "s \<in> managed (view st) ?ns sn \<or> view st (slice_obj_key s) \<noteq> Some s"
    "es_Namespace s = ?ns"
    by (auto simp: managed_def)
  then have ok: "slice_obj_key s \<notin> slice_obj_key ` set orphans"
    by (auto simp: run(8) split: if_splits)
  show "s \<in> ?final ` set plan"
  proof (cases "find (\<lambda>p. (?ns, sp_Name p) = slice_obj_key s) plan")
    case None
    then have "s \<in> set existing" using ok s by (auto simp: run(4,8))
    then have "s \<in> set (old_slices plan)" using ok planned_slices(1) [OF run(1,2)] by auto
    then obtain p where p: "p \<in> set plan" "sp_Existing p = Some s" by (auto simp: List.map_filter_def)
    with None run(5) [OF p] s(3) show ?thesis by (auto simp: find_None_iff slice_obj_key_def)
  next
    case (Some p)
    then have "s = ?final p" using s(1) ok by (simp add: run(8))
    moreover have "p \<in> set plan" using Some by (auto simp: find_Some_iff)
    ultimately show ?thesis by simp
  qed
qed

section \<open>Lemmas: after a run the slices are settled\<close>

lemma sliceEqual_iff:
  assumes "deep_equal_ok deq"
  shows "sliceEqual deq s d \<longleftrightarrow> es_AddressType s = es_AddressType d \<and>
     (\<forall>k\<in>dom (es_Labels d). derefString (es_Labels s k) = the (es_Labels d k)) \<and>
     es_Ports (canonicalSlice s) = es_Ports (canonicalSlice d) \<and>
     es_Endpoints (canonicalSlice s) = es_Endpoints (canonicalSlice d)"
  using assms by (auto simp: sliceEqual_def Let_def deep_equal_ok_def)

lemma sliceEqual_same_content:
  assumes "deep_equal_ok deq" and "es_AddressType s = es_AddressType d" "es_Labels s = es_Labels d"
    "es_Ports s = es_Ports d" "es_Endpoints s = es_Endpoints d"
  shows "sliceEqual deq s d"
  using assms(2-) by (auto simp: sliceEqual_iff [OF assms(1)] canonicalSlice_def derefString_def)

lemma final_equal:
  assumes "deep_equal_ok deq"
  shows "sliceEqual deq (final_of deq owner xsvc sn p) (desired_of owner xsvc sn p)"
  by (auto simp: final_of_def merge_slice_def sliceEqual_same_content [OF assms] split: option.split)

lemma portTupleOfSlice_canonical: "portTupleOfSlice (canonicalSlice s) = portTupleOfSlice s"
proof -
  have "sort_key psp_Name (map f (sort_key (\<lambda>p. psp_Name (f p)) ps)) = sort_key psp_Name (map f ps)"
    for f :: "EndpointPort \<Rightarrow> PortSpec" and ps
    by (simp add: sort_key_map sort_key_id_if_sorted)
  from this [of "\<lambda>p. \<lparr>psp_Name = derefString (epp_Name p),
      psp_Port = (case epp_Port p of None \<Rightarrow> 0 | Some n \<Rightarrow> n),
      psp_Protocol = (case epp_Protocol p of None \<Rightarrow> ProtocolTCP | Some n \<Rightarrow> n),
      psp_AppProtocol = epp_AppProtocol p\<rparr>" "es_Ports s"]
  show ?thesis by (simp add: portTupleOfSlice_def canonicalSlice_def derefString_def)
qed

lemma final_content:
  assumes "deep_equal_ok deq" "owner_ok owner" and "sorted (map psp_Name (sp_Ports p))"
  shows "slice_key (final_of deq owner xsvc sn p) = plan_key p"
    and "mset (slice_addresses (final_of deq owner xsvc sn p)) = mset (map (\<lambda>e. String (e_Address e)) (sp_Endpoints p))"
proof -
  let ?f = "final_of deq owner xsvc sn p" and ?d = "desired_of owner xsvc sn p"
  have eq: "es_AddressType ?f = es_AddressType ?d" "es_Ports (canonicalSlice ?f) = es_Ports (canonicalSlice ?d)"
    "es_Endpoints (canonicalSlice ?f) = es_Endpoints (canonicalSlice ?d)"
    using final_equal [OF assms(1), of owner xsvc sn p] by (simp_all add: sliceEqual_iff [OF assms(1)])
  have d: "es_AddressType ?d = es_AddressType (buildSlice xsvc sn p)" "es_Ports ?d = es_Ports (buildSlice xsvc sn p)"
     "es_Endpoints ?d = es_Endpoints (buildSlice xsvc sn p)"
    using desired_fields [OF assms(2), of xsvc sn p] by (simp_all add: buildSlice_def)
  have "portTupleOfSlice ?f = portTupleOfSlice ?d"
    using slice_ports_cong [OF eq(2)] by (simp only: portTupleOfSlice_canonical)
  then have "slice_key ?f = slice_key ?d" using eq(1) by (simp add: slice_key_def)
  also have "\<dots> = plan_key p"
    using slice_content_cong(1) [OF d(2,1)] slice_key_build [OF assms(3)] by simp
  finally show "slice_key ?f = plan_key p" .
  have "mset (slice_addresses ?f) = mset (slice_addresses ?d)"
    using canonical_addresses eq(3) slice_content_cong(2) by metis
  then show "mset (slice_addresses ?f) = mset (map (\<lambda>e. String (e_Address e)) (sp_Endpoints p))"
    using slice_content_cong(2) [OF d(3)] slice_addresses_build by metis
qed

lemma plan_ports_sorted:
  "groups_ok groups \<Longrightarrow> g \<in> set groups \<Longrightarrow> plan_ok m g p \<Longrightarrow> sorted (map psp_Name (sp_Ports p))"
  by (simp add: groups_ok_def plan_ok_def)

lemma final_settled:
  assumes ok: "deep_equal_ok deq" "owner_ok owner" and groups: "groups_ok groups"
    and input: "plan_input_ok existing groups m" and plan: "planSlices existing groups sn m = (plan, orphans)"
    and names: "\<And>p. p \<in> set plan \<Longrightarrow> es_Name (final_of deq owner xsvc sn p) = sp_Name p"
  shows "settled (map (final_of deq owner xsvc sn) plan) groups m"
proof -
  let ?final = "final_of deq owner xsvc sn" and ?text = "\<lambda>e. String (e_Address e)"
  note spec = planSlices_spec [OF input plan]
  have content: "slice_key (?final p) = plan_key p"
    "mset (slice_addresses (?final p)) = image_mset ?text (mset (sp_Endpoints p))" if p: "p \<in> set plan" for p
  proof -
    obtain g where "g \<in> set groups" "plan_ok m g p" using spec(3) p by blast
    then have "sorted (map psp_Name (sp_Ports p))" by (rule plan_ports_sorted [OF groups])
    then show "slice_key (?final p) = plan_key p"
      "mset (slice_addresses (?final p)) = image_mset ?text (mset (sp_Endpoints p))"
      using final_content [OF ok] by simp_all
  qed
  have "map es_Name (map ?final plan) = map sp_Name plan" using names by simp
  then have "plan_input_ok (map ?final plan) groups m"
    using input spec(4) by (metis plan_input_ok_def)
  moreover have "slice_key s \<in> group_key ` set groups \<and> slice_addresses s \<noteq> [] \<and> length (slice_addresses s) \<le> m"
    if s: "s \<in> set (map ?final plan)" for s
  proof -
    obtain p where p: "p \<in> set plan" "s = ?final p" using s by auto
    then obtain g where g: "g \<in> set groups" "plan_ok m g p" using spec(3) by blast
    have "length (slice_addresses s) = length (sp_Endpoints p)"
      using content(2) [OF p(1)] p(2) by (metis size_image_mset size_mset)
    then show ?thesis using content(1) [OF p(1)] p(2) g plan_ok_key by (auto simp: plan_ok_def)
  qed
  moreover have "mset (concat (map slice_addresses (filter (\<lambda>s. slice_key s = group_key g) (map ?final plan)))) =
      mset (map ?text (g_Endpoints g))" if g: "g \<in> set groups" for g
  proof -
    have mine: "filter (\<lambda>s. slice_key s = group_key g) (map ?final plan) =
        map ?final (filter (\<lambda>p. plan_key p = group_key g) plan)"
      unfolding filter_map by (rule arg_cong [where f = "map ?final"], rule filter_cong) (simp_all add: content)
    have "mset (concat (map (\<lambda>p. slice_addresses (?final p)) ps)) = image_mset ?text (mset (concat (map sp_Endpoints ps)))"
      if "set ps \<subseteq> set plan" for ps
      using that by (induction ps) (auto simp: content)
    then show ?thesis using spec(1) g by (simp add: mine comp_def)
  qed
  ultimately show ?thesis unfolding settled_def by blast
qed

section \<open>Lemmas: a second run\<close>

lemma write_plans_unchanged:
  assumes "owner_ok owner"
    and "\<forall>p\<in>set plans. \<exists>s. sp_Existing p = Some s \<and> sliceEqual deq s (desired_of owner xsvc sn p)"
  shows "write_plans w deq owner xsvc sn plans out st =
     ((out\<lparr>out_Unchanged := out_Unchanged out @ map sp_Name plans\<rparr>, None), st)"
  using assms(2)
proof (induction plans arbitrary: out)
  case (Cons p plans)
  then obtain s where "sp_Existing p = Some s" "sliceEqual deq s (desired_of owner xsvc sn p)" by auto
  with Cons show ?case by (simp add: desired_fields [OF assms(1)])
qed simp

lemma sorted_same_addresses:
  assumes "set xs \<subseteq> G" "set ys \<subseteq> G" "inj_on e_Address G" "sorted (map e_Address xs)" "sorted (map e_Address ys)"
    "mset (map (\<lambda>e. String (e_Address e)) xs) = mset (map (\<lambda>e. String (e_Address e)) ys)"
  shows "xs = ys"
proof -
  have "mset (map e_Address xs) = mset (map e_Address ys)"
  proof -
    have "image_mset (inv String) (mset (map (\<lambda>e. String (e_Address e)) xs)) =
        image_mset (inv String) (mset (map (\<lambda>e. String (e_Address e)) ys))" using assms(6) by simp
    then show ?thesis by (simp add: image_mset.compositionality comp_def inv_f_f [OF inj_String])
  qed
  then have "map e_Address xs = map e_Address ys"
    using assms(4,5) by (metis properties_for_sort)
  then show ?thesis
    by (rule map_inj_on) (rule inj_on_subset [OF assms(3)], use assms(1,2) in auto)
qed

lemma second_plan_unchanged:
  assumes ok: "deep_equal_ok deq" "owner_ok owner" and groups: "groups_ok groups"
    and input: "plan_input_ok existing groups m" and plan: "planSlices existing groups sn m = (plan, orphans)"
    and names: "\<And>p. p \<in> set plan \<Longrightarrow> es_Name (final_of deq owner xsvc sn p) = sp_Name p"
    and plan2: "planSlices (map (final_of deq owner xsvc sn) plan) groups sn m = (plan2, orphans2)"
    and p2: "p2 \<in> set plan2"
  shows "\<exists>s. sp_Existing p2 = Some s \<and> sliceEqual deq s (desired_of owner xsvc sn p2)"
proof -
  let ?final = "final_of deq owner xsvc sn"
  have st: "settled (map ?final plan) groups m" by (rule final_settled [OF ok groups input plan names])
  then have input2: "plan_input_ok (map ?final plan) groups m" by (simp add: settled_def)
  note spec = planSlices_spec [OF input plan] and spec2 = planSlices_spec [OF input2 plan2]
  obtain g where g: "g \<in> set groups" "plan_ok m g p2" using spec2(3) p2 by blast
  obtain s where s: "s \<in> set (map ?final plan)" "sp_Existing p2 = Some s" "slice_key s = group_key g"
    "mset (map (\<lambda>e. String (e_Address e)) (sp_Endpoints p2)) = mset (slice_addresses s)"
    using settled_plan [OF st plan2 p2 g] by blast
  then obtain p where p: "p \<in> set plan" "s = ?final p" by auto
  obtain h where h: "h \<in> set groups" "plan_ok m h p" using spec(3) p(1) by blast
  have "sorted (map psp_Name (sp_Ports p))" by (rule plan_ports_sorted [OF groups h])
  note content = final_content [OF ok this, of xsvc sn]
  have key: "plan_key p = group_key g" using content(1) s(3) p(2) by simp
  then have "h = g" using plan_ok_key [OF h(2)] groups g(1) h(1) by (auto simp: groups_ok_def distinct_map dest: inj_onD)
  have "sp_Endpoints p2 = sp_Endpoints p"
  proof (rule sorted_same_addresses)
    show "set (sp_Endpoints p2) \<subseteq> set (g_Endpoints g)"
      using plans_of_group(1) [OF input2 plan2 g(1), of p2] p2 plan_ok_key [OF g(2)] by auto
    show "set (sp_Endpoints p) \<subseteq> set (g_Endpoints g)"
      using plans_of_group(1) [OF input plan g(1), of p] p(1) key by auto
    show "inj_on e_Address (set (g_Endpoints g))" using groups g(1) by (auto simp: groups_ok_def distinct_map)
    show "sorted (map e_Address (sp_Endpoints p2))" "sorted (map e_Address (sp_Endpoints p))"
      using g h by (simp_all add: plan_ok_def)
    show "mset (map (\<lambda>e. String (e_Address e)) (sp_Endpoints p2)) = mset (map (\<lambda>e. String (e_Address e)) (sp_Endpoints p))"
      using s(4) content(2) p(2) by simp
  qed
  moreover have "sp_Name p2 = sp_Name p" using g(2) s(2) names [OF p(1)] p(2) by (simp add: plan_ok_def)
  ultimately have "buildSlice xsvc sn p2 = buildSlice xsvc sn p"
    using g(2) h(2) \<open>h = g\<close> by (simp add: buildSlice_def plan_ok_def)
  then have "desired_of owner xsvc sn p2 = desired_of owner xsvc sn p" by (simp add: desired_of_def)
  then show ?thesis using final_equal [OF ok(1), of owner xsvc sn p] s(2) p(2) by simp
qed

lemma relist_eq:
  assumes store: "slice_store_ok view (w_Client w)" and owner: "owner_ok owner" and groups: "groups_ok groups"
    and steps: "run_steps w deq owner xsvc sn groups st existing st1 plan orphans st'"
    and v: "view t = view st'" and list2: "Writer_list w (xs_Namespace xsvc) sn t = (Inr existing2, t')"
  shows "existing2 = map (final_of deq owner xsvc sn) plan"
proof (rule map_sorted_distinct_set_unique [where f = es_Name])
  let ?final = "final_of deq owner xsvc sn"
  note ls = Writer_list_spec [OF store list2] and run = run_view [OF store owner groups steps]
  have eq: "map es_Name (map ?final plan) = map sp_Name plan" using run(6) by (simp add: slice_obj_key_def)
  show "sorted (map es_Name existing2)" "distinct (map es_Name existing2)" using ls by auto
  show "distinct (map es_Name (map ?final plan))" unfolding eq by (rule planSlices_spec(4) [OF run(1,2)])
  show "sorted (map es_Name (map ?final plan))"
    unfolding eq using run(2) by (auto simp: planSlices_unfold split: prod.splits)
  show "set existing2 = set (map ?final plan)"
    using ls(4) v Reconcile_managed [OF store owner groups steps] by simp
  then show "inj_on es_Name (set existing2 \<union> set (map ?final plan))"
    using ls(2) by (simp add: distinct_map)
qed

lemma map_old_slices:
  "\<forall>p\<in>set ps. \<exists>s. sp_Existing p = Some s \<and> es_Name s = sp_Name p \<Longrightarrow>
     map es_Name (old_slices ps) = map sp_Name ps"
  by (induction ps) (auto simp: List.map_filter_simps)

lemma settled_names:
  assumes st: "settled existing groups m" and plan: "planSlices existing groups sn m = (plan, orphans)"
    and sorted: "sorted (map es_Name existing)"
  shows "map sp_Name plan = map es_Name existing"
proof -
  have input: "plan_input_ok existing groups m" using st by (simp add: settled_def)
  note spec = planSlices_spec [OF input plan]
  have "\<exists>s. sp_Existing p = Some s \<and> es_Name s = sp_Name p" if p: "p \<in> set plan" for p
  proof -
    obtain g where g: "g \<in> set groups" "plan_ok m g p" using spec(3) p by blast
    then show ?thesis using settled_plan [OF st plan p g] by (auto simp: plan_ok_def)
  qed
  then have "map sp_Name plan = map es_Name (old_slices plan)" using map_old_slices by simp
  moreover have "mset (old_slices plan) = mset existing" using spec(2) settled_no_orphans [OF st plan] by simp
  ultimately have "mset (map sp_Name plan) = mset (map es_Name existing)" by (simp only: mset_map)
  moreover have "sorted (map sp_Name plan)" using plan by (auto simp: planSlices_unfold split: prod.splits)
  ultimately have "sort (map es_Name existing) = map sp_Name plan" by (rule properties_for_sort)
  then show ?thesis using sorted by (simp add: sorted_sort_id)
qed

text \<open>
  What a run finds that starts, with the same groups, where a successful one has stopped: the stored slices hold the
  groups, and its plan keeps every one of them as it is.
\<close>

lemma second_run:
  assumes store: "slice_store_ok view (w_Client w)" and ok: "owner_ok owner" "deep_equal_ok deq" and groups: "groups_ok groups"
    and run: "Writer_Reconcile w deq owner xsvc sn groups st = ((out, None), st')"
    and v: "view t = view st'" and list2: "Writer_list w (xs_Namespace xsvc) sn t = (Inr existing, t')"
  obtains plan where "planSlices existing groups sn (max_per w) = (plan, [])" and "settled existing groups (max_per w)"
    and "\<forall>p\<in>set plan. \<exists>s. sp_Existing p = Some s \<and> sliceEqual deq s (desired_of owner xsvc sn p)"
    and "map sp_Name plan = map es_Name existing"
proof -
  obtain existing0 st1 plan0 orphans0 where steps: "run_steps w deq owner xsvc sn groups st existing0 st1 plan0 orphans0 st'"
    using Reconcile_ok_cases [OF run] by metis
  note first = run_view [OF store ok(1) groups steps]
  have names: "es_Name (final_of deq owner xsvc sn p) = sp_Name p" if "p \<in> set plan0" for p
    using first(6) [OF that] by (simp add: slice_obj_key_def)
  have ex: "existing = map (final_of deq owner xsvc sn) plan0"
    by (rule relist_eq [OF store ok(1) groups steps v list2])
  obtain plan orphans where plan: "planSlices existing groups sn (max_per w) = (plan, orphans)" by fastforce
  have st: "settled existing groups (max_per w)"
    unfolding ex by (rule final_settled [OF ok(2,1) groups first(1,2) names])
  show ?thesis
  proof (rule that)
    show "planSlices existing groups sn (max_per w) = (plan, [])" using plan settled_no_orphans [OF st plan] by simp
    show "\<forall>p\<in>set plan. \<exists>s. sp_Existing p = Some s \<and> sliceEqual deq s (desired_of owner xsvc sn p)"
      using second_plan_unchanged [OF ok(2,1) groups first(1,2) names] plan unfolding ex by blast
    show "map sp_Name plan = map es_Name existing"
      by (rule settled_names [OF st plan Writer_list_spec(3) [OF store list2]])
  qed (rule st)
qed

section \<open>A store in memory\<close>

text \<open>
  The concrete client of the witnesses: the objects in a list, the most recent first; calls do not
  fail.
\<close>

definition mem_view :: "EndpointSlice list \<Rightarrow> (string \<times> string \<rightharpoonup> EndpointSlice)" where
  "mem_view st k = find (\<lambda>s. slice_obj_key s = k) st"

definition mem_client :: "EndpointSlice list SliceClient" where
  "mem_client =
     \<lparr>slc_List = (\<lambda>ns sel st. (Inr (filter (\<lambda>s. mem_view st (slice_obj_key s) = Some s \<and>
         es_Namespace s = ns \<and> sel \<subseteq>\<^sub>m es_Labels s) (remdups st)), st)),
      slc_Create = (\<lambda>s st. (None, s # st)),
      slc_Update = (\<lambda>s st. (None, s # st)),
      slc_Delete = (\<lambda>s st. (None, filter (\<lambda>t. slice_obj_key t \<noteq> slice_obj_key s) st))\<rparr>"

lemma mem_store_ok: "slice_store_ok mem_view mem_client"
proof -
  have member: "s \<in> set st" if "mem_view st k = Some s" for st k s
    using that by (auto simp: mem_view_def find_Some_iff)
  have delete: "mem_view (filter (\<lambda>t. slice_obj_key t \<noteq> slice_obj_key s) st) = (mem_view st)(slice_obj_key s := None)" for s st
    by (rule ext, induction st) (auto simp: mem_view_def)
  have key: "slice_obj_key s = k" if "mem_view st k = Some s" for st k s
    using that by (auto simp: mem_view_def find_Some_iff)
  show ?thesis
    unfolding slice_store_ok_def mem_client_def
    by (auto simp: delete dest: member key) (auto simp: mem_view_def)
qed

definition demo_writer :: "EndpointSlice list Writer" where
  "demo_writer = \<lparr>w_Client = mem_client, w_MaxEndpointsPerSlice = 2\<rparr>"

definition demo_deq :: DeepEqual where
  "demo_deq = \<lparr>deq_ports = (=), deq_endpoints = (=)\<rparr>"

definition demo_owner :: "EndpointSlice \<Rightarrow> EndpointSlice result" where
  "demo_owner s = Inr (s\<lparr>es_OwnerReferences := [\<lparr>ow_Kind = ''CrossService'', ow_Name = ''x'', ow_UID = ''u''\<rparr>]\<rparr>)"

lemma demo_params_ok: "slice_store_ok mem_view (w_Client demo_writer)" "owner_ok demo_owner" "deep_equal_ok demo_deq"
  by (auto simp: demo_writer_def mem_store_ok owner_ok_def demo_owner_def deep_equal_ok_def demo_deq_def)

lemma demo_groups_ok: "groups_ok demo_groups"
  unfolding groups_ok_def demo_groups_def by code_simp

definition demo_xsvc :: CrossService where
  "demo_xsvc = \<lparr>xs_Name = ''x'', xs_Namespace = ''default'', xs_UID = ''u'', xs_Generation = 1,
     xs_Spec = \<lparr>spec_Ports = demo_ports, spec_Source = zero_source, spec_Service = None,
       spec_IPFamilyPolicy = IPFamilyPolicyIPv4, spec_FailurePolicy = None\<rparr>,
     xs_Status = zero_status\<rparr>"

lemma demo_run:
  "\<exists>out st' existing. Writer_Reconcile demo_writer demo_deq demo_owner xsvc sn demo_groups [] = ((out, None), st') \<and>
     Writer_list demo_writer (xs_Namespace xsvc) sn st' = (Inr existing, st')"
proof -
  have wr: "\<exists>out' st'. write_plans demo_writer demo_deq demo_owner xsvc sn plans out st = ((out', None), st')" for plans out st
    by (induction plans arbitrary: out st)
       (auto simp: demo_writer_def mem_client_def demo_owner_def Let_def split: option.split)
  have delete: "\<exists>out' st'. delete_orphans demo_writer orphans out st = ((out', None), st')" for orphans out st
    by (induction orphans arbitrary: out st) (auto simp: demo_writer_def mem_client_def)
  have list: "\<exists>existing. Writer_list demo_writer ns sn st = (Inr existing, st)" for ns st
    by (auto simp: Writer_list_def demo_writer_def mem_client_def)
  obtain existing where l: "Writer_list demo_writer (xs_Namespace xsvc) sn [] = (Inr existing, [])" using list by blast
  obtain plan orphans where p: "planSlices existing demo_groups sn (max_per demo_writer) = (plan, orphans)" by force
  obtain out1 st1 where w: "write_plans demo_writer demo_deq demo_owner xsvc sn plan zero_outcome [] = ((out1, None), st1)"
    using wr by blast
  obtain out2 st2 where d: "delete_orphans demo_writer orphans out1 st1 = ((out2, None), st2)" using delete by blast
  have "Writer_Reconcile demo_writer demo_deq demo_owner xsvc sn demo_groups [] = ((sort_outcome out2, None), st2)"
    by (simp add: Writer_Reconcile_def l p w d)
  then show ?thesis using list by blast
qed

text \<open>Witnesses of the planner's properties that start from existing slices.\<close>

definition demo_slice :: EndpointSlice where
  "demo_slice = buildSlice demo_xsvc ''svc'' \<lparr>sp_Name = ''svc-ipv4-7'', sp_AddressType = AddressTypeIPv4,
     sp_Ports = g_Ports (demo_groups ! 0), sp_Endpoints = g_Endpoints (demo_groups ! 0), sp_Existing = None\<rparr>"

theorem planSlices_stable_witness:
  "\<exists>p. p \<in> set (fst (planSlices [demo_slice] demo_groups ''svc'' 2)) \<and> sp_Existing p = Some demo_slice \<and>
     sp_Name p = es_Name demo_slice \<and> hd (g_Endpoints (demo_groups ! 0)) \<in> set (sp_Endpoints p)"
proof -
  obtain plans orphans where p: "planSlices [demo_slice] demo_groups ''svc'' 2 = (plans, orphans)" by fastforce
  have input: "plan_input_ok [demo_slice] demo_groups 2"
    using demo_input_ok by (simp add: plan_input_ok_def)
  have g: "demo_groups ! 0 \<in> set demo_groups"
    by (rule nth_mem) (unfold demo_groups_def, code_simp)
  have "g_Endpoints (demo_groups ! 0) \<noteq> []" unfolding demo_groups_def by code_simp
  then have e: "hd (g_Endpoints (demo_groups ! 0)) \<in> set (g_Endpoints (demo_groups ! 0))" by simp
  have key: "slice_key demo_slice = group_key (demo_groups ! 0)"
    and "length (slice_addresses demo_slice) \<le> 2"
    and "String (e_Address (hd (g_Endpoints (demo_groups ! 0)))) \<in> set (slice_addresses demo_slice)"
    unfolding demo_slice_def demo_xsvc_def demo_groups_def by code_simp+
  then show ?thesis
    using planSlices_stable [OF input p g e _ key] by (simp add: p)
qed

lemma demo_settled:
  "settled (map (final_of demo_deq demo_owner demo_xsvc ''svc'') (fst (planSlices [] demo_groups ''svc'' 2))) demo_groups 2"
proof -
  obtain plans orphans where p: "planSlices [] demo_groups ''svc'' 2 = (plans, orphans)" by fastforce
  have "old_slices plans = []" using planSlices_spec(2) [OF demo_input_ok p] by simp
  then have "es_Name (final_of demo_deq demo_owner demo_xsvc ''svc'' q) = sp_Name q" if "q \<in> set plans" for q
    using that desired_fields(2) [OF demo_params_ok(2), of demo_xsvc "''svc''" q]
    by (auto simp: final_of_def List.map_filter_def filter_empty_conv)
  then show ?thesis
    using final_settled [OF demo_params_ok(3,2) demo_groups_ok demo_input_ok p] by (simp add: p)
qed

theorem planSlices_settled_witness:
  "snd (planSlices (map (final_of demo_deq demo_owner demo_xsvc ''svc'') (fst (planSlices [] demo_groups ''svc'' 2)))
     demo_groups ''svc'' 2) = [] \<and> length (fst (planSlices [] demo_groups ''svc'' 2)) = 2"
proof
  obtain plans orphans where
    "planSlices (map (final_of demo_deq demo_owner demo_xsvc ''svc'') (fst (planSlices [] demo_groups ''svc'' 2)))
     demo_groups ''svc'' 2 = (plans, orphans)" by fastforce
  then show "snd (planSlices (map (final_of demo_deq demo_owner demo_xsvc ''svc'')
      (fst (planSlices [] demo_groups ''svc'' 2))) demo_groups ''svc'' 2) = []"
    using planSlices_settled [OF demo_settled] by simp
  show "length (fst (planSlices [] demo_groups ''svc'' 2)) = 2" unfolding demo_groups_def by code_simp
qed

section \<open>Properties\<close>

text \<open>
  A successful run leaves the cluster settled: listing the service's managed slices afterwards gives
  slices that hold, group by group, exactly the addresses wanted, in slices of at most the configured
  size, with no other managed slice left.
\<close>

theorem Reconcile_settles:
  assumes "slice_store_ok view (w_Client w)" and "owner_ok owner" and "deep_equal_ok deq" and "groups_ok groups"
    and "Writer_Reconcile w deq owner xsvc sn groups st = ((out, None), st')"
    and "Writer_list w (xs_Namespace xsvc) sn st' = (Inr existing, st'')"
  shows "settled existing groups (max_per w)"
  using second_run [OF assms(1-5) refl assms(6)] by metis

theorem Reconcile_settles_witness:
  "\<exists>out st' existing.
     Writer_Reconcile demo_writer demo_deq demo_owner demo_xsvc ''svc'' demo_groups [] = ((out, None), st') \<and>
     Writer_list demo_writer (xs_Namespace demo_xsvc) ''svc'' st' = (Inr existing, st') \<and>
     settled existing demo_groups (max_per demo_writer)"
  using demo_run [of demo_xsvc "''svc''"] Reconcile_settles [OF demo_params_ok demo_groups_ok] by blast

text \<open>
  C7: the writer is idempotent (I7, I12): a run with the same groups after a successful one performs no
  write at all, provided the list call succeeds; it reports every slice as unchanged and leaves the
  stored objects alone.
\<close>

theorem Reconcile_idempotent:
  assumes "slice_store_ok view (w_Client w)" and "owner_ok owner" and "deep_equal_ok deq" and "groups_ok groups"
    and "Writer_Reconcile w deq owner xsvc sn groups st = ((out, None), st')"
    and "Writer_list w (xs_Namespace xsvc) sn st' = (Inr existing, st'')"
  shows "\<exists>out'. Writer_Reconcile w deq owner xsvc sn groups st' = ((out', None), st'') \<and>
     Writes out' = 0 \<and> SliceNames out' = map es_Name existing \<and> view st'' = view st'"
proof -
  obtain plan where plan: "planSlices existing groups sn (max_per w) = (plan, [])" "map sp_Name plan = map es_Name existing"
    and same: "\<forall>p\<in>set plan. \<exists>s. sp_Existing p = Some s \<and> sliceEqual deq s (desired_of owner xsvc sn p)"
    using second_run [OF assms(1-5) refl assms(6)] by metis
  have "write_plans w deq owner xsvc sn plan zero_outcome st'' =
      ((zero_outcome\<lparr>out_Unchanged := map sp_Name plan\<rparr>, None), st'')"
    using write_plans_unchanged [OF assms(2) same, of w zero_outcome st''] by (simp add: zero_outcome_def)
  moreover have "sort (map es_Name existing) = map es_Name existing"
    by (rule sorted_sort_id [OF Writer_list_spec(3) [OF assms(1,6)]])
  ultimately show ?thesis
    using assms(6) plan Writer_list_spec(1) [OF assms(1,6)]
    by (simp add: Writer_Reconcile_def sort_outcome_def Writes_def SliceNames_def zero_outcome_def)
qed

theorem Reconcile_idempotent_witness:
  "\<exists>out st' out2.
     Writer_Reconcile demo_writer demo_deq demo_owner demo_xsvc ''svc'' demo_groups [] = ((out, None), st') \<and>
     Writer_Reconcile demo_writer demo_deq demo_owner demo_xsvc ''svc'' demo_groups st' = ((out2, None), st') \<and>
     Writes out2 = 0"
  using demo_run [of demo_xsvc "''svc''"] Reconcile_idempotent [OF demo_params_ok demo_groups_ok] by blast

text \<open>
  What is written obeys the fixed rules of a slice: the service label and the managed-by label are
  both set (I8), no endpoint names a node (I5), each has exactly one address in text form, and reading
  the ports back gives the tuple they were made from, so the next run finds the slice in its group.
\<close>

theorem buildSlice_rules:
  assumes "sorted (map psp_Name (sp_Ports p))"
  shows "es_Labels (buildSlice xsvc sn p) ServiceNameLabel = Some sn \<and>
     es_Labels (buildSlice xsvc sn p) ManagedByLabel = Some ManagedByLabelValue \<and>
     list_all (\<lambda>e. se_NodeName e = None) (es_Endpoints (buildSlice xsvc sn p)) \<and>
     map se_Addresses (es_Endpoints (buildSlice xsvc sn p)) =
       map (\<lambda>e. [String (e_Address e)]) (sp_Endpoints p) \<and>
     slice_key (buildSlice xsvc sn p) = plan_key p \<and>
     portTupleOfSlice (buildSlice xsvc sn p) = sp_Ports p"
  using slice_key_build [OF assms] portTupleOfSlice_build [OF assms]
  by (simp add: list_all_iff) (simp add: buildSlice_def build_endpoint_def label_defs)

theorem buildSlice_rules_witness:
  "portTupleOfSlice (buildSlice demo_xsvc ''svc'' \<lparr>sp_Name = ''svc-ipv4-0'', sp_AddressType = AddressTypeIPv4,
     sp_Ports = [\<lparr>psp_Name = ''adm'', psp_Port = 81, psp_Protocol = ProtocolTCP, psp_AppProtocol = None\<rparr>,
                 \<lparr>psp_Name = ''web'', psp_Port = 80, psp_Protocol = ProtocolTCP, psp_AppProtocol = None\<rparr>],
     sp_Endpoints = demo_endpoints, sp_Existing = None\<rparr>) =
   [\<lparr>psp_Name = ''adm'', psp_Port = 81, psp_Protocol = ProtocolTCP, psp_AppProtocol = None\<rparr>,
    \<lparr>psp_Name = ''web'', psp_Port = 80, psp_Protocol = ProtocolTCP, psp_AppProtocol = None\<rparr>]"
proof -
  have "sorted (map psp_Name
     [\<lparr>psp_Name = ''adm'', psp_Port = 81, psp_Protocol = ProtocolTCP, psp_AppProtocol = None\<rparr>,
      \<lparr>psp_Name = ''web'', psp_Port = 80, psp_Protocol = ProtocolTCP, psp_AppProtocol = None\<rparr>])"
    by code_simp
  then show ?thesis by (intro buildSlice_rules [THEN conjunct2, THEN conjunct2, THEN conjunct2,
      THEN conjunct2, THEN conjunct2, of "\<lparr>sp_Name = ''svc-ipv4-0'', sp_AddressType = AddressTypeIPv4,
        sp_Ports = _, sp_Endpoints = demo_endpoints, sp_Existing = None\<rparr>", simplified])
qed

end
