(* ===== verification/Service_Reconcile.thy ===== *)
theory Service_Reconcile
  imports Endpoint_Group
begin

text \<open>
  \<^verbatim>\<open>internal/service/service.go\<close>: the selector-less Service in front of the endpoints.

  The API client is a parameter, the record \<open>ServiceClient\<close>; a create or an update returns the object
  as the server stored it, which is what the Go client writes back into its argument.  Parameters too are
  \<^verbatim>\<open>equality.Semantic.DeepEqual\<close>, \<^verbatim>\<open>IntOrString.IntValue\<close> and the function that sets
  the owner reference.
\<close>

section \<open>Model\<close>

definition NameFor :: "CrossService \<Rightarrow> string" where
  "NameFor xsvc =
     (case spec_Service (xs_Spec xsvc) of
        None \<Rightarrow> xs_Name xsvc
      | Some t \<Rightarrow> if st_Name t \<noteq> [] then st_Name t else xs_Name xsvc)"

definition mergeMap :: "labels \<Rightarrow> labels \<Rightarrow> labels" where
  "mergeMap base overlay = base ++ overlay"

definition zero_template :: ServiceTemplate where
  "zero_template = \<lparr>st_Name = [], st_Labels = Map.empty, st_Annotations = Map.empty, st_ClusterIP = [],
     st_InternalTrafficPolicy = None, st_SessionAffinity = None, st_PublishNotReadyAddresses = False,
     st_TopologyHints = False\<rparr>"

definition service_port :: "CrossServicePort \<Rightarrow> ServicePort" where
  "service_port p =
     \<lparr>svp_Name = csp_Name p, svp_Port = csp_Port p,
      svp_Protocol = (if csp_Protocol p = [] then ProtocolTCP else csp_Protocol p),
      svp_AppProtocol = csp_AppProtocol p, svp_TargetPort = IntVal 0, svp_NodePort = 0\<rparr>"

definition Build :: "CrossService \<Rightarrow> Service" where
  "Build xsvc =
     (let tmpl = (case spec_Service (xs_Spec xsvc) of None \<Rightarrow> zero_template | Some t \<Rightarrow> t)
      in \<lparr>svc_Name = NameFor xsvc, svc_Namespace = xs_Namespace xsvc,
          svc_Labels = [CrossServiceNameLabel \<mapsto> xs_Name xsvc, CrossServiceNamespaceLabel \<mapsto> xs_Namespace xsvc]
             ++ st_Labels tmpl,
          svc_Annotations = mergeMap Map.empty (st_Annotations tmpl),
          svc_OwnerReferences = [],
          svc_Spec =
            \<lparr>ss_Ports = map service_port (spec_Ports (xs_Spec xsvc)),
             ss_Selector = None, ss_ClusterIP = st_ClusterIP tmpl, ss_Type = [],
             ss_SessionAffinity = (case st_SessionAffinity tmpl of None \<Rightarrow> [] | Some a \<Rightarrow> a),
             ss_PublishNotReadyAddresses = st_PublishNotReadyAddresses tmpl,
             ss_InternalTrafficPolicy = st_InternalTrafficPolicy tmpl,
             ss_IPFamilyPolicy =
               (if spec_IPFamilyPolicy (xs_Spec xsvc) = IPFamilyPolicyPreferDualStack
                then Some ''PreferDualStack'' else None)\<rparr>,
          svc_Ingress = []\<rparr>)"

definition merge_port :: "(IntOrString \<Rightarrow> int) \<Rightarrow> (string \<rightharpoonup> ServicePort) \<Rightarrow> ServicePort \<Rightarrow> ServicePort" where
  "merge_port intValue byName d =
     (case byName (svp_Name d) of
        None \<Rightarrow> d
      | Some c \<Rightarrow>
          let d = (if intValue (svp_TargetPort d) = 0 \<and>
                      (case svp_TargetPort d of IntVal _ \<Rightarrow> True | StrVal s \<Rightarrow> s = [])
                   then d\<lparr>svp_TargetPort := svp_TargetPort c\<rparr> else d)
          in if svp_NodePort d = 0 then d\<lparr>svp_NodePort := svp_NodePort c\<rparr> else d)"

definition mergePorts :: "(IntOrString \<Rightarrow> int) \<Rightarrow> ServicePort list \<Rightarrow> ServicePort list \<Rightarrow> ServicePort list" where
  "mergePorts intValue current desired =
     (let byName = foldl (\<lambda>m p. m(svp_Name p \<mapsto> p)) Map.empty current
      in map (merge_port intValue byName) desired)"

record 'st ServiceClient =
  svcc_Get :: "NamespacedName \<Rightarrow> 'st \<Rightarrow> Service result \<times> 'st"
  svcc_Create :: "Service \<Rightarrow> 'st \<Rightarrow> Service result \<times> 'st"
  svcc_Update :: "Service \<Rightarrow> 'st \<Rightarrow> Service result \<times> 'st"

record ServiceEqual =
  seq_spec :: "ServiceSpec \<Rightarrow> ServiceSpec \<Rightarrow> bool"
  seq_map :: "labels \<Rightarrow> labels \<Rightarrow> bool"
  seq_owners :: "OwnerReference list \<Rightarrow> OwnerReference list \<Rightarrow> bool"

definition merge_service :: "(IntOrString \<Rightarrow> int) \<Rightarrow> Service \<Rightarrow> Service \<Rightarrow> Service" where
  "merge_service intValue current desired =
     (let spec = (svc_Spec current)
            \<lparr>ss_Ports := mergePorts intValue (ss_Ports (svc_Spec current)) (ss_Ports (svc_Spec desired)),
             ss_Selector := None,
             ss_PublishNotReadyAddresses := ss_PublishNotReadyAddresses (svc_Spec desired)\<rparr>;
          spec = (if ss_InternalTrafficPolicy (svc_Spec desired) \<noteq> None
                  then spec\<lparr>ss_InternalTrafficPolicy := ss_InternalTrafficPolicy (svc_Spec desired)\<rparr> else spec);
          spec = (if ss_SessionAffinity (svc_Spec desired) \<noteq> []
                  then spec\<lparr>ss_SessionAffinity := ss_SessionAffinity (svc_Spec desired)\<rparr> else spec)
      in current\<lparr>svc_Labels := mergeMap (svc_Labels current) (svc_Labels desired),
           svc_Annotations := mergeMap (svc_Annotations current) (svc_Annotations desired),
           svc_OwnerReferences := svc_OwnerReferences desired, svc_Spec := spec\<rparr>)"

definition same_service :: "ServiceEqual \<Rightarrow> Service \<Rightarrow> Service \<Rightarrow> bool" where
  "same_service deq current merged \<longleftrightarrow>
     seq_spec deq (svc_Spec current) (svc_Spec merged) \<and> seq_map deq (svc_Labels current) (svc_Labels merged) \<and>
     seq_map deq (svc_Annotations current) (svc_Annotations merged) \<and>
     seq_owners deq (svc_OwnerReferences current) (svc_OwnerReferences merged)"

text \<open>The Service, and whether it was written.\<close>

definition Service_Reconcile ::
    "(IntOrString \<Rightarrow> int) \<Rightarrow> ServiceEqual \<Rightarrow> 'st ServiceClient \<Rightarrow> CrossService \<Rightarrow> (Service \<Rightarrow> Service result) \<Rightarrow> 'st
     \<Rightarrow> (Service \<times> bool) result \<times> 'st" where
  "Service_Reconcile intValue deq client xsvc owner st =
     (case owner (Build xsvc) of
        Inl err \<Rightarrow> (Inl (Wrapped [Lit ''setting owner: ''] err), st)
      | Inr desired \<Rightarrow>
          (case svcc_Get client \<lparr>nn_Namespace = svc_Namespace desired, nn_Name = svc_Name desired\<rparr> st of
             (Inl err, st) \<Rightarrow>
               if IsNotFound err then
                 (case svcc_Create client desired st of
                    (Inl err, st) \<Rightarrow> (Inl (Wrapped [Lit ''creating service: ''] err), st)
                  | (Inr desired, st) \<Rightarrow> (Inr (desired, True), st))
               else (Inl (Wrapped [Lit ''getting service: ''] err), st)
           | (Inr current, st) \<Rightarrow>
               let merged = merge_service intValue current desired
               in if same_service deq current merged then (Inr (current, False), st)
                  else (case svcc_Update client merged st of
                          (Inl err, st) \<Rightarrow> (Inl (Wrapped [Lit ''updating service: ''] err), st)
                        | (Inr merged, st) \<Rightarrow> (Inr (merged, True), st))))"

section \<open>What the API promises\<close>

definition svc_key :: "Service \<Rightarrow> NamespacedName" where
  "svc_key s = \<lparr>nn_Namespace = svc_Namespace s, nn_Name = svc_Name s\<rparr>"

text \<open>What a declared port fixes of a port of the Service; the server fills in the rest.\<close>

definition port_id :: "ServicePort \<Rightarrow> string \<times> int32 \<times> string \<times> string option" where
  "port_id p = (svp_Name p, svp_Port p, svp_Protocol p, svp_AppProtocol p)"

text \<open>
  Admission of a Service by the server (\<open>admit\<close>): it may fill in fields that are left empty (the cluster
  address, the family policy, target and node ports, the session affinity and the traffic policy) and
  keeps what is given.
\<close>

definition admit_ok :: "(Service \<Rightarrow> Service) \<Rightarrow> bool" where
  "admit_ok admit \<longleftrightarrow>
     (\<forall>s. svc_key (admit s) = svc_key s \<and> svc_Labels (admit s) = svc_Labels s \<and>
        svc_Annotations (admit s) = svc_Annotations s \<and> svc_OwnerReferences (admit s) = svc_OwnerReferences s \<and>
        map port_id (ss_Ports (svc_Spec (admit s))) = map port_id (ss_Ports (svc_Spec s)) \<and>
        ss_Selector (svc_Spec (admit s)) = ss_Selector (svc_Spec s) \<and>
        ss_PublishNotReadyAddresses (svc_Spec (admit s)) = ss_PublishNotReadyAddresses (svc_Spec s) \<and>
        (ss_InternalTrafficPolicy (svc_Spec s) \<noteq> None \<longrightarrow>
           ss_InternalTrafficPolicy (svc_Spec (admit s)) = ss_InternalTrafficPolicy (svc_Spec s)) \<and>
        (ss_SessionAffinity (svc_Spec s) \<noteq> [] \<longrightarrow>
           ss_SessionAffinity (svc_Spec (admit s)) = ss_SessionAffinity (svc_Spec s)))"

definition service_store_ok ::
    "(Service \<Rightarrow> Service) \<Rightarrow> ('st \<Rightarrow> (NamespacedName \<rightharpoonup> Service)) \<Rightarrow> 'st ServiceClient \<Rightarrow> bool" where
  "service_store_ok admit view c \<longleftrightarrow>
     (\<forall>st k s. view st k = Some s \<longrightarrow> svc_key s = k) \<and>
     (\<forall>st k s st'. svcc_Get c k st = (Inr s, st') \<longrightarrow> view st k = Some s \<and> view st' = view st) \<and>
     (\<forall>st k s. view st k = Some s \<longrightarrow> svcc_Get c k st = (Inr s, st)) \<and>
     (\<forall>st s s' st'. svcc_Create c s st = (Inr s', st') \<longrightarrow> s' = admit s \<and> view st' = (view st)(svc_key s \<mapsto> admit s)) \<and>
     (\<forall>st s s' st'. svcc_Update c s st = (Inr s', st') \<longrightarrow> s' = admit s \<and> view st' = (view st)(svc_key s \<mapsto> admit s))"

text \<open>\<^verbatim>\<open>SetControllerReference\<close> on a Service that has no owner yet: one reference, to the owner.\<close>

definition service_owner_ok :: "OwnerReference \<Rightarrow> (Service \<Rightarrow> Service result) \<Rightarrow> bool" where
  "service_owner_ok ref owner \<longleftrightarrow>
     (\<forall>s. svc_OwnerReferences s = [] \<longrightarrow> owner s = Inr (s\<lparr>svc_OwnerReferences := [ref]\<rparr>))"

definition service_equal_ok :: "ServiceEqual \<Rightarrow> bool" where
  "service_equal_ok deq \<longleftrightarrow>
     (\<forall>x y. seq_spec deq x y \<longleftrightarrow> x = y) \<and> (\<forall>x y. seq_map deq x y \<longleftrightarrow> x = y) \<and> (\<forall>x y. seq_owners deq x y \<longleftrightarrow> x = y)"

section \<open>Lemmas\<close>

text \<open>A Service that meets the declaration: what a pass establishes.\<close>

definition meets :: "Service \<Rightarrow> Service \<Rightarrow> bool" where
  "meets desired s \<longleftrightarrow>
     svc_key s = svc_key desired \<and> svc_Labels desired \<subseteq>\<^sub>m svc_Labels s \<and>
     svc_Annotations desired \<subseteq>\<^sub>m svc_Annotations s \<and> svc_OwnerReferences s = svc_OwnerReferences desired \<and>
     map port_id (ss_Ports (svc_Spec s)) = map port_id (ss_Ports (svc_Spec desired)) \<and> ss_Selector (svc_Spec s) = None \<and>
     ss_PublishNotReadyAddresses (svc_Spec s) = ss_PublishNotReadyAddresses (svc_Spec desired) \<and>
     (ss_InternalTrafficPolicy (svc_Spec desired) \<noteq> None \<longrightarrow>
        ss_InternalTrafficPolicy (svc_Spec s) = ss_InternalTrafficPolicy (svc_Spec desired)) \<and>
     (ss_SessionAffinity (svc_Spec desired) \<noteq> [] \<longrightarrow>
        ss_SessionAffinity (svc_Spec s) = ss_SessionAffinity (svc_Spec desired))"

lemma port_id_merge [simp]: "port_id (merge_port iv byName d) = port_id d"
  by (simp add: merge_port_def port_id_def Let_def split: option.split)

lemma map_port_id_merge: "map port_id (mergePorts iv current desired) = map port_id desired"
  by (simp add: mergePorts_def Let_def comp_def)

lemma map_le_merge: "m \<subseteq>\<^sub>m mergeMap b m" "m \<subseteq>\<^sub>m b \<Longrightarrow> mergeMap b m = b"
proof -
  show "m \<subseteq>\<^sub>m mergeMap b m" by (simp add: mergeMap_def)
  assume "m \<subseteq>\<^sub>m b"
  show "mergeMap b m = b"
  proof
    show "mergeMap b m k = b k" for k
      using \<open>m \<subseteq>\<^sub>m b\<close> by (auto simp: mergeMap_def map_add_def map_le_def dom_def split: option.split)
  qed
qed

lemma merge_meets:
  assumes "svc_key current = svc_key desired"
  shows "meets desired (merge_service iv current desired)"
  using assms unfolding meets_def merge_service_def Let_def svc_key_def
  by (simp add: map_le_merge map_port_id_merge)

lemma admit_meets:
  assumes "admit_ok admit" and "meets desired s"
  shows "meets desired (admit s)"
  using assms unfolding admit_ok_def meets_def by metis

lemma desired_meets: "ss_Selector (svc_Spec desired) = None \<Longrightarrow> meets desired desired"
  by (simp add: meets_def)

text \<open>Ports by name, when the names are distinct.\<close>

lemma by_name_fold:
  "distinct (map svp_Name ps) \<Longrightarrow> p \<in> set ps \<Longrightarrow> foldl (\<lambda>m p. m(svp_Name p \<mapsto> p)) m ps (svp_Name p) = Some p"
proof (induction ps rule: rev_induct)
  case (snoc q qs)
  then show ?case by (cases "p = q") (auto simp: rev_image_eqI)
qed simp

lemma merge_port_id:
  assumes "port_id c = port_id d" and "byName (svp_Name d) = Some c" and "svp_TargetPort d = IntVal 0"
    and "svp_NodePort d = 0" and "iv (IntVal 0) = 0"
  shows "merge_port iv byName d = c"
  using assms by (cases c, cases d) (simp add: merge_port_def port_id_def Let_def)

lemma mergePorts_same:
  assumes "map port_id current = map port_id desired" and "distinct (map svp_Name desired)"
    and "\<forall>d\<in>set desired. svp_TargetPort d = IntVal 0 \<and> svp_NodePort d = 0" and "iv (IntVal 0) = 0"
  shows "mergePorts iv current desired = current"
proof -
  let ?byName = "foldl (\<lambda>m p. m(svp_Name p \<mapsto> p)) Map.empty current"
  have len: "length current = length desired" using assms(1) by (rule map_eq_imp_length_eq)
  have id: "port_id (current ! i) = port_id (desired ! i)" if "i < length desired" for i
    using assms(1) that len by (metis nth_map)
  have "map svp_Name current = map svp_Name desired"
    using len id by (intro nth_equalityI) (auto simp: port_id_def)
  then have dist: "distinct (map svp_Name current)" using assms(2) by simp
  show ?thesis
  proof (rule nth_equalityI)
    show "length (mergePorts iv current desired) = length current" using len by (simp add: mergePorts_def Let_def)
    fix i assume "i < length (mergePorts iv current desired)"
    then have i: "i < length desired" by (simp add: mergePorts_def Let_def)
    have "?byName (svp_Name (desired ! i)) = Some (current ! i)"
      using by_name_fold [OF dist, of "current ! i"] id [OF i] i len by (simp add: port_id_def)
    with id [OF i] assms(3,4) i show "mergePorts iv current desired ! i = current ! i"
      by (simp add: mergePorts_def Let_def merge_port_id)
  qed
qed

lemma merge_service_same:
  assumes "meets desired s" and "distinct (map svp_Name (ss_Ports (svc_Spec desired)))"
    and "\<forall>d\<in>set (ss_Ports (svc_Spec desired)). svp_TargetPort d = IntVal 0 \<and> svp_NodePort d = 0" and "iv (IntVal 0) = 0"
  shows "merge_service iv s desired = s"
  using assms mergePorts_same [of "ss_Ports (svc_Spec s)" "ss_Ports (svc_Spec desired)" iv]
  unfolding meets_def merge_service_def Let_def
  by (cases s) (cases "svc_Spec s", auto simp: map_le_merge)

text \<open>The Service that the CrossService declares, with its owner.\<close>

definition declared :: "OwnerReference \<Rightarrow> CrossService \<Rightarrow> Service" where
  "declared ref xsvc = (Build xsvc)\<lparr>svc_OwnerReferences := [ref]\<rparr>"

lemma owner_Build: "service_owner_ok ref owner \<Longrightarrow> owner (Build xsvc) = Inr (declared ref xsvc)"
  unfolding service_owner_ok_def declared_def by (simp add: Build_def Let_def)

lemma declared_fields:
  "svc_key (declared ref xsvc) = \<lparr>nn_Namespace = xs_Namespace xsvc, nn_Name = NameFor xsvc\<rparr>"
  "ss_Selector (svc_Spec (declared ref xsvc)) = None"
  "ss_Ports (svc_Spec (declared ref xsvc)) = map service_port (spec_Ports (xs_Spec xsvc))"
  by (simp_all add: declared_def Build_def Let_def svc_key_def)

lemma store_get_hit: "service_store_ok admit view c \<Longrightarrow> svcc_Get c k st = (Inr s, st') \<Longrightarrow> view st k = Some s \<and> view st' = view st \<and> svc_key s = k"
  unfolding service_store_ok_def by blast

lemma store_get: "service_store_ok admit view c \<Longrightarrow> view st k = Some s \<Longrightarrow> svcc_Get c k st = (Inr s, st)"
  unfolding service_store_ok_def by blast

lemma store_written:
  "service_store_ok admit view c \<Longrightarrow> svcc_Create c s st = (Inr s', st') \<or> svcc_Update c s st = (Inr s', st') \<Longrightarrow>
     s' = admit s \<and> view st' = (view st)(svc_key s \<mapsto> admit s)"
  unfolding service_store_ok_def by blast

lemma same_service_eq:
  assumes "service_equal_ok deq" and "same_service deq current (merge_service iv current desired)"
  shows "merge_service iv current desired = current"
proof (rule Service.equality)
  let ?m = "merge_service iv current desired"
  show "svc_Name ?m = svc_Name current" "svc_Namespace ?m = svc_Namespace current" "svc_Ingress ?m = svc_Ingress current"
    by (simp_all add: merge_service_def Let_def)
qed (use assms in \<open>simp_all add: same_service_def service_equal_ok_def\<close>)

lemma same_service_refl: "service_equal_ok deq \<Longrightarrow> same_service deq s s"
  by (simp add: service_equal_ok_def same_service_def)

lemma Reconcile_established:
  assumes store: "service_store_ok admit view client" and adm: "admit_ok admit" and eq: "service_equal_ok deq"
    and own: "service_owner_ok ref owner"
    and run: "Service_Reconcile iv deq client xsvc owner st = (Inr (s, written), st')"
  shows "view st' (svc_key (declared ref xsvc)) = Some s \<and> meets (declared ref xsvc) s"
proof -
  let ?d = "declared ref xsvc"
  let ?k = "\<lparr>nn_Namespace = svc_Namespace ?d, nn_Name = svc_Name ?d\<rparr>"
  have k: "?k = svc_key ?d" by (simp add: svc_key_def)
  show ?thesis
  proof (cases "svcc_Get client ?k st")
    case (Pair r st1)
    show ?thesis
    proof (cases r)
      case (Inl err)
      with run Pair obtain s' where "svcc_Create client ?d st1 = (Inr s', st')" "s = s'"
        by (auto simp: Service_Reconcile_def owner_Build [OF own] split: if_splits prod.splits sum.splits)
      with store_written [OF store, of ?d st1 s' st'] show ?thesis
        using admit_meets [OF adm desired_meets] declared_fields(2) by auto
    next
      case (Inr current)
      let ?m = "merge_service iv current ?d"
      have get: "view st ?k = Some current" "view st1 = view st" "svc_key current = svc_key ?d"
        using store_get_hit [OF store] Pair Inr k by auto
      have meets: "meets ?d ?m" using get(3) by (rule merge_meets)
      show ?thesis
      proof (cases "same_service deq current ?m")
        case True
        then show ?thesis using run Pair Inr get k meets same_service_eq [OF eq True]
          by (simp add: Service_Reconcile_def owner_Build [OF own])
      next
        case False
        with run Pair Inr obtain s' where "svcc_Update client ?m st1 = (Inr s', st')" "s = s'"
          by (auto simp: Service_Reconcile_def owner_Build [OF own] Let_def split: prod.splits sum.splits)
        with store_written [OF store, of ?m st1 s' st'] show ?thesis
          using admit_meets [OF adm meets] meets by (auto simp: meets_def)
      qed
    qed
  qed
qed

text \<open>A Service that already meets the declaration is read and left alone.\<close>

lemma Reconcile_met:
  assumes "service_equal_ok deq" and "service_owner_ok ref owner" and "iv (IntVal 0) = 0"
    and "distinct (map csp_Name (spec_Ports (xs_Spec xsvc)))"
    and "svcc_Get client (svc_key (declared ref xsvc)) st = (Inr s, st')" and "meets (declared ref xsvc) s"
  shows "Service_Reconcile iv deq client xsvc owner st = (Inr (s, False), st')"
proof -
  have "merge_service iv s (declared ref xsvc) = s"
    using assms(3,4,6)
    by (intro merge_service_same) (auto simp: declared_fields service_port_def comp_def)
  then show ?thesis
    using assms(5) same_service_refl [OF assms(1), of s]
    by (simp add: Service_Reconcile_def owner_Build [OF assms(2)] svc_key_def)
qed

section \<open>Properties\<close>

text \<open>
  C17: when reconciling the Service succeeds, the stored Service has no selector (I1), its ports are the
  declared ones in order (name, number, protocol and application protocol; the name is the join key
  I2), it carries the labels and annotations of the declaration and its owner is the CrossService.
\<close>

theorem Service_Reconcile_establishes:
  assumes "service_store_ok admit view client" and "admit_ok admit" and "service_equal_ok deq"
    and "service_owner_ok ref owner"
    and "Service_Reconcile iv deq client xsvc owner st = (Inr (s, written), st')"
  shows "view st' \<lparr>nn_Namespace = xs_Namespace xsvc, nn_Name = NameFor xsvc\<rparr> = Some s \<and>
     ss_Selector (svc_Spec s) = None \<and>
     map port_id (ss_Ports (svc_Spec s)) = map (\<lambda>p. (csp_Name p, csp_Port p, protocolOrDefault (csp_Protocol p), csp_AppProtocol p))
       (spec_Ports (xs_Spec xsvc)) \<and>
     svc_Labels (Build xsvc) \<subseteq>\<^sub>m svc_Labels s \<and> svc_Annotations (Build xsvc) \<subseteq>\<^sub>m svc_Annotations s \<and>
     svc_OwnerReferences s = [ref]"
proof -
  have "map port_id (map service_port ps) =
      map (\<lambda>p. (csp_Name p, csp_Port p, protocolOrDefault (csp_Protocol p), csp_AppProtocol p)) ps" for ps
    by (simp add: port_id_def service_port_def protocolOrDefault_def)
  with Reconcile_established [OF assms] show ?thesis
    unfolding meets_def declared_fields by (simp add: declared_def)
qed

text \<open>
  C18: reconciling the Service again right after it succeeded writes nothing, although the server has filled in
  fields that the declaration leaves empty: the merge carries them forward.
\<close>

theorem Service_Reconcile_idempotent:
  assumes "service_store_ok admit view client" and "admit_ok admit" and "service_equal_ok deq"
    and "service_owner_ok ref owner" and "iv (IntVal 0) = 0"
    and "distinct (map csp_Name (spec_Ports (xs_Spec xsvc)))"
    and "Service_Reconcile iv deq client xsvc owner st = (Inr (s, written), st')"
  shows "Service_Reconcile iv deq client xsvc owner st' = (Inr (s, False), st')"
proof -
  from Reconcile_established [OF assms(1-4,7)]
  have s: "view st' (svc_key (declared ref xsvc)) = Some s" "meets (declared ref xsvc) s" by auto
  show ?thesis
    by (rule Reconcile_met [OF assms(3,4) _ assms(6) store_get [OF assms(1) s(1)] s(2)]) (rule assms(5))
qed

text \<open>
  Once the Service exists, the declared family policy has no influence on it: reconciling with any other
  policy does exactly the same.
\<close>

theorem Service_family_policy_ignored:
  assumes "service_owner_ok ref owner"
    and "svcc_Get client \<lparr>nn_Namespace = xs_Namespace xsvc, nn_Name = NameFor xsvc\<rparr> st = (Inr current, st1)"
  shows "Service_Reconcile iv deq client
       (xsvc\<lparr>xs_Spec := (xs_Spec xsvc)\<lparr>spec_IPFamilyPolicy := policy\<rparr>\<rparr>) owner st =
     Service_Reconcile iv deq client xsvc owner st"
proof -
  let ?x = "xsvc\<lparr>xs_Spec := (xs_Spec xsvc)\<lparr>spec_IPFamilyPolicy := policy\<rparr>\<rparr>"
  have "merge_service iv current (declared ref ?x) = merge_service iv current (declared ref xsvc)"
    by (simp add: merge_service_def declared_def Build_def Let_def)
  moreover have "svc_Namespace (declared ref y) = xs_Namespace y" "svc_Name (declared ref y) = NameFor y" for y
    by (simp_all add: declared_def Build_def Let_def)
  moreover have "NameFor ?x = NameFor xsvc" by (simp add: NameFor_def split: option.split)
  ultimately show ?thesis using assms(2)
    by (simp add: Service_Reconcile_def owner_Build [OF assms(1)])
qed

section \<open>Witnesses\<close>

text \<open>A server that stores Services in a map and fills in a cluster address and the target ports.\<close>

definition demo_admit :: "Service \<Rightarrow> Service" where
  "demo_admit s = s\<lparr>svc_Spec := (svc_Spec s)
     \<lparr>ss_ClusterIP := ''10.96.0.7'',
      ss_Ports := map (\<lambda>p. p\<lparr>svp_TargetPort := IntVal (svp_Port p)\<rparr>) (ss_Ports (svc_Spec s))\<rparr>\<rparr>"

definition mem_services :: "(NamespacedName \<rightharpoonup> Service) ServiceClient" where
  "mem_services =
     \<lparr>svcc_Get = (\<lambda>k st. (case st k of Some s \<Rightarrow> if svc_key s = k then Inr s else Inl (NotFoundError [])
                                     | None \<Rightarrow> Inl (NotFoundError []), st)),
      svcc_Create = (\<lambda>s st. (Inr (demo_admit s), st(svc_key s \<mapsto> demo_admit s))),
      svcc_Update = (\<lambda>s st. (Inr (demo_admit s), st(svc_key s \<mapsto> demo_admit s)))\<rparr>"

definition services_view :: "(NamespacedName \<rightharpoonup> Service) \<Rightarrow> (NamespacedName \<rightharpoonup> Service)" where
  "services_view st k = (case st k of Some s \<Rightarrow> if svc_key s = k then Some s else None | None \<Rightarrow> None)"

lemma demo_admit_key [simp]: "svc_key (demo_admit s) = svc_key s"
  by (simp add: demo_admit_def svc_key_def)

lemma demo_admit_ip: "ss_ClusterIP (svc_Spec (demo_admit s)) = ''10.96.0.7''"
  by (simp add: demo_admit_def)

lemma demo_admit_ok: "admit_ok demo_admit"
  by (simp add: admit_ok_def demo_admit_def svc_key_def port_id_def comp_def)

lemma mem_services_ok: "service_store_ok demo_admit services_view mem_services"
proof -
  have get: "svcc_Get mem_services k st = (case services_view st k of Some s \<Rightarrow> Inr s | None \<Rightarrow> Inl (NotFoundError []), st)" for k st
    by (simp add: mem_services_def services_view_def split: option.split)
  have put: "services_view (st(svc_key s \<mapsto> demo_admit s)) = (services_view st)(svc_key s \<mapsto> demo_admit s)" for st s
    by (simp add: services_view_def fun_eq_iff)
  have key: "services_view st k = Some s \<Longrightarrow> svc_key s = k" for st k s
    by (simp add: services_view_def split: option.splits if_splits)
  show ?thesis unfolding service_store_ok_def get using key
    by (simp add: put split: option.splits) (simp add: mem_services_def put)
qed

definition demo_ref :: OwnerReference where
  "demo_ref = \<lparr>ow_Kind = ''CrossService'', ow_Name = ''db'', ow_UID = ''1''\<rparr>"

definition demo_service_owner :: "Service \<Rightarrow> Service result" where
  "demo_service_owner s = Inr (s\<lparr>svc_OwnerReferences := [demo_ref]\<rparr>)"

definition demo_service_equal :: ServiceEqual where
  "demo_service_equal = \<lparr>seq_spec = (=), seq_map = (=), seq_owners = (=)\<rparr>"

lemma demo_service_params:
  "service_owner_ok demo_ref demo_service_owner" "service_equal_ok demo_service_equal"
  by (simp_all add: service_owner_ok_def demo_service_owner_def service_equal_ok_def demo_service_equal_def)

definition demo_cross_service :: CrossService where
  "demo_cross_service = \<lparr>xs_Name = ''db'', xs_Namespace = ''app'', xs_UID = ''1'', xs_Generation = 1,
     xs_Spec = \<lparr>spec_Ports = [zero_port\<lparr>csp_Name := ''pg'', csp_Port := 5432\<rparr>], spec_Source = zero_source,
       spec_Service = None, spec_IPFamilyPolicy = [], spec_FailurePolicy = None\<rparr>, xs_Status = zero_status\<rparr>"

definition demo_int_value :: "IntOrString \<Rightarrow> int" where
  "demo_int_value t = (case t of IntVal n \<Rightarrow> sint n | StrVal s \<Rightarrow> 0)"

lemma demo_service_run:
  "Service_Reconcile demo_int_value demo_service_equal mem_services demo_cross_service demo_service_owner Map.empty =
     (Inr (demo_admit (declared demo_ref demo_cross_service), True),
      [svc_key (declared demo_ref demo_cross_service) \<mapsto> demo_admit (declared demo_ref demo_cross_service)])"
  by (simp add: Service_Reconcile_def owner_Build [OF demo_service_params(1)] mem_services_def)

lemma Service_Reconcile_establishes_witness:
  "ss_Selector (svc_Spec (demo_admit (declared demo_ref demo_cross_service))) = None \<and>
   svc_OwnerReferences (demo_admit (declared demo_ref demo_cross_service)) = [demo_ref]"
  using Service_Reconcile_establishes [OF mem_services_ok demo_admit_ok demo_service_params(2,1) demo_service_run] by simp

lemma Service_Reconcile_idempotent_witness:
  "\<exists>st s. Service_Reconcile demo_int_value demo_service_equal mem_services demo_cross_service demo_service_owner st
     = (Inr (s, False), st) \<and> ss_ClusterIP (svc_Spec s) = ''10.96.0.7''"
proof -
  have "Service_Reconcile demo_int_value demo_service_equal mem_services demo_cross_service demo_service_owner
     [svc_key (declared demo_ref demo_cross_service) \<mapsto> demo_admit (declared demo_ref demo_cross_service)] =
     (Inr (demo_admit (declared demo_ref demo_cross_service), False),
      [svc_key (declared demo_ref demo_cross_service) \<mapsto> demo_admit (declared demo_ref demo_cross_service)])"
    by (rule Service_Reconcile_idempotent [OF mem_services_ok demo_admit_ok demo_service_params(2,1) _ _ demo_service_run])
       (simp_all add: demo_int_value_def demo_cross_service_def)
  then show ?thesis by (intro exI conjI) (assumption, rule demo_admit_ip)
qed

lemma Service_family_policy_ignored_witness:
  "let st = [svc_key (declared demo_ref demo_cross_service) \<mapsto> demo_admit (declared demo_ref demo_cross_service)]
   in Service_Reconcile demo_int_value demo_service_equal mem_services
       (demo_cross_service\<lparr>xs_Spec := (xs_Spec demo_cross_service)\<lparr>spec_IPFamilyPolicy := IPFamilyPolicyPreferDualStack\<rparr>\<rparr>)
       demo_service_owner st =
     Service_Reconcile demo_int_value demo_service_equal mem_services demo_cross_service demo_service_owner st"
  unfolding Let_def
  by (rule Service_family_policy_ignored [OF demo_service_params(1)])
     (simp add: mem_services_def declared_fields)

end
