(* ===== verification/Resolver_DNS.thy ===== *)
theory Resolver_DNS
  imports Resolver_Core Policy
begin

text \<open>
  \<^verbatim>\<open>internal/resolver/dns.go\<close> and \<^verbatim>\<open>scope.go\<close>: names resolved to
  addresses, addresses filtered by their routability, and how long until the next lookup.  The
  \<^verbatim>\<open>LookupClient\<close> is a parameter: the answers of one resolution pass, as functions of the
  question.
\<close>

section \<open>Scope of an address\<close>

datatype AddressScope = ScopePublic | ScopePrivate

definition privateV4 :: "prefix list" where
  "privateV4 = map MustParsePrefix
     [''0.0.0.0/8'', ''10.0.0.0/8'', ''100.64.0.0/10'', ''127.0.0.0/8'', ''169.254.0.0/16'', ''172.16.0.0/12'',
      ''192.0.0.0/24'', ''192.168.0.0/16'', ''198.18.0.0/15'', ''255.255.255.255/32'']"

definition privateV6 :: "prefix list" where
  "privateV6 = map MustParsePrefix [''::/128'', ''::1/128'', ''fc00::/7'', ''fe80::/10'']"

definition ScopeOf :: "addr \<Rightarrow> AddressScope" where
  "ScopeOf a =
     (let a = Unmap a
      in if \<not> IsValid a then ScopePrivate
         else if IsLoopback a \<or> IsUnspecified a \<or> IsMulticast a \<or> IsLinkLocalUnicast a \<or>
           IsLinkLocalMulticast a \<or> IsInterfaceLocalMulticast a \<or> IsPrivate a then ScopePrivate
         else if list_ex (\<lambda>p. Prefix_Contains p a) (if Is6 a then privateV6 else privateV4) then ScopePrivate
         else ScopePublic)"

section \<open>The filter\<close>

text \<open>
  The field \<^verbatim>\<open>exclude\<close>: the empty string filters nothing, \<^verbatim>\<open>scopeAll\<close> filters
  everything.
\<close>

datatype scopeFilter = ExcludeNone | Exclude AddressScope | ExcludeAll

definition newScopeFilter :: "DNSSource \<Rightarrow> scopeFilter" where
  "newScopeFilter cfg =
     (if ds_ExcludePrivateIPs cfg \<and> ds_ExcludePublicIPs cfg then ExcludeAll
      else if ds_ExcludePrivateIPs cfg then Exclude ScopePrivate
      else if ds_ExcludePublicIPs cfg then Exclude ScopePublic
      else ExcludeNone)"

definition active :: "scopeFilter \<Rightarrow> bool" where
  "active f \<longleftrightarrow> f \<noteq> ExcludeNone"

definition apply_filter :: "scopeFilter \<Rightarrow> addr list \<Rightarrow> addr list \<times> nat" where
  "apply_filter f addrs =
     (if \<not> active f then (addrs, 0)
      else let kept = filter (\<lambda>a. \<not> (f = ExcludeAll \<or> Exclude (ScopeOf a) = f)) addrs
           in (kept, length addrs - length kept))"

definition scope_text :: "scopeFilter \<Rightarrow> string" where
  "scope_text f = (case f of ExcludeNone \<Rightarrow> [] | Exclude ScopePublic \<Rightarrow> ''Public''
     | Exclude ScopePrivate \<Rightarrow> ''Private'' | ExcludeAll \<Rightarrow> ''Private and Public'')"

definition warn :: "scopeFilter \<Rightarrow> string \<Rightarrow> nat \<Rightarrow> nat \<Rightarrow> msg" where
  "warn f name dropped tot =
     [Lit ''dns: '', Lit (string_of_int (int dropped)), Lit '' of '', Lit (string_of_int (int tot)),
      Lit '' address(es) for '', Lit name, Lit '' excluded as '', Lit (scope_text f)]"

section \<open>Lookups\<close>

record SRV =
  srv_Target :: string
  srv_Port :: "16 word"

record LookupClient =
  lk_LookupNetIP :: "string \<Rightarrow> string \<Rightarrow> addr list result"
  lk_LookupSRV :: "string \<Rightarrow> SRV list result"

text \<open>
  \<^verbatim>\<open>net.Resolver\<close>: the one of the process, or one that dials a server of its own for every connection; \<open>net_Dialing\<close> is given the
  server of the first, second, \<open>\<dots>\<close> connection.
\<close>

record NetResolver =
  nr_LookupNetIP :: "string \<Rightarrow> string \<Rightarrow> addr list result"
  nr_LookupSRV :: "string \<Rightarrow> string \<Rightarrow> string \<Rightarrow> (string \<times> SRV list) result"

record NetLib =
  net_DefaultResolver :: NetResolver
  net_Dialing :: "(nat \<Rightarrow> string) \<Rightarrow> NetResolver"

definition netResolver :: "NetResolver \<Rightarrow> LookupClient" where
  "netResolver r =
     \<lparr>lk_LookupNetIP = (\<lambda>network host. nr_LookupNetIP r network host),
      lk_LookupSRV = (\<lambda>name. case nr_LookupSRV r [] [] name of Inl err \<Rightarrow> Inl err | Inr (cname, srvs) \<Rightarrow> Inr srvs)\<rparr>"

definition dial_server :: "string list \<Rightarrow> nat \<Rightarrow> string" where
  "dial_server nameservers idx = nameservers ! (idx mod length nameservers)"

definition NewSystemLookupClient :: "NetLib \<Rightarrow> string list \<Rightarrow> LookupClient" where
  "NewSystemLookupClient lib nameservers =
     (if length nameservers = 0 then netResolver (net_DefaultResolver lib)
      else netResolver (net_Dialing lib (dial_server nameservers)))"

text \<open>Only the configured servers are dialled, each of them within any run of as many connections as there are servers.\<close>

lemma dial_server_rounds:
  assumes "nameservers \<noteq> []"
  shows "dial_server nameservers ` {n ..< n + length nameservers} = set nameservers"
proof (rule antisym)
  show "dial_server nameservers ` {n ..< n + length nameservers} \<subseteq> set nameservers"
    using assms by (auto simp: dial_server_def)
  show "set nameservers \<subseteq> dial_server nameservers ` {n ..< n + length nameservers}"
  proof
    fix s assume "s \<in> set nameservers"
    then obtain i where i: "i < length nameservers" "s = nameservers ! i" by (metis in_set_conv_nth)
    let ?l = "length nameservers"
    have "n mod ?l < ?l" using assms by simp
    then have sum: "n mod ?l + (i + ?l - n mod ?l) = i + ?l" by linarith
    have "(n + (i + ?l - n mod ?l) mod ?l) mod ?l = (n mod ?l + (i + ?l - n mod ?l)) mod ?l"
      by (simp only: mod_add_left_eq mod_add_right_eq)
    also have "\<dots> = (i + ?l) mod ?l" by (simp only: sum)
    finally have "(n + (i + ?l - n mod ?l) mod ?l) mod ?l = i" using i by simp
    then have "s = dial_server nameservers (n + (i + ?l - n mod ?l) mod ?l)" using i by (simp add: dial_server_def)
    moreover have "n + (i + ?l - n mod ?l) mod ?l \<in> {n ..< n + ?l}" using assms by simp
    ultimately show "s \<in> dial_server nameservers ` {n ..< n + ?l}" by blast
  qed
qed

definition FQDN :: "string \<Rightarrow> string" where
  "FQDN name =
     (let name = TrimSpace name
      in if name = [] \<or> HasSuffix name ''.'' then name else name @ ''.'')"

text \<open>\<^verbatim>\<open>strings.Join\<close> on messages.\<close>

fun join_msgs :: "msg \<Rightarrow> msg list \<Rightarrow> msg" where
  "join_msgs sep [] = []"
| "join_msgs sep [m] = m"
| "join_msgs sep (m # ms) = m @ sep @ join_msgs sep ms"

definition joinErrors :: "go_error list \<Rightarrow> go_error" where
  "joinErrors errs = Errorf (join_msgs [Lit ''; ''] (map Error errs))"

text \<open>What a pass has gathered: endpoints, errors, warnings.\<close>

type_synonym gathered = "Endpoint list \<times> go_error list \<times> msg list"

definition dns_endpoints :: "(string \<rightharpoonup> int32) \<Rightarrow> addr list \<Rightarrow> Endpoint list" where
  "dns_endpoints portMap addrs =
     map (\<lambda>a. zero_endpoint\<lparr>e_Address := Unmap a, e_Ready := True, e_Serving := True, e_PortMap := portMap\<rparr>) addrs"

definition addr_step ::
    "LookupClient \<Rightarrow> string \<Rightarrow> scopeFilter \<Rightarrow> (string \<rightharpoonup> int32) \<Rightarrow> gathered \<Rightarrow> string \<Rightarrow> gathered" where
  "addr_step client network f portMap acc name =
     (case acc of (out, errs, warnings) \<Rightarrow>
       (case lk_LookupNetIP client network (FQDN name) of
          Inl err \<Rightarrow> (out, errs @ [Wrapped [Lit ''resolving '', Lit name, Lit '': ''] err], warnings)
        | Inr addrs \<Rightarrow>
            (case apply_filter f addrs of (kept, dropped) \<Rightarrow>
               (out @ dns_endpoints portMap kept, errs,
                if 0 < dropped then warnings @ [warn f name dropped (length addrs)] else warnings))))"

definition finish :: "gathered \<Rightarrow> Result result" where
  "finish acc =
     (case acc of (out, errs, warnings) \<Rightarrow>
        if errs \<noteq> [] then Inl (joinErrors errs)
        else Inr \<lparr>r_Endpoints = out, r_TTL = 0, r_Warnings = warnings\<rparr>)"

definition resolveAddr ::
    "(IntOrString \<Rightarrow> int) \<Rightarrow> LookupClient \<Rightarrow> DNSSource \<Rightarrow> CrossServicePort list \<Rightarrow> Result result" where
  "resolveAddr intValue client cfg ports =
     (let network = (if ds_RecordType cfg = DNSRecordTypeAAAA then ''ip6'' else ''ip4'')
      in finish (foldl (addr_step client network (newScopeFilter cfg) (defaultPortMap intValue ports))
           ([], [], []) (ds_Names cfg)))"

definition srv_target_step ::
    "LookupClient \<Rightarrow> scopeFilter \<Rightarrow> (string \<rightharpoonup> int32) \<Rightarrow> string \<Rightarrow> gathered \<Rightarrow> SRV \<Rightarrow> gathered" where
  "srv_target_step client f base srvPortName acc srv =
     (case acc of (out, errs, warnings) \<Rightarrow>
       (case lk_LookupNetIP client ''ip4'' (FQDN (srv_Target srv)) of
          Inl err \<Rightarrow>
            (out, errs @ [Wrapped [Lit ''resolving SRV target '', Lit (srv_Target srv), Lit '': ''] err], warnings)
        | Inr addrs \<Rightarrow>
            (case apply_filter f addrs of (kept, dropped) \<Rightarrow>
               let pm = (if base srvPortName \<noteq> None then base(srvPortName \<mapsto> ucast (srv_Port srv)) else base)
               in (out @ dns_endpoints pm kept, errs,
                   if 0 < dropped then warnings @ [warn f (srv_Target srv) dropped (length addrs)] else warnings))))"

definition srv_step ::
    "LookupClient \<Rightarrow> scopeFilter \<Rightarrow> (string \<rightharpoonup> int32) \<Rightarrow> string \<Rightarrow> gathered \<Rightarrow> string \<Rightarrow> gathered" where
  "srv_step client f base srvPortName acc name =
     (case lk_LookupSRV client (FQDN name) of
        Inl err \<Rightarrow>
          (case acc of (out, errs, warnings) \<Rightarrow>
             (out, errs @ [Wrapped [Lit ''resolving SRV '', Lit name, Lit '': ''] err], warnings))
      | Inr srvs \<Rightarrow> foldl (srv_target_step client f base srvPortName) acc srvs)"

definition resolveSRV ::
    "(IntOrString \<Rightarrow> int) \<Rightarrow> LookupClient \<Rightarrow> DNSSource \<Rightarrow> CrossServicePort list \<Rightarrow> Result result" where
  "resolveSRV intValue client cfg ports =
     (let srvPortName = (if ds_SRVPortName cfg = [] \<and> length ports = 1 then csp_Name (ports ! 0)
                         else ds_SRVPortName cfg)
      in finish (foldl (srv_step client (newScopeFilter cfg) (defaultPortMap intValue ports) srvPortName)
           ([], [], []) (ds_Names cfg)))"

text \<open>
  The client of the struct, or else one made from the nameservers by \<^verbatim>\<open>NewSystemLookupClient\<close>,
  which only configures the resolver of the standard library: the parameter \<open>system\<close>.
\<close>

definition DNS_Resolve ::
    "(IntOrString \<Rightarrow> int) \<Rightarrow> (string list \<Rightarrow> LookupClient) \<Rightarrow> LookupClient option \<Rightarrow> 'st resolver" where
  "DNS_Resolve intValue system d_Client src ports st =
     (case src_DNS src of
        None \<Rightarrow> (Inl (Errorf [Lit ''dns source has no dns config'']), st)
      | Some cfg \<Rightarrow>
          let client = (case d_Client of None \<Rightarrow> system (dr_Nameservers (ds_Resolution cfg)) | Some c \<Rightarrow> c)
          in if ds_RecordType cfg = DNSRecordTypeSRV then (resolveSRV intValue client cfg ports, st)
             else (resolveAddr intValue client cfg ports, st))"

section \<open>When to look again\<close>

definition ClampTTL :: "duration \<Rightarrow> DNSSource \<Rightarrow> duration" where
  "ClampTTL ttl cfg =
     (let minTTL = (case dr_MinTTL (ds_Resolution cfg) of None \<Rightarrow> 5 * Second | Some d \<Rightarrow> d);
          maxTTL = (case dr_MaxTTL (ds_Resolution cfg) of None \<Rightarrow> 5 * Minute | Some d \<Rightarrow> d)
      in if ttl < minTTL then minTTL else if maxTTL < ttl then maxTTL else ttl)"

definition resolutionInterval :: "DNSResolution \<Rightarrow> duration" where
  "resolutionInterval r =
     (case dr_Interval r of None \<Rightarrow> 30 * Second | Some d \<Rightarrow> if 0 < d then d else 30 * Second)"

definition RequeueAfter :: "DNSSource \<Rightarrow> duration \<Rightarrow> duration" where
  "RequeueAfter cfg ttl =
     (if dr_UseTTL (ds_Resolution cfg) \<and> 0 < ttl then ClampTTL ttl cfg
      else (case dr_Interval (ds_Resolution cfg) of
              None \<Rightarrow> 30 * Second | Some d \<Rightarrow> if 0 < d then d else 30 * Second))"

section \<open>Lemmas: the scope of an address by value\<close>

lemma privateV4_eq:
  "privateV4 =
     [\<lparr>pfx_Addr = Addr4 0, pfx_Bits = 8\<rparr>, \<lparr>pfx_Addr = Addr4 0x0A000000, pfx_Bits = 8\<rparr>,
      \<lparr>pfx_Addr = Addr4 0x64400000, pfx_Bits = 10\<rparr>, \<lparr>pfx_Addr = Addr4 0x7F000000, pfx_Bits = 8\<rparr>,
      \<lparr>pfx_Addr = Addr4 0xA9FE0000, pfx_Bits = 16\<rparr>, \<lparr>pfx_Addr = Addr4 0xAC100000, pfx_Bits = 12\<rparr>,
      \<lparr>pfx_Addr = Addr4 0xC0000000, pfx_Bits = 24\<rparr>, \<lparr>pfx_Addr = Addr4 0xC0A80000, pfx_Bits = 16\<rparr>,
      \<lparr>pfx_Addr = Addr4 0xC6120000, pfx_Bits = 15\<rparr>, \<lparr>pfx_Addr = Addr4 0xFFFFFFFF, pfx_Bits = 32\<rparr>]"
  by code_simp

lemma privateV6_eq:
  "privateV6 =
     [\<lparr>pfx_Addr = Addr6 0 [], pfx_Bits = 128\<rparr>, \<lparr>pfx_Addr = Addr6 1 [], pfx_Bits = 128\<rparr>,
      \<lparr>pfx_Addr = Addr6 0xFC000000000000000000000000000000 [], pfx_Bits = 7\<rparr>,
      \<lparr>pfx_Addr = Addr6 0xFE800000000000000000000000000000 [], pfx_Bits = 10\<rparr>]"
  by code_simp

definition private4 :: "int set" where
  "private4 = {0 ..< 0x01000000} \<union> {0x0A000000 ..< 0x0B000000} \<union> {0x64400000 ..< 0x64800000}
     \<union> {0x7F000000 ..< 0x80000000} \<union> {0xA9FE0000 ..< 0xA9FF0000} \<union> {0xAC100000 ..< 0xAC200000}
     \<union> {0xC0000000 ..< 0xC0000100} \<union> {0xC0A80000 ..< 0xC0A90000} \<union> {0xC6120000 ..< 0xC6140000}
     \<union> {0xE0000000 ..< 0xF0000000} \<union> {0xFFFFFFFF}"

definition private6 :: "int set" where
  "private6 = {1} \<union> {0xFC000000000000000000000000000000 ..< 0xFE000000000000000000000000000000}
     \<union> {0xFE800000000000000000000000000000 ..< 0xFEC00000000000000000000000000000}
     \<union> {0xFF000000000000000000000000000000 ..< 0x100000000000000000000000000000000}"

definition private_addr :: "addr \<Rightarrow> bool" where
  "private_addr a = (case a of AddrInvalid \<Rightarrow> True | Addr4 w \<Rightarrow> uint w \<in> private4
     | Addr6 w z \<Rightarrow> uint w \<in> private6 \<or> w = 0 \<and> z = [])"

lemma ScopeOf_v4: "ScopeOf (Addr4 w) = ScopePrivate \<longleftrightarrow> uint w \<in> private4"
proof -
  let ?x = "uint w"
  have "ScopeOf (Addr4 w) = ScopePrivate \<longleftrightarrow>
     ?x div 2 ^ 24 = 127 \<or> ?x = 0 \<or> ?x div 2 ^ 28 = 14 \<or> ?x div 2 ^ 16 = 0xA9FE \<or> ?x div 2 ^ 8 = 0xE00000 \<or>
     ?x div 2 ^ 24 = 10 \<or> ?x div 2 ^ 20 = 0xAC1 \<or> ?x div 2 ^ 16 = 0xC0A8 \<or> ?x div 2 ^ 24 = 0 \<or>
     ?x div 2 ^ 22 = 0x191 \<or> ?x div 2 ^ 8 = 0xC00000 \<or> ?x div 2 ^ 17 = 0x6309 \<or> ?x = 0xFFFFFFFF"
    unfolding ScopeOf_def Let_def classify_defs IsPrivate_def privateV4_eq
    by (simp add: addr_defs Prefix_Contains_v4 drop_bit_word_eq) (auto simp: word_uint_eq_iff)
  also have "\<dots> \<longleftrightarrow> ?x \<in> private4"
  proof -
    have block: "?x div 2 ^ 24 = 127 \<longleftrightarrow> ?x \<in> {0x7F000000 ..< 0x80000000}"
      "?x div 2 ^ 28 = 14 \<longleftrightarrow> ?x \<in> {0xE0000000 ..< 0xF0000000}"
      "?x div 2 ^ 16 = 0xA9FE \<longleftrightarrow> ?x \<in> {0xA9FE0000 ..< 0xA9FF0000}"
      "?x div 2 ^ 24 = 10 \<longleftrightarrow> ?x \<in> {0x0A000000 ..< 0x0B000000}"
      "?x div 2 ^ 20 = 0xAC1 \<longleftrightarrow> ?x \<in> {0xAC100000 ..< 0xAC200000}"
      "?x div 2 ^ 16 = 0xC0A8 \<longleftrightarrow> ?x \<in> {0xC0A80000 ..< 0xC0A90000}"
      "?x div 2 ^ 24 = 0 \<longleftrightarrow> ?x \<in> {0 ..< 0x01000000}"
      "?x div 2 ^ 22 = 0x191 \<longleftrightarrow> ?x \<in> {0x64400000 ..< 0x64800000}"
      "?x div 2 ^ 8 = 0xC00000 \<longleftrightarrow> ?x \<in> {0xC0000000 ..< 0xC0000100}"
      "?x div 2 ^ 17 = 0x6309 \<longleftrightarrow> ?x \<in> {0xC6120000 ..< 0xC6140000}"
      by (simp_all add: div_eq_interval)
    have sub: "?x div 2 ^ 8 = 0xE00000 \<Longrightarrow> ?x \<in> {0xE0000000 ..< 0xF0000000}"
      "?x = 0 \<Longrightarrow> ?x \<in> {0 ..< 0x01000000}"
      by (simp_all add: div_eq_interval)
    show ?thesis unfolding private4_def block Un_iff singleton_iff using sub by blast
  qed
  finally show ?thesis .
qed

lemma ScopeOf_v6:
  assumes "\<not> Is4In6 (Addr6 w z)"
  shows "ScopeOf (Addr6 w z) = ScopePrivate \<longleftrightarrow> uint w \<in> private6 \<or> w = 0 \<and> z = []"
proof -
  let ?x = "uint w"
  have "ScopeOf (Addr6 w z) = ScopePrivate \<longleftrightarrow>
     ?x = 1 \<or> w = 0 \<and> z = [] \<or> ?x div 2 ^ 120 = 0xFF \<or> ?x div 2 ^ 118 = 0x3FA \<or> ?x div 2 ^ 121 = 0x7E"
    using assms ff_bits [of w] unfolding ScopeOf_def Let_def classify_defs IsPrivate_def privateV6_eq
    by (simp add: Is4In6_def Unmap_def Is6_def IsValid_def Prefix_Contains_v6 drop_bit_word_eq fe80_bits)
       (auto simp: word_uint_eq_iff)
  also have "\<dots> \<longleftrightarrow> ?x \<in> private6 \<or> w = 0 \<and> z = []"
    by (simp add: div_eq_interval private6_def) linarith
  finally show ?thesis .
qed

lemma Unmap_Unmap [simp]: "Unmap (Unmap a) = Unmap a"
  by (cases a) (auto simp: Unmap_def)

lemma ScopeOf_Unmap: "ScopeOf (Unmap a) = ScopeOf a"
  by (simp add: ScopeOf_def)

lemma ScopeOf_iff: "ScopeOf a = ScopePrivate \<longleftrightarrow> private_addr (Unmap a)"
proof -
  have "ScopeOf (Unmap a) = ScopePrivate \<longleftrightarrow> private_addr (Unmap a)"
  proof (cases "Unmap a")
    case AddrInvalid
    then show ?thesis by (simp add: ScopeOf_def private_addr_def addr_defs)
  next
    case (Addr6 w z)
    with Unmap_not_mapped [of a] show ?thesis by (simp add: private_addr_def ScopeOf_v6)
  qed (simp add: private_addr_def ScopeOf_v4)
  then show ?thesis by (simp add: ScopeOf_Unmap)
qed

section \<open>Lemmas: what a pass gathers\<close>

definition kept_by :: "scopeFilter \<Rightarrow> addr \<Rightarrow> bool" where
  "kept_by f a = (case f of ExcludeNone \<Rightarrow> True | Exclude sc \<Rightarrow> ScopeOf a \<noteq> sc | ExcludeAll \<Rightarrow> False)"

lemma apply_filter_eq: "apply_filter f addrs = (filter (kept_by f) addrs, length (filter (\<lambda>a. \<not> kept_by f a) addrs))"
proof -
  have "length addrs - length (filter P addrs) = length (filter (\<lambda>a. \<not> P a) addrs)" for P :: "addr \<Rightarrow> bool"
    using sum_length_filter_compl [of P addrs] by simp
  moreover have "(\<lambda>a. \<not> (f = ExcludeAll \<or> Exclude (ScopeOf a) = f)) = kept_by f" if "f \<noteq> ExcludeNone"
    using that by (cases f) (auto simp: kept_by_def fun_eq_iff)
  ultimately show ?thesis by (auto simp: apply_filter_def active_def Let_def kept_by_def)
qed

lemma dns_endpoints_plain:
  "dom pm = csp_Name ` set ports \<Longrightarrow> list_all (plain_endpoint ports) (dns_endpoints pm addrs)"
  by (simp add: dns_endpoints_def list_all_iff plain_endpoint_def zero_endpoint_def)

lemma addr_step_plain:
  assumes "dom pm = csp_Name ` set ports"
  shows "list_all (plain_endpoint ports) (fst acc) \<Longrightarrow>
     list_all (plain_endpoint ports) (fst (foldl (addr_step client network f pm) acc names))"
  by (induction names arbitrary: acc)
     (auto simp: addr_step_def dns_endpoints_plain [OF assms] split: prod.splits sum.splits)

lemma srv_target_step_plain:
  assumes "dom base = csp_Name ` set ports"
  shows "list_all (plain_endpoint ports) (fst acc) \<Longrightarrow>
     list_all (plain_endpoint ports) (fst (foldl (srv_target_step client f base pn) acc srvs))"
proof (induction srvs arbitrary: acc)
  case (Cons srv srvs)
  have "dom (if base pn \<noteq> None then base(pn \<mapsto> v) else base) = csp_Name ` set ports" for v
    using assms by auto
  then have "list_all (plain_endpoint ports) (fst (srv_target_step client f base pn acc srv))"
    using Cons.prems
    by (auto simp: srv_target_step_def Let_def dns_endpoints_plain split: prod.splits sum.splits)
  then show ?case using Cons.IH by simp
qed simp

lemma srv_step_plain:
  assumes "dom base = csp_Name ` set ports"
  shows "list_all (plain_endpoint ports) (fst acc) \<Longrightarrow>
     list_all (plain_endpoint ports) (fst (foldl (srv_step client f base pn) acc names))"
proof (induction names arbitrary: acc)
  case (Cons name names)
  then have "list_all (plain_endpoint ports) (fst (srv_step client f base pn acc name))"
    using srv_target_step_plain [OF assms, of acc]
    by (auto simp: srv_step_def split: prod.splits sum.splits)
  then show ?case using Cons.IH by simp
qed simp

lemma finish_Inr: "finish acc = Inr r \<Longrightarrow> r_Endpoints r = fst acc"
  by (auto simp: finish_def split: prod.splits if_splits)

interpretation dns: resolver_contract "DNS_Resolve intValue system d_Client" for intValue system d_Client
proof unfold_locales
  fix src ports st r st' e
  assume res: "DNS_Resolve intValue system d_Client src ports st = (Inr r, st')" and e: "e \<in> set (r_Endpoints r)"
  have "dom (defaultPortMap intValue ports) = csp_Name ` set ports" by (simp add: dom_defaultPortMap)
  note plain = addr_step_plain [OF this, of "([], [], [])"] srv_step_plain [OF this, of "([], [], [])"]
  obtain cfg client where "resolveSRV intValue client cfg ports = Inr r \<or> resolveAddr intValue client cfg ports = Inr r"
    using res by (auto simp: DNS_Resolve_def Let_def split: option.splits if_splits)
  then have "list_all (plain_endpoint ports) (r_Endpoints r)"
    using plain by (auto simp: resolveSRV_def resolveAddr_def Let_def finish_Inr)
  then show "endpoint_ok src ports e" using e by (rule plain_endpoints_ok)
qed

section \<open>Lemmas: lookups that succeed or fail\<close>

definition lookup_ok :: "LookupClient \<Rightarrow> string \<Rightarrow> string \<Rightarrow> bool" where
  "lookup_ok client network name \<longleftrightarrow> \<not> isl (lk_LookupNetIP client network (FQDN name))"

lemma addr_fold_errs:
  "fst (snd (foldl (addr_step client network f pm) acc names)) = [] \<longleftrightarrow>
     fst (snd acc) = [] \<and> list_all (lookup_ok client network) names"
  by (induction names arbitrary: acc)
     (auto simp: addr_step_def lookup_ok_def split: prod.splits sum.splits)

lemma addr_fold_out:
  "list_all (lookup_ok client network) names \<Longrightarrow>
   fst (foldl (addr_step client network f pm) acc names) = fst acc @
     concat (map (\<lambda>n. dns_endpoints pm (filter (kept_by f) (projr (lk_LookupNetIP client network (FQDN n))))) names)"
  by (induction names arbitrary: acc)
     (auto simp: addr_step_def lookup_ok_def apply_filter_eq split: prod.splits sum.splits)

section \<open>Properties\<close>

text \<open>
  An address is of private scope exactly when its unmapped value lies in one of the listed ranges,
  whichever of the library predicates and prefixes detects it, and public otherwise.
\<close>

theorem ScopeOf_spec: "ScopeOf a = (if private_addr (Unmap a) then ScopePrivate else ScopePublic)"
  using ScopeOf_iff [of a] by (cases "ScopeOf a") auto

text \<open>
  The two filters are exact complements: of any answer, what survives excluding the private addresses
  and what survives excluding the public ones together are the whole answer, each address once; with
  both flags set nothing survives, and with neither everything does.
\<close>

theorem scope_filters_complement:
  "mset (fst (apply_filter (newScopeFilter (cfg\<lparr>ds_ExcludePrivateIPs := True, ds_ExcludePublicIPs := False\<rparr>)) addrs)) +
   mset (fst (apply_filter (newScopeFilter (cfg\<lparr>ds_ExcludePrivateIPs := False, ds_ExcludePublicIPs := True\<rparr>)) addrs))
     = mset addrs \<and>
   fst (apply_filter (newScopeFilter (cfg\<lparr>ds_ExcludePrivateIPs := True, ds_ExcludePublicIPs := True\<rparr>)) addrs) = [] \<and>
   apply_filter (newScopeFilter (cfg\<lparr>ds_ExcludePrivateIPs := False, ds_ExcludePublicIPs := False\<rparr>)) addrs = (addrs, 0)"
proof -
  have "kept_by (Exclude ScopePublic) = (\<lambda>a. \<not> kept_by (Exclude ScopePrivate) a)"
  proof
    show "kept_by (Exclude ScopePublic) a = (\<not> kept_by (Exclude ScopePrivate) a)" for a
      by (cases "ScopeOf a") (simp_all add: kept_by_def)
  qed
  then have "mset (filter (kept_by (Exclude ScopePrivate)) addrs) + mset (filter (kept_by (Exclude ScopePublic)) addrs)
      = mset addrs"
    using multiset_partition [of "mset addrs" "kept_by (Exclude ScopePrivate)"] by simp
  moreover have "filter (kept_by ExcludeAll) addrs = []" "filter (kept_by ExcludeNone) addrs = addrs"
    "filter (\<lambda>a. \<not> kept_by ExcludeNone a) addrs = []"
    by (simp_all add: kept_by_def filter_empty_conv)
  ultimately show ?thesis by (simp add: newScopeFilter_def apply_filter_eq)
qed




end
