(* ===== verification/Remote_Types.thy ===== *)
theory Remote_Types
  imports API_Types
begin

text \<open>
  The custom resource \<^verbatim>\<open>RemoteCluster\<close> (\<^verbatim>\<open>api/v1alpha1/remotecluster_types.go\<close>
  and the types it shares): how a secondary cluster is reached and who may use it, with the admission
  rules that make its access configuration a tagged union.
\<close>

section \<open>Access\<close>

abbreviation AccessTypeInCluster :: string where "AccessTypeInCluster \<equiv> ''InCluster''"
abbreviation AccessTypeToken :: string where "AccessTypeToken \<equiv> ''Token''"
abbreviation AccessTypeKubeconfig :: string where "AccessTypeKubeconfig \<equiv> ''Kubeconfig''"
abbreviation AccessTypeGoogleToken :: string where "AccessTypeGoogleToken \<equiv> ''GoogleToken''"
abbreviation AccessTypeWorkloadIdentity :: string where "AccessTypeWorkloadIdentity \<equiv> ''WorkloadIdentity''"
abbreviation AccessTypeGKE :: string where "AccessTypeGKE \<equiv> ''GKE''"
abbreviation AccessTypeConnectGateway :: string where "AccessTypeConnectGateway \<equiv> ''ConnectGateway''"
abbreviation AccessTypeClientCertificate :: string where "AccessTypeClientCertificate \<equiv> ''ClientCertificate''"
abbreviation AccessTypeProjectedServiceAccount :: string where
  "AccessTypeProjectedServiceAccount \<equiv> ''ProjectedServiceAccount''"
abbreviation AccessTypeExecPlugin :: string where "AccessTypeExecPlugin \<equiv> ''ExecPlugin''"
abbreviation AccessTypeEKS :: string where "AccessTypeEKS \<equiv> ''EKS''"
abbreviation AccessTypeAKS :: string where "AccessTypeAKS \<equiv> ''AKS''"

record SecretKeyRef =
  skr_Name :: string
  skr_Key :: string

record TLSConfig =
  tls_CASecretRef :: "SecretKeyRef option"
  tls_ServerName :: string
  tls_InsecureSkipVerify :: bool

record ProxyConfig =
  px_URL :: string

record ImpersonationConfig =
  imp_UserName :: string
  imp_UID :: string
  imp_Groups :: "string list"
  imp_Extra :: "string \<rightharpoonup> string list"

record TokenAccess =
  ta_Server :: string
  ta_SecretRef :: SecretKeyRef

record KubeconfigAccess =
  ka_SecretRef :: SecretKeyRef
  ka_Context :: string

record GCPCredentials =
  gc_ServiceAccountKeySecretRef :: "SecretKeyRef option"
  gc_ImpersonateServiceAccount :: string
  gc_Scopes :: "string list"

record GoogleTokenAccess =
  gta_Server :: string
  gta_CASecretRef :: "SecretKeyRef option"
  gta_Credentials :: "GCPCredentials option"

record WorkloadIdentityAccess =
  wia_Server :: string
  wia_CASecretRef :: "SecretKeyRef option"
  wia_ServiceAccountEmail :: string
  wia_ImpersonateServiceAccount :: string
  wia_Scopes :: "string list"

record GKEAccess =
  gke_Project :: string
  gke_Location :: string
  gke_Cluster :: string
  gke_UsePrivateEndpoint :: bool
  gke_Credentials :: "GCPCredentials option"

record ConnectGatewayAccess =
  cga_Project :: string
  cga_Location :: string
  cga_Membership :: string
  cga_Credentials :: "GCPCredentials option"

record ClientCertAccess =
  cca_Server :: string
  cca_CASecretRef :: "SecretKeyRef option"
  cca_SecretName :: string
  cca_CertKey :: string
  cca_KeyKey :: string

record ProjectedSAAccess =
  psa_Server :: string
  psa_CASecretRef :: "SecretKeyRef option"
  psa_Audience :: string
  psa_TokenPath :: string

record ExecEnvVar =
  eev_Name :: string
  eev_Value :: string

record ExecPluginAccess =
  epa_Server :: string
  epa_CASecretRef :: "SecretKeyRef option"
  epa_Command :: string
  epa_Args :: "string list"
  epa_Env :: "ExecEnvVar list"
  epa_APIVersion :: string
  epa_InstallHint :: string

record AWSCredentials =
  aws_AccessKeySecretRef :: "SecretKeyRef option"
  aws_AssumeRoleARN :: string

record EKSAccess =
  eks_Region :: string
  eks_Cluster :: string
  eks_Credentials :: "AWSCredentials option"

record AzureCredentials =
  az_ClientSecretRef :: "SecretKeyRef option"
  az_ClientID :: string
  az_TenantID :: string
  az_ServerApplicationID :: string

record AKSAccess =
  aks_Server :: string
  aks_CASecretRef :: "SecretKeyRef option"
  aks_SubscriptionID :: string
  aks_ResourceGroup :: string
  aks_Cluster :: string
  aks_Credentials :: "AzureCredentials option"

text \<open>\<^verbatim>\<open>InClusterAccess\<close> has no fields.\<close>

record ClusterAccess =
  ca_Type :: string
  ca_InCluster :: "unit option"
  ca_Token :: "TokenAccess option"
  ca_Kubeconfig :: "KubeconfigAccess option"
  ca_GoogleToken :: "GoogleTokenAccess option"
  ca_WorkloadIdentity :: "WorkloadIdentityAccess option"
  ca_GKE :: "GKEAccess option"
  ca_ConnectGateway :: "ConnectGatewayAccess option"
  ca_ClientCertificate :: "ClientCertAccess option"
  ca_ProjectedServiceAccount :: "ProjectedSAAccess option"
  ca_ExecPlugin :: "ExecPluginAccess option"
  ca_EKS :: "EKSAccess option"
  ca_AKS :: "AKSAccess option"
  ca_TLS :: "TLSConfig option"
  ca_Proxy :: "ProxyConfig option"
  ca_Impersonate :: "ImpersonationConfig option"
  ca_Timeout :: "duration option"
  ca_QPS :: int32
  ca_Burst :: int32
  ca_ResyncPeriod :: "duration option"

section \<open>The resource\<close>

record NamespaceSelector =
  nss_MatchNames :: "string list"
  nss_Selector :: "LabelSelector option"

record RemoteClusterSpec =
  rcs_DisplayName :: string
  rcs_Access :: ClusterAccess
  rcs_AllowedNamespaces :: "NamespaceSelector option"
  rcs_AddressPolicy :: "AddressPolicy option"

record RemoteClusterStatus =
  rst_Conditions :: "StatusCondition list"
  rst_ObservedGeneration :: int
  rst_KubernetesVersion :: string
  rst_Endpoint :: string
  rst_LastProbeTime :: "time option"
  rst_ConsumerCount :: int32

record RemoteCluster =
  rc_Name :: string
  rc_Generation :: int
  rc_DeletionTimestamp :: "time option"
  rc_Finalizers :: "string list"
  rc_Spec :: RemoteClusterSpec
  rc_Status :: RemoteClusterStatus

definition RemoteClusterFinalizer :: string where
  "RemoteClusterFinalizer = ProjectGroup @ ''/remotecluster''"

text \<open>Condition types and reasons.\<close>

abbreviation ConditionReady :: string where "ConditionReady \<equiv> ''Ready''"
abbreviation ConditionSourcesResolved :: string where "ConditionSourcesResolved \<equiv> ''SourcesResolved''"
abbreviation ConditionServiceReady :: string where "ConditionServiceReady \<equiv> ''ServiceReady''"
abbreviation ConditionEndpointsWritten :: string where "ConditionEndpointsWritten \<equiv> ''EndpointsWritten''"
abbreviation ConditionDegraded :: string where "ConditionDegraded \<equiv> ''Degraded''"
abbreviation ConditionAuthenticated :: string where "ConditionAuthenticated \<equiv> ''Authenticated''"
abbreviation ConditionReachable :: string where "ConditionReachable \<equiv> ''Reachable''"

abbreviation ReasonInvalidSpec :: string where "ReasonInvalidSpec \<equiv> ''InvalidSpec''"
abbreviation ReasonClusterNotFound :: string where "ReasonClusterNotFound \<equiv> ''ClusterNotFound''"
abbreviation ReasonClusterAccessDenied :: string where "ReasonClusterAccessDenied \<equiv> ''ClusterAccessDenied''"
abbreviation ReasonAuthenticationFailed :: string where "ReasonAuthenticationFailed \<equiv> ''AuthenticationFailed''"
abbreviation ReasonNetworkUnreachable :: string where "ReasonNetworkUnreachable \<equiv> ''NetworkUnreachable''"
abbreviation ReasonDNSResolutionFailed :: string where "ReasonDNSResolutionFailed \<equiv> ''DNSResolutionFailed''"
abbreviation ReasonNoEndpointsFound :: string where "ReasonNoEndpointsFound \<equiv> ''NoEndpointsFound''"
abbreviation ReasonAddressPolicyRejected :: string where "ReasonAddressPolicyRejected \<equiv> ''AddressPolicyRejected''"
abbreviation ReasonPartialFailure :: string where "ReasonPartialFailure \<equiv> ''PartialFailure''"
abbreviation ReasonAccessTypeNotImplemented :: string where
  "ReasonAccessTypeNotImplemented \<equiv> ''AccessTypeNotImplemented''"

section \<open>Admission\<close>

text \<open>
  The validation rules on \<^verbatim>\<open>ClusterAccess\<close>: a payload is present if and only if the type
  names it (\<^verbatim>\<open>inCluster\<close> may be left out), and the type is one of the listed ones.
\<close>

definition access_admitted :: "ClusterAccess \<Rightarrow> bool" where
  "access_admitted a \<longleftrightarrow>
     ca_Type a \<in> {AccessTypeInCluster, AccessTypeToken, AccessTypeKubeconfig, AccessTypeGoogleToken,
       AccessTypeWorkloadIdentity, AccessTypeGKE, AccessTypeConnectGateway, AccessTypeClientCertificate,
       AccessTypeProjectedServiceAccount, AccessTypeExecPlugin, AccessTypeEKS, AccessTypeAKS} \<and>
     (ca_Type a = AccessTypeInCluster \<or> ca_InCluster a = None) \<and>
     (ca_Type a = AccessTypeToken \<longleftrightarrow> ca_Token a \<noteq> None) \<and>
     (ca_Type a = AccessTypeKubeconfig \<longleftrightarrow> ca_Kubeconfig a \<noteq> None) \<and>
     (ca_Type a = AccessTypeGoogleToken \<longleftrightarrow> ca_GoogleToken a \<noteq> None) \<and>
     (ca_Type a = AccessTypeGKE \<longleftrightarrow> ca_GKE a \<noteq> None) \<and>
     (ca_Type a = AccessTypeConnectGateway \<longleftrightarrow> ca_ConnectGateway a \<noteq> None) \<and>
     (ca_Type a = AccessTypeClientCertificate \<longleftrightarrow> ca_ClientCertificate a \<noteq> None) \<and>
     (ca_Type a = AccessTypeProjectedServiceAccount \<longleftrightarrow> ca_ProjectedServiceAccount a \<noteq> None) \<and>
     (ca_Type a = AccessTypeExecPlugin \<longleftrightarrow> ca_ExecPlugin a \<noteq> None) \<and>
     (ca_Type a = AccessTypeWorkloadIdentity \<longleftrightarrow> ca_WorkloadIdentity a \<noteq> None) \<and>
     (ca_Type a = AccessTypeEKS \<longleftrightarrow> ca_EKS a \<noteq> None) \<and>
     (ca_Type a = AccessTypeAKS \<longleftrightarrow> ca_AKS a \<noteq> None)"

text \<open>The zero value of an access configuration, the starting point for concrete inputs.\<close>

definition zero_access :: ClusterAccess where
  "zero_access = \<lparr>ca_Type = [], ca_InCluster = None, ca_Token = None, ca_Kubeconfig = None, ca_GoogleToken = None,
     ca_WorkloadIdentity = None, ca_GKE = None, ca_ConnectGateway = None, ca_ClientCertificate = None,
     ca_ProjectedServiceAccount = None, ca_ExecPlugin = None, ca_EKS = None, ca_AKS = None, ca_TLS = None,
     ca_Proxy = None, ca_Impersonate = None, ca_Timeout = None, ca_QPS = 0, ca_Burst = 0, ca_ResyncPeriod = None\<rparr>"

definition zero_remote_status :: RemoteClusterStatus where
  "zero_remote_status = \<lparr>rst_Conditions = [], rst_ObservedGeneration = 0, rst_KubernetesVersion = [],
     rst_Endpoint = [], rst_LastProbeTime = None, rst_ConsumerCount = 0\<rparr>"

definition cluster_with :: "string \<Rightarrow> ClusterAccess \<Rightarrow> RemoteCluster" where
  "cluster_with name access = \<lparr>rc_Name = name, rc_Generation = 1, rc_DeletionTimestamp = None, rc_Finalizers = [],
     rc_Spec = \<lparr>rcs_DisplayName = [], rcs_Access = access, rcs_AllowedNamespaces = None, rcs_AddressPolicy = None\<rparr>,
     rc_Status = zero_remote_status\<rparr>"

end
