(* ===== verification/Auth.thy ===== *)
theory Auth
  imports Remote_Types
begin

text \<open>
  \<^verbatim>\<open>internal/clusters/auth\<close>: a \<^verbatim>\<open>RemoteCluster\<close>'s access specification turned into the
  configuration of a client, with a fingerprint of the credentials that went into it.

  What the package calls of libraries is one parameter, the record \<open>AuthLib\<close>: the client
  configuration of the pod, the kubeconfig loader, Google's credential discovery, the HTTP exchange with
  the GKE API, URL and base64 decoding and the hash.  The API client is seen by its read of a Secret.  A
  token source is a value that says where its tokens come from.
\<close>

section \<open>Model: configurations and errors\<close>

type_synonym bytes = string

datatype token_source =
    DefaultCredentials "string list"
  | ServiceAccountKey bytes "string list"
  | Impersonated token_source string "string list"
  | ClientCredentials string bytes string "string list"

record TLSClientConfig =
  tc_Insecure :: bool
  tc_ServerName :: string
  tc_CAData :: bytes
  tc_CertData :: bytes
  tc_KeyData :: bytes

text \<open>The rate limit is the \<^verbatim>\<open>float32\<close> of an integer, kept as that integer.\<close>

datatype float32 = Float32 int32

record RestConfig =
  cfg_Host :: string
  cfg_BearerToken :: string
  cfg_TLS :: TLSClientConfig
  cfg_TokenSource :: "token_source option"
  cfg_ExecProvider :: bool
  cfg_Impersonate :: ImpersonationConfig
  cfg_Timeout :: duration
  cfg_QPS :: float32
  cfg_Burst :: int
  cfg_Proxy :: "string option"

definition zero_tls :: TLSClientConfig where
  "zero_tls = \<lparr>tc_Insecure = False, tc_ServerName = [], tc_CAData = [], tc_CertData = [], tc_KeyData = []\<rparr>"

definition zero_config :: RestConfig where
  "zero_config = \<lparr>cfg_Host = [], cfg_BearerToken = [], cfg_TLS = zero_tls, cfg_TokenSource = None,
     cfg_ExecProvider = False,
     cfg_Impersonate = \<lparr>imp_UserName = [], imp_UID = [], imp_Groups = [], imp_Extra = Map.empty\<rparr>,
     cfg_Timeout = 0, cfg_QPS = Float32 0, cfg_Burst = 0, cfg_Proxy = None\<rparr>"

record GKECluster =
  gk_Endpoint :: string
  gk_PrivateEndpoint :: string
  gk_ClusterCaCertificate :: string

record GKEReply =
  gr_StatusCode :: int
  gr_Status :: string
  gr_Decoded :: "GKECluster result"

record AuthLib =
  al_InClusterConfig :: "RestConfig result"
  al_NewClientConfigFromBytes :: "bytes \<Rightarrow> go_error option"
  al_Load :: "bytes \<Rightarrow> go_error option"
  al_ClientConfig :: "bytes \<Rightarrow> string \<Rightarrow> RestConfig result"
  al_FindDefaultCredentials :: "string list \<Rightarrow> go_error option"
  al_CredentialsFromJSON :: "bytes \<Rightarrow> string list \<Rightarrow> go_error option"
  al_NewRequest :: "string \<Rightarrow> go_error option"
  al_Do :: "token_source \<Rightarrow> string \<Rightarrow> GKEReply result"
  al_DecodeBase64 :: "string \<Rightarrow> bytes result"
  al_ParseURL :: "string \<Rightarrow> string result"
  al_SHA256 :: "bytes \<Rightarrow> string"

text \<open>Calls in sequence, the first error ending them.\<close>

definition bindR :: "'a result \<Rightarrow> ('a \<Rightarrow> 'b result) \<Rightarrow> 'b result" where
  "bindR r f = (case r of Inl err \<Rightarrow> Inl err | Inr v \<Rightarrow> f v)"

definition checkR :: "msg \<Rightarrow> go_error option \<Rightarrow> unit result" where
  "checkR m err = (case err of None \<Rightarrow> Inr () | Some e \<Rightarrow> Inl (Wrapped m e))"

text \<open>Dereferencing a payload that is absent.\<close>

definition payload :: "'a option \<Rightarrow> 'a result" where
  "payload x = (case x of None \<Rightarrow> Inl (Errorf [Lit ''invalid memory address or nil pointer dereference'']) | Some v \<Rightarrow> Inr v)"

section \<open>Model: options, secrets, fingerprint\<close>

record Options =
  opt_CredentialsNamespace :: string
  opt_AllowInsecureTLS :: bool
  opt_AllowExecCredentials :: bool
  opt_ExecCommandAllowlist :: "string list"

record Secrets =
  sec_Get :: "NamespacedName \<Rightarrow> (string \<rightharpoonup> bytes) result"
  sec_Namespace :: string

record Builder =
  bld_Secrets :: Secrets
  bld_Options :: Options

record BuildResult =
  br_Config :: RestConfig
  br_Fingerprint :: string
  br_ResyncPeriod :: duration

definition Secrets_Value :: "Secrets \<Rightarrow> SecretKeyRef \<Rightarrow> string list \<Rightarrow> bytes result" where
  "Secrets_Value s ref defaultKeys =
     (case sec_Get s \<lparr>nn_Namespace = sec_Namespace s, nn_Name = skr_Name ref\<rparr> of
        Inl err \<Rightarrow> Inl (Wrapped [Lit ''reading secret '', Lit (sec_Namespace s), Lit ''/'', Lit (skr_Name ref), Lit '': ''] err)
      | Inr data \<Rightarrow>
          let candidates = (if skr_Key ref \<noteq> [] then [skr_Key ref] else defaultKeys)
          in (case find (\<lambda>k. case data k of None \<Rightarrow> False | Some v \<Rightarrow> 0 < length v) candidates of
                Some k \<Rightarrow> Inr (the (data k))
              | None \<Rightarrow> Inl (Errorf [Lit ''secret '', Lit (sec_Namespace s), Lit ''/'', Lit (skr_Name ref),
                  Lit '' has none of the expected keys ['', Lit (join '' '' candidates), Lit '']''])))"

type_synonym fingerprint = bytes

definition newFingerprint :: fingerprint where
  "newFingerprint = []"

definition fp_add :: "fingerprint \<Rightarrow> string \<Rightarrow> string \<Rightarrow> fingerprint" where
  "fp_add f label value = f @ label @ [CHR 0x00] @ value @ [CHR 0x00]"

definition fp_addBytes :: "fingerprint \<Rightarrow> string \<Rightarrow> bytes \<Rightarrow> fingerprint" where
  "fp_addBytes f label value = f @ label @ [CHR 0x00] @ value @ [CHR 0x00]"

definition fp_sum :: "AuthLib \<Rightarrow> fingerprint \<Rightarrow> string" where
  "fp_sum lib f = al_SHA256 lib f"

definition defaultResyncPeriod :: duration where
  "defaultResyncPeriod = 10 * Minute"

section \<open>Model: shared parts of a configuration\<close>

definition checkTLSPermitted :: "Builder \<Rightarrow> ClusterAccess \<Rightarrow> unit result" where
  "checkTLSPermitted b access =
     (case ca_TLS access of
        Some t \<Rightarrow>
          if tls_InsecureSkipVerify t \<and> \<not> opt_AllowInsecureTLS (bld_Options b)
          then Inl (ErrNotPermitted [Lit ''insecureSkipVerify requires the controller to run with --allow-insecure-tls''])
          else Inr ()
      | None \<Rightarrow> Inr ())"

definition tlsFrom ::
    "Builder \<Rightarrow> ClusterAccess \<Rightarrow> SecretKeyRef option \<Rightarrow> fingerprint \<Rightarrow> (TLSClientConfig \<times> fingerprint) result" where
  "tlsFrom b access own fp =
     (let ref = (case own of Some r \<Rightarrow> Some r
                 | None \<Rightarrow> (case ca_TLS access of None \<Rightarrow> None | Some t \<Rightarrow> tls_CASecretRef t))
      in bindR (case ref of
             None \<Rightarrow> Inr (zero_tls, fp)
           | Some r \<Rightarrow> bindR (Secrets_Value (bld_Secrets b) r [''ca.crt''])
               (\<lambda>ca. Inr (zero_tls\<lparr>tc_CAData := ca\<rparr>, fp_addBytes fp ''ca'' ca)))
         (\<lambda>(out, fp). Inr (case ca_TLS access of
             None \<Rightarrow> (out, fp)
           | Some t \<Rightarrow> (out\<lparr>tc_ServerName := tls_ServerName t, tc_Insecure := tls_InsecureSkipVerify t\<rparr>,
                         fp_add fp ''serverName'' (tls_ServerName t)))))"

definition applyClientTuning :: "RestConfig \<Rightarrow> ClusterAccess \<Rightarrow> RestConfig" where
  "applyClientTuning cfg access =
     (let cfg = (case ca_Timeout access of None \<Rightarrow> cfg | Some d \<Rightarrow> cfg\<lparr>cfg_Timeout := d\<rparr>);
          cfg = (if 0 < sint (ca_QPS access) then cfg\<lparr>cfg_QPS := Float32 (ca_QPS access)\<rparr> else cfg)
      in if 0 < sint (ca_Burst access) then cfg\<lparr>cfg_Burst := sint (ca_Burst access)\<rparr> else cfg)"

definition applyImpersonation :: "RestConfig \<Rightarrow> ClusterAccess \<Rightarrow> RestConfig" where
  "applyImpersonation cfg access =
     (case ca_Impersonate access of
        None \<Rightarrow> cfg
      | Some i \<Rightarrow> cfg\<lparr>cfg_Impersonate := \<lparr>imp_UserName = imp_UserName i, imp_UID = imp_UID i,
                       imp_Groups = imp_Groups i, imp_Extra = imp_Extra i\<rparr>\<rparr>)"

definition parseProxyURL :: "AuthLib \<Rightarrow> string \<Rightarrow> string result" where
  "parseProxyURL lib raw =
     (case al_ParseURL lib raw of Inl err \<Rightarrow> Inl (Wrapped [Lit ''invalid proxy URL: ''] err) | Inr u \<Rightarrow> Inr u)"

definition applyProxy ::
    "AuthLib \<Rightarrow> RestConfig \<Rightarrow> ClusterAccess \<Rightarrow> fingerprint \<Rightarrow> (RestConfig \<times> fingerprint) result" where
  "applyProxy lib cfg access fp =
     (case ca_Proxy access of
        None \<Rightarrow> Inr (cfg, fp)
      | Some p \<Rightarrow> bindR (parseProxyURL lib (px_URL p))
          (\<lambda>u. Inr (cfg\<lparr>cfg_Proxy := Some u\<rparr>, fp_add fp ''proxy'' (px_URL p))))"

section \<open>Model: the access types\<close>

definition buildInCluster :: "AuthLib \<Rightarrow> RestConfig result" where
  "buildInCluster lib =
     (case al_InClusterConfig lib of
        Inl err \<Rightarrow> Inl (Wrapped [Lit ''building in-cluster config: ''] err)
      | Inr cfg \<Rightarrow> Inr cfg)"

definition buildToken :: "Builder \<Rightarrow> ClusterAccess \<Rightarrow> fingerprint \<Rightarrow> (RestConfig \<times> fingerprint) result" where
  "buildToken b access fp =
     bindR (payload (ca_Token access)) (\<lambda>cfg.
     bindR (Secrets_Value (bld_Secrets b) (ta_SecretRef cfg) [''token'']) (\<lambda>token.
     bindR (tlsFrom b access None fp) (\<lambda>(tlsCfg, fp).
       Inr (zero_config\<lparr>cfg_Host := ta_Server cfg, cfg_BearerToken := token, cfg_TLS := tlsCfg\<rparr>,
            fp_addBytes (fp_add fp ''server'' (ta_Server cfg)) ''token'' token))))"

text \<open>
  \<^verbatim>\<open>mustRawConfig\<close> gives nil where the loader fails, and the caller dereferences it; the error of
  the dereference stands for the panic.
\<close>

definition mustRawConfig :: "AuthLib \<Rightarrow> bytes \<Rightarrow> bytes option" where
  "mustRawConfig lib raw = (case al_Load lib raw of Some err \<Rightarrow> None | None \<Rightarrow> Some raw)"

definition buildKubeconfig ::
    "AuthLib \<Rightarrow> Builder \<Rightarrow> ClusterAccess \<Rightarrow> fingerprint \<Rightarrow> (RestConfig \<times> fingerprint) result" where
  "buildKubeconfig lib b access fp =
     bindR (payload (ca_Kubeconfig access)) (\<lambda>cfg.
     bindR (Secrets_Value (bld_Secrets b) (ka_SecretRef cfg) [''value'', ''config'']) (\<lambda>raw.
     bindR (checkR [Lit ''parsing kubeconfig from secret '', Lit (skr_Name (ka_SecretRef cfg)), Lit '': '']
              (al_NewClientConfigFromBytes lib raw)) (\<lambda>_.
     bindR (if ka_Context cfg \<noteq> [] then payload (mustRawConfig lib raw) else Inr raw) (\<lambda>clientCfg.
     bindR (case al_ClientConfig lib clientCfg (ka_Context cfg) of
              Inl err \<Rightarrow> Inl (Wrapped [Lit ''building rest config from kubeconfig secret '',
                  Lit (skr_Name (ka_SecretRef cfg)), Lit '': ''] err)
            | Inr c \<Rightarrow> Inr c) (\<lambda>restCfg.
       if cfg_ExecProvider restCfg \<and> \<not> opt_AllowExecCredentials (bld_Options b) then
         Inl (ErrNotPermitted [Lit ''kubeconfig uses an exec credential plugin, which requires --allow-exec-credentials''])
       else if tc_Insecure (cfg_TLS restCfg) \<and> \<not> opt_AllowInsecureTLS (bld_Options b) then
         Inl (ErrNotPermitted [Lit ''kubeconfig disables TLS verification, which requires --allow-insecure-tls''])
       else Inr (restCfg, fp_add (fp_addBytes fp ''kubeconfig'' raw) ''context'' (ka_Context cfg)))))))"

definition defaultGoogleScope :: string where
  "defaultGoogleScope = ''https://www.googleapis.com/auth/cloud-platform''"

definition wrapWithTokenSource :: "string \<Rightarrow> TLSClientConfig \<Rightarrow> token_source \<Rightarrow> RestConfig" where
  "wrapWithTokenSource server tlsCfg ts =
     zero_config\<lparr>cfg_Host := server, cfg_TLS := tlsCfg, cfg_TokenSource := Some ts\<rparr>"

text \<open>
  The constructor puts a cache of the library in front of the source; as a value, a token source is where its tokens come from.
\<close>

definition newImpersonatedTokenSource :: "token_source \<Rightarrow> string \<Rightarrow> string list \<Rightarrow> token_source" where
  "newImpersonatedTokenSource base target scopes = Impersonated base target scopes"

definition googleTokenSource ::
    "AuthLib \<Rightarrow> Builder \<Rightarrow> GCPCredentials option \<Rightarrow> fingerprint \<Rightarrow> (token_source \<times> fingerprint) result" where
  "googleTokenSource lib b creds fp =
     (let scopes = (case creds of None \<Rightarrow> [defaultGoogleScope]
                    | Some c \<Rightarrow> if 0 < length (gc_Scopes c) then gc_Scopes c else [defaultGoogleScope]);
          key = (case creds of None \<Rightarrow> None | Some c \<Rightarrow> gc_ServiceAccountKeySecretRef c);
          target = (case creds of None \<Rightarrow> [] | Some c \<Rightarrow> gc_ImpersonateServiceAccount c)
      in bindR (case key of
             Some ref \<Rightarrow>
               bindR (Secrets_Value (bld_Secrets b) ref [''key.json'']) (\<lambda>keyJSON.
               bindR (checkR [Lit ''parsing google service account key: ''] (al_CredentialsFromJSON lib keyJSON scopes)) (\<lambda>_.
                 Inr (ServiceAccountKey keyJSON scopes, fp_addBytes fp ''gcpKey'' keyJSON)))
           | None \<Rightarrow>
               bindR (checkR [Lit ''resolving application default credentials: ''] (al_FindDefaultCredentials lib scopes)) (\<lambda>_.
                 Inr (DefaultCredentials scopes, fp_add fp ''gcpCreds'' ''adc'')))
         (\<lambda>(base, fp).
            if target \<noteq> [] then Inr (newImpersonatedTokenSource base target scopes, fp_add fp ''impersonate'' target)
            else Inr (base, fp)))"

definition buildGoogleToken ::
    "AuthLib \<Rightarrow> Builder \<Rightarrow> ClusterAccess \<Rightarrow> fingerprint \<Rightarrow> (RestConfig \<times> fingerprint) result" where
  "buildGoogleToken lib b access fp =
     bindR (payload (ca_GoogleToken access)) (\<lambda>cfg.
     bindR (tlsFrom b access (gta_CASecretRef cfg) fp) (\<lambda>(tlsCfg, fp).
     bindR (googleTokenSource lib b (gta_Credentials cfg) fp) (\<lambda>(ts, fp).
       Inr (wrapWithTokenSource (gta_Server cfg) tlsCfg ts, fp_add fp ''server'' (gta_Server cfg)))))"

definition buildWorkloadIdentity ::
    "AuthLib \<Rightarrow> Builder \<Rightarrow> ClusterAccess \<Rightarrow> fingerprint \<Rightarrow> (RestConfig \<times> fingerprint) result" where
  "buildWorkloadIdentity lib b access fp =
     bindR (payload (ca_WorkloadIdentity access)) (\<lambda>cfg.
     bindR (tlsFrom b access (wia_CASecretRef cfg) fp) (\<lambda>(tlsCfg, fp).
       let scopes = (if length (wia_Scopes cfg) = 0 then [defaultGoogleScope] else wia_Scopes cfg)
       in bindR (checkR [Lit ''resolving workload identity credentials: ''] (al_FindDefaultCredentials lib scopes)) (\<lambda>_.
            let (ts, fp) =
              (if wia_ImpersonateServiceAccount cfg \<noteq> []
               then (newImpersonatedTokenSource (DefaultCredentials scopes) (wia_ImpersonateServiceAccount cfg) scopes,
                     fp_add fp ''impersonate'' (wia_ImpersonateServiceAccount cfg))
               else (DefaultCredentials scopes, fp))
            in Inr (wrapWithTokenSource (wia_Server cfg) tlsCfg ts,
                 fp_add (fp_add fp ''server'' (wia_Server cfg)) ''wiIdentity'' (wia_ServiceAccountEmail cfg)))))"

definition buildClientCertificate ::
    "Builder \<Rightarrow> ClusterAccess \<Rightarrow> fingerprint \<Rightarrow> (RestConfig \<times> fingerprint) result" where
  "buildClientCertificate b access fp =
     bindR (payload (ca_ClientCertificate access)) (\<lambda>cfg.
       let certKey = (if cca_CertKey cfg = [] then ''tls.crt'' else cca_CertKey cfg);
           keyKey = (if cca_KeyKey cfg = [] then ''tls.key'' else cca_KeyKey cfg)
       in bindR (Secrets_Value (bld_Secrets b) \<lparr>skr_Name = cca_SecretName cfg, skr_Key = certKey\<rparr> [certKey]) (\<lambda>certPEM.
          bindR (Secrets_Value (bld_Secrets b) \<lparr>skr_Name = cca_SecretName cfg, skr_Key = keyKey\<rparr> [keyKey]) (\<lambda>keyPEM.
          bindR (tlsFrom b access (cca_CASecretRef cfg) fp) (\<lambda>(tlsCfg, fp).
            Inr (zero_config\<lparr>cfg_Host := cca_Server cfg,
                   cfg_TLS := tlsCfg\<lparr>tc_CertData := certPEM, tc_KeyData := keyPEM\<rparr>\<rparr>,
                 fp_addBytes (fp_addBytes (fp_add fp ''server'' (cca_Server cfg)) ''clientCert'' certPEM)
                   ''clientKey'' keyPEM)))))"

definition gkeAPIBase :: string where
  "gkeAPIBase = ''https://container.googleapis.com/v1''"

definition decodeBase64 :: "AuthLib \<Rightarrow> string \<Rightarrow> bytes result" where
  "decodeBase64 lib s = al_DecodeBase64 lib s"

definition discoverGKECluster :: "AuthLib \<Rightarrow> token_source \<Rightarrow> GKEAccess \<Rightarrow> (string \<times> bytes) result" where
  "discoverGKECluster lib ts cfg =
     (let url = gkeAPIBase @ ''/projects/'' @ gke_Project cfg @ ''/locations/'' @ gke_Location cfg @
                ''/clusters/'' @ gke_Cluster cfg
      in bindR (case al_NewRequest lib url of Some err \<Rightarrow> Inl err | None \<Rightarrow> Inr ()) (\<lambda>_.
         bindR (case al_Do lib ts url of
                  Inl err \<Rightarrow> Inl (Wrapped [Lit ''querying the GKE API for '', Lit (gke_Cluster cfg), Lit '': ''] err)
                | Inr resp \<Rightarrow> Inr resp) (\<lambda>resp.
           if gr_StatusCode resp \<noteq> 200 then
             Inl (Errorf [Lit ''querying the GKE API for '', Lit (gke_Cluster cfg), Lit '': '', Lit (gr_Status resp),
               Lit '' (does the identity hold roles/container.clusterViewer?)''])
           else bindR (case gr_Decoded resp of
                  Inl err \<Rightarrow> Inl (Wrapped [Lit ''decoding the GKE API response: ''] err)
                | Inr out \<Rightarrow> Inr out) (\<lambda>out.
           bindR (if gke_UsePrivateEndpoint cfg then
                    (if gk_PrivateEndpoint out = []
                     then Inl (Errorf [Lit ''cluster '', Lit (gke_Cluster cfg), Lit '' has no private endpoint''])
                     else Inr (gk_PrivateEndpoint out))
                  else Inr (gk_Endpoint out)) (\<lambda>endpoint.
           if endpoint = [] then Inl (Errorf [Lit ''cluster '', Lit (gke_Cluster cfg), Lit '' reported no endpoint''])
           else if gk_ClusterCaCertificate out \<noteq> [] then
             (case decodeBase64 lib (gk_ClusterCaCertificate out) of
                Inl err \<Rightarrow> Inl (Wrapped [Lit ''decoding the cluster CA for '', Lit (gke_Cluster cfg), Lit '': ''] err)
              | Inr caPEM \<Rightarrow> Inr (endpoint, caPEM))
           else Inr (endpoint, []))))))"

definition buildGKE ::
    "AuthLib \<Rightarrow> Builder \<Rightarrow> ClusterAccess \<Rightarrow> fingerprint \<Rightarrow> (RestConfig \<times> fingerprint) result" where
  "buildGKE lib b access fp =
     bindR (payload (ca_GKE access)) (\<lambda>cfg.
     bindR (googleTokenSource lib b (gke_Credentials cfg) fp) (\<lambda>(ts, fp).
     bindR (discoverGKECluster lib ts cfg) (\<lambda>(endpoint, caPEM).
     bindR (tlsFrom b access None fp) (\<lambda>(tlsCfg, fp).
       let tlsCfg = (if 0 < length caPEM then tlsCfg\<lparr>tc_CAData := caPEM\<rparr> else tlsCfg);
           fp = fp_add fp ''gkeCluster'' (gke_Project cfg @ ''/'' @ gke_Location cfg @ ''/'' @ gke_Cluster cfg);
           fp = fp_add fp ''gkePrivate'' (if gke_UsePrivateEndpoint cfg then ''true'' else ''false'')
       in Inr (wrapWithTokenSource (''https://'' @ endpoint) tlsCfg ts, fp)))))"

definition aksServerApplicationID :: string where
  "aksServerApplicationID = ''6dae42f8-4368-4678-94ff-3960e28e3630''"

definition buildAKS :: "Builder \<Rightarrow> ClusterAccess \<Rightarrow> fingerprint \<Rightarrow> (RestConfig \<times> fingerprint) result" where
  "buildAKS b access fp =
     bindR (payload (ca_AKS access)) (\<lambda>cfg.
       case aks_Credentials cfg of
         None \<Rightarrow> Inl (ErrAccessTypeNotImplemented AccessTypeAKS)
       | Some creds \<Rightarrow>
           (case az_ClientSecretRef creds of
              None \<Rightarrow> Inl (ErrAccessTypeNotImplemented AccessTypeAKS)
            | Some ref \<Rightarrow>
                bindR (Secrets_Value (bld_Secrets b) ref [''clientSecret'']) (\<lambda>secret.
                  let audience = (if az_ServerApplicationID creds = [] then aksServerApplicationID
                                  else az_ServerApplicationID creds);
                      conf = ClientCredentials (az_ClientID creds) secret
                        (''https://login.microsoftonline.com/'' @ az_TenantID creds @ ''/oauth2/v2.0/token'')
                        [audience @ ''/.default'']
                  in bindR (tlsFrom b access (aks_CASecretRef cfg) fp) (\<lambda>(tlsCfg, fp).
                    let fp = fp_add fp ''server'' (aks_Server cfg);
                        fp = fp_add fp ''azureClient'' (az_ClientID creds);
                        fp = fp_add fp ''azureTenant'' (az_TenantID creds);
                        fp = fp_addBytes fp ''azureSecret'' secret
                    in Inr (wrapWithTokenSource (aks_Server cfg) tlsCfg conf, fp)))))"

section \<open>Model: dispatch, and the Secrets to watch\<close>

definition build_access ::
    "AuthLib \<Rightarrow> Builder \<Rightarrow> ClusterAccess \<Rightarrow> fingerprint \<Rightarrow> (RestConfig \<times> fingerprint) result" where
  "build_access lib b access fp =
     (if ca_Type access = AccessTypeInCluster then bindR (buildInCluster lib) (\<lambda>cfg. Inr (cfg, fp))
      else if ca_Type access = AccessTypeToken then buildToken b access fp
      else if ca_Type access = AccessTypeKubeconfig then buildKubeconfig lib b access fp
      else if ca_Type access = AccessTypeGoogleToken then buildGoogleToken lib b access fp
      else if ca_Type access = AccessTypeWorkloadIdentity then buildWorkloadIdentity lib b access fp
      else if ca_Type access = AccessTypeClientCertificate then buildClientCertificate b access fp
      else if ca_Type access = AccessTypeGKE then buildGKE lib b access fp
      else if ca_Type access = AccessTypeAKS then buildAKS b access fp
      else Inl (ErrAccessTypeNotImplemented (ca_Type access)))"

definition Builder_Build :: "AuthLib \<Rightarrow> Builder \<Rightarrow> RemoteCluster \<Rightarrow> BuildResult result" where
  "Builder_Build lib b rc =
     (let access = rcs_Access (rc_Spec rc)
      in bindR (checkTLSPermitted b access) (\<lambda>_.
         let resync = (case ca_ResyncPeriod access of None \<Rightarrow> defaultResyncPeriod | Some d \<Rightarrow> d);
             fp = fp_add newFingerprint ''type'' (ca_Type access)
         in bindR (build_access lib b access fp) (\<lambda>(cfg, fp).
            bindR (applyProxy lib (applyImpersonation (applyClientTuning cfg access) access) access fp) (\<lambda>(cfg, fp).
              Inr \<lparr>br_Config = cfg, br_Fingerprint = fp_sum lib fp, br_ResyncPeriod = resync\<rparr>))))"

definition ref_name :: "SecretKeyRef option \<Rightarrow> string list" where
  "ref_name ref = (case ref of None \<Rightarrow> [] | Some r \<Rightarrow> if skr_Name r \<noteq> [] then [skr_Name r] else [])"

definition SecretRefs :: "RemoteCluster \<Rightarrow> string list" where
  "SecretRefs rc =
     (let access = rcs_Access (rc_Spec rc)
      in sort (remdups
        ((case ca_TLS access of None \<Rightarrow> [] | Some t \<Rightarrow> ref_name (tls_CASecretRef t)) @
         (case ca_Token access of None \<Rightarrow> [] | Some t \<Rightarrow> ref_name (Some (ta_SecretRef t))) @
         (case ca_Kubeconfig access of None \<Rightarrow> [] | Some k \<Rightarrow> ref_name (Some (ka_SecretRef k))) @
         (case ca_GoogleToken access of None \<Rightarrow> []
          | Some g \<Rightarrow> ref_name (gta_CASecretRef g) @
              (case gta_Credentials g of None \<Rightarrow> [] | Some c \<Rightarrow> ref_name (gc_ServiceAccountKeySecretRef c))) @
         (case ca_WorkloadIdentity access of None \<Rightarrow> [] | Some w \<Rightarrow> ref_name (wia_CASecretRef w)) @
         (case ca_ClientCertificate access of None \<Rightarrow> []
          | Some c \<Rightarrow> ref_name (cca_CASecretRef c) @
              (if cca_SecretName c \<noteq> [] then [cca_SecretName c] else [])))))"

section \<open>Lemmas: results\<close>

lemma bindR_simps [simp]: "bindR (Inl err) f = Inl err" "bindR (Inr v) f = f v"
  by (simp_all add: bindR_def)

lemma bindR_Inr: "bindR r f = Inr v \<longleftrightarrow> (\<exists>x. r = Inr x \<and> f x = Inr v)"
  by (cases r) simp_all

lemma bindR_cong: "r = r' \<Longrightarrow> (\<And>x. f x = g x) \<Longrightarrow> bindR r f = bindR r' g"
  by (simp add: bindR_def split: sum.split)

section \<open>Lemmas: gates\<close>

text \<open>What a configuration asks of the flags of the controller.\<close>

definition config_permitted :: "Options \<Rightarrow> RestConfig \<Rightarrow> bool" where
  "config_permitted o' cfg \<longleftrightarrow>
     (tc_Insecure (cfg_TLS cfg) \<longrightarrow> opt_AllowInsecureTLS o') \<and> (cfg_ExecProvider cfg \<longrightarrow> opt_AllowExecCredentials o')"

definition tls_permitted :: "Options \<Rightarrow> ClusterAccess \<Rightarrow> bool" where
  "tls_permitted o' access \<longleftrightarrow>
     (case ca_TLS access of None \<Rightarrow> True | Some t \<Rightarrow> tls_InsecureSkipVerify t \<longrightarrow> opt_AllowInsecureTLS o')"

lemma checkTLSPermitted_Inr: "checkTLSPermitted b access = Inr u \<longleftrightarrow> tls_permitted (bld_Options b) access"
  by (simp add: checkTLSPermitted_def tls_permitted_def split: option.split)

lemma tlsFrom_insecure:
  assumes "tlsFrom b access own fp = Inr (t, fp')" and "tls_permitted o' access"
  shows "tc_Insecure t \<longrightarrow> opt_AllowInsecureTLS o'"
proof (cases "ca_TLS access")
  case None
  with assms show ?thesis
    by (auto simp: tlsFrom_def Let_def bindR_Inr zero_tls_def split: option.splits)
next
  case (Some c)
  with assms show ?thesis by (auto simp: tlsFrom_def Let_def bindR_Inr tls_permitted_def)
qed

lemma wrap_permitted:
  "config_permitted o' (wrapWithTokenSource server tlsCfg ts) \<longleftrightarrow> (tc_Insecure tlsCfg \<longrightarrow> opt_AllowInsecureTLS o')"
  by (simp add: config_permitted_def wrapWithTokenSource_def zero_config_def)

lemma direct_permitted:
  "config_permitted o' (zero_config\<lparr>cfg_Host := h, cfg_BearerToken := tok, cfg_TLS := t\<rparr>) \<longleftrightarrow>
     (tc_Insecure t \<longrightarrow> opt_AllowInsecureTLS o')"
  "config_permitted o' (zero_config\<lparr>cfg_Host := h, cfg_TLS := t\<rparr>) \<longleftrightarrow> (tc_Insecure t \<longrightarrow> opt_AllowInsecureTLS o')"
  by (simp_all add: config_permitted_def zero_config_def)

lemmas permitted_simps = wrap_permitted direct_permitted

lemma buildAKS_Inr:
  assumes "buildAKS b access fp = Inr (c, fp')"
  obtains cfg creds ref secret tlsCfg fp1 url scopes where "ca_AKS access = Some cfg" and "aks_Credentials cfg = Some creds"
    and "az_ClientSecretRef creds = Some ref" and "Secrets_Value (bld_Secrets b) ref [''clientSecret''] = Inr secret"
    and "tlsFrom b access (aks_CASecretRef cfg) fp = Inr (tlsCfg, fp1)"
    and "c = wrapWithTokenSource (aks_Server cfg) tlsCfg (ClientCredentials (az_ClientID creds) secret url scopes)"
proof (cases "ca_AKS access")
  case None
  with assms show ?thesis by (simp add: buildAKS_def payload_def)
next
  case (Some cfg)
  with assms obtain creds ref where cred: "aks_Credentials cfg = Some creds" "az_ClientSecretRef creds = Some ref"
    by (auto simp: buildAKS_def payload_def split: option.splits)
  with assms Some show ?thesis
    by (auto simp: buildAKS_def payload_def bindR_Inr Let_def intro: that [OF Some cred])
qed

lemma build_access_permitted:
  assumes ok: "tls_permitted (bld_Options b) access"
    and in_cluster: "\<And>c. al_InClusterConfig lib = Inr c \<Longrightarrow> config_permitted (bld_Options b) c"
    and run: "build_access lib b access fp = Inr (cfg, fp')"
  shows "config_permitted (bld_Options b) cfg"
proof -
  note tls = tlsFrom_insecure [OF _ ok]
  have "buildInCluster lib = Inr cfg \<Longrightarrow> ?thesis"
    using in_cluster by (auto simp: buildInCluster_def split: sum.splits)
  moreover have "buildToken b access fp = Inr (cfg, fp') \<Longrightarrow> ?thesis"
    using tls by (auto simp: buildToken_def bindR_Inr permitted_simps)
  moreover have "buildKubeconfig lib b access fp = Inr (cfg, fp') \<Longrightarrow> ?thesis"
    by (auto simp: buildKubeconfig_def bindR_Inr config_permitted_def split: if_splits)
  moreover have "buildGoogleToken lib b access fp = Inr (cfg, fp') \<Longrightarrow> ?thesis"
    using tls by (auto simp: buildGoogleToken_def bindR_Inr permitted_simps)
  moreover have "buildWorkloadIdentity lib b access fp = Inr (cfg, fp') \<Longrightarrow> ?thesis"
    using tls by (auto simp: buildWorkloadIdentity_def bindR_Inr Let_def permitted_simps split: if_splits)
  moreover have "buildClientCertificate b access fp = Inr (cfg, fp') \<Longrightarrow> ?thesis"
    using tls by (auto simp: buildClientCertificate_def bindR_Inr Let_def permitted_simps)
  moreover have "buildGKE lib b access fp = Inr (cfg, fp') \<Longrightarrow> ?thesis"
    using tls by (auto simp: buildGKE_def bindR_Inr Let_def permitted_simps)
  moreover have "buildAKS b access fp = Inr (cfg, fp') \<Longrightarrow> ?thesis"
    using tls by (auto elim!: buildAKS_Inr simp: permitted_simps)
  ultimately show ?thesis using run by (simp add: build_access_def bindR_Inr split: if_splits)
qed

lemma tuned_permitted [simp]: "config_permitted o' (applyClientTuning cfg access) = config_permitted o' cfg"
  by (simp add: config_permitted_def applyClientTuning_def Let_def split: option.split)

lemma impersonated_permitted [simp]: "config_permitted o' (applyImpersonation cfg access) = config_permitted o' cfg"
  by (simp add: config_permitted_def applyImpersonation_def split: option.split)

lemma proxied_permitted:
  "applyProxy lib cfg access fp = Inr (cfg', fp') \<Longrightarrow> config_permitted o' cfg' = config_permitted o' cfg"
  by (auto simp: applyProxy_def bindR_Inr config_permitted_def split: option.splits)

text \<open>The steps of a build that succeeds.\<close>

lemma Build_Inr:
  assumes "Builder_Build lib b rc = Inr r"
  obtains cfg fp fp' where "tls_permitted (bld_Options b) (rcs_Access (rc_Spec rc))"
    and "build_access lib b (rcs_Access (rc_Spec rc)) (fp_add newFingerprint ''type'' (ca_Type (rcs_Access (rc_Spec rc)))) = Inr (cfg, fp)"
    and "applyProxy lib (applyImpersonation (applyClientTuning cfg (rcs_Access (rc_Spec rc))) (rcs_Access (rc_Spec rc)))
           (rcs_Access (rc_Spec rc)) fp = Inr (br_Config r, fp')"
    and "br_Fingerprint r = fp_sum lib fp'"
  using assms by (auto simp: Builder_Build_def Let_def bindR_Inr checkTLSPermitted_Inr)

section \<open>Lemmas: the Secrets that a build reads\<close>

definition agree :: "string set \<Rightarrow> Builder \<Rightarrow> Builder \<Rightarrow> bool" where
  "agree S b b' \<longleftrightarrow> bld_Options b = bld_Options b' \<and> sec_Namespace (bld_Secrets b) = sec_Namespace (bld_Secrets b') \<and>
     (\<forall>n\<in>S. sec_Get (bld_Secrets b) \<lparr>nn_Namespace = sec_Namespace (bld_Secrets b), nn_Name = n\<rparr> =
        sec_Get (bld_Secrets b') \<lparr>nn_Namespace = sec_Namespace (bld_Secrets b), nn_Name = n\<rparr>)"

lemma Value_agree:
  assumes "agree S b b'" and "skr_Name ref \<in> S"
  shows "Secrets_Value (bld_Secrets b) ref keys = Secrets_Value (bld_Secrets b') ref keys"
proof -
  have ns: "sec_Namespace (bld_Secrets b) = sec_Namespace (bld_Secrets b')" using assms(1) by (simp add: agree_def)
  have get: "sec_Get (bld_Secrets b) \<lparr>nn_Namespace = sec_Namespace (bld_Secrets b'), nn_Name = skr_Name ref\<rparr> =
      sec_Get (bld_Secrets b') \<lparr>nn_Namespace = sec_Namespace (bld_Secrets b'), nn_Name = skr_Name ref\<rparr>"
    using assms ns by (simp add: agree_def)
  show ?thesis by (simp only: Secrets_Value_def ns get)
qed

definition covered :: "string set \<Rightarrow> SecretKeyRef option \<Rightarrow> bool" where
  "covered S ref \<longleftrightarrow> (case ref of None \<Rightarrow> True | Some r \<Rightarrow> skr_Name r \<in> S)"

lemma tlsFrom_agree:
  assumes "agree S b b'" and "covered S own" and "\<And>t. ca_TLS access = Some t \<Longrightarrow> covered S (tls_CASecretRef t)"
  shows "tlsFrom b access own fp = tlsFrom b' access own fp"
proof -
  have "covered S (case own of Some r \<Rightarrow> Some r | None \<Rightarrow> (case ca_TLS access of None \<Rightarrow> None | Some t \<Rightarrow> tls_CASecretRef t))"
    using assms(2,3) by (auto simp: covered_def split: option.split)
  then show ?thesis unfolding tlsFrom_def Let_def
    by (intro bindR_cong) (auto simp: covered_def Value_agree [OF assms(1)] split: option.split)
qed

lemma googleTokenSource_agree:
  assumes "agree S b b'" and "\<And>c. creds = Some c \<Longrightarrow> covered S (gc_ServiceAccountKeySecretRef c)"
  shows "googleTokenSource lib b creds fp = googleTokenSource lib b' creds fp"
  using assms(2) unfolding googleTokenSource_def Let_def
  by (intro bindR_cong) (auto simp: covered_def Value_agree [OF assms(1)] split: option.split)

text \<open>A builder reads Secrets through \<^verbatim>\<open>Secrets.Value\<close> only, so only in its own namespace.\<close>

lemma Value_namespace:
  assumes "sec_Namespace s = sec_Namespace s'"
    and "\<And>n. sec_Get s \<lparr>nn_Namespace = sec_Namespace s, nn_Name = n\<rparr> = sec_Get s' \<lparr>nn_Namespace = sec_Namespace s, nn_Name = n\<rparr>"
  shows "Secrets_Value s = Secrets_Value s'"
  using assms(2) unfolding assms(1) by (intro ext) (simp only: Secrets_Value_def assms(1))

lemma Build_reads_values:
  assumes "bld_Options b = bld_Options b'" and "Secrets_Value (bld_Secrets b) = Secrets_Value (bld_Secrets b')"
  shows "Builder_Build lib b = Builder_Build lib b'"
proof -
  have tls: "tlsFrom b = tlsFrom b'" by (intro ext) (simp only: tlsFrom_def assms)
  have google: "googleTokenSource lib b = googleTokenSource lib b'" by (intro ext) (simp only: googleTokenSource_def assms)
  note builders = buildToken_def buildKubeconfig_def buildGoogleToken_def buildWorkloadIdentity_def buildClientCertificate_def
    buildGKE_def buildAKS_def
  have "build_access lib b = build_access lib b'"
    by (intro ext) (simp only: build_access_def builders assms tls google)
  then show ?thesis by (intro ext) (simp only: Builder_Build_def checkTLSPermitted_def assms)
qed

text \<open>The access types whose Secrets the index knows.\<close>

definition indexed_types :: "string list" where
  "indexed_types = [AccessTypeInCluster, AccessTypeToken, AccessTypeKubeconfig, AccessTypeGoogleToken,
     AccessTypeWorkloadIdentity, AccessTypeClientCertificate]"

definition secret_names :: "RemoteCluster \<Rightarrow> string set" where
  "secret_names rc = insert [] (set (SecretRefs rc))"

lemma covered_names: "set (ref_name ref) \<subseteq> S \<Longrightarrow> [] \<in> S \<Longrightarrow> covered S ref"
  by (cases ref) (auto simp: covered_def ref_name_def split: if_splits)

lemma SecretRefs_covered:
  assumes "access = rcs_Access (rc_Spec rc)"
  shows "ca_TLS access = Some t \<Longrightarrow> covered (secret_names rc) (tls_CASecretRef t)"
    and "ca_Token access = Some tk \<Longrightarrow> covered (secret_names rc) (Some (ta_SecretRef tk))"
    and "ca_Kubeconfig access = Some k \<Longrightarrow> covered (secret_names rc) (Some (ka_SecretRef k))"
    and "ca_GoogleToken access = Some g \<Longrightarrow> covered (secret_names rc) (gta_CASecretRef g)"
    and "ca_GoogleToken access = Some g \<Longrightarrow> gta_Credentials g = Some c \<Longrightarrow>
      covered (secret_names rc) (gc_ServiceAccountKeySecretRef c)"
    and "ca_WorkloadIdentity access = Some w \<Longrightarrow> covered (secret_names rc) (wia_CASecretRef w)"
    and "ca_ClientCertificate access = Some cc \<Longrightarrow> covered (secret_names rc) (cca_CASecretRef cc)"
    and "ca_ClientCertificate access = Some cc \<Longrightarrow> cca_SecretName cc \<in> secret_names rc"
  using assms by (auto intro!: covered_names simp: secret_names_def SecretRefs_def Let_def)

lemma build_access_agree:
  assumes "agree (secret_names rc) b b'" and "access = rcs_Access (rc_Spec rc)" and "ca_Type access \<in> set indexed_types"
  shows "build_access lib b access fp = build_access lib b' access fp"
proof -
  note val = Value_agree [OF assms(1)] and tls = tlsFrom_agree [OF assms(1) _ SecretRefs_covered(1) [OF assms(2)]]
  note cov = SecretRefs_covered [OF assms(2)]
  have opts: "bld_Options b = bld_Options b'" using assms(1) by (simp add: agree_def)
  have "buildToken b access fp = buildToken b' access fp"
    unfolding buildToken_def using cov(2)
    by (cases "ca_Token access") (simp_all add: payload_def covered_def val tls)
  moreover have "buildKubeconfig lib b access fp = buildKubeconfig lib b' access fp"
    unfolding buildKubeconfig_def opts using cov(3)
    by (cases "ca_Kubeconfig access") (simp_all add: payload_def covered_def val)
  moreover have "buildGoogleToken lib b access fp = buildGoogleToken lib b' access fp"
  proof (cases "ca_GoogleToken access")
    case (Some g)
    have "googleTokenSource lib b (gta_Credentials g) f = googleTokenSource lib b' (gta_Credentials g) f" for f
      using cov(5) [OF Some] by (rule googleTokenSource_agree [OF assms(1)])
    then show ?thesis using tls [OF cov(4) [OF Some]] Some by (simp add: buildGoogleToken_def payload_def)
  qed (simp add: buildGoogleToken_def payload_def)
  moreover have "buildWorkloadIdentity lib b access fp = buildWorkloadIdentity lib b' access fp"
    unfolding buildWorkloadIdentity_def
    by (cases "ca_WorkloadIdentity access") (simp_all add: payload_def tls cov(6))
  moreover have "buildClientCertificate b access fp = buildClientCertificate b' access fp"
  proof (cases "ca_ClientCertificate access")
    case (Some c)
    show ?thesis using tls [OF cov(7) [OF Some]] val cov(8) [OF Some] Some
      by (simp add: buildClientCertificate_def payload_def Let_def)
  qed (simp add: buildClientCertificate_def payload_def)
  ultimately show ?thesis using assms(3) unfolding build_access_def indexed_types_def by auto
qed

section \<open>Lemmas: refreshed tokens\<close>

definition refreshed :: "RestConfig \<Rightarrow> bool" where
  "refreshed cfg \<longleftrightarrow> cfg_BearerToken cfg = [] \<and> cfg_TokenSource cfg \<noteq> None"

lemma wrap_refreshed: "refreshed (wrapWithTokenSource server tlsCfg ts)"
  by (simp add: refreshed_def wrapWithTokenSource_def zero_config_def)

lemma tuned_refreshed [simp]: "refreshed (applyClientTuning cfg access) = refreshed cfg"
  by (simp add: refreshed_def applyClientTuning_def Let_def split: option.split)

lemma impersonated_refreshed [simp]: "refreshed (applyImpersonation cfg access) = refreshed cfg"
  by (simp add: refreshed_def applyImpersonation_def split: option.split)

lemma proxied_refreshed: "applyProxy lib cfg access fp = Inr (cfg', fp') \<Longrightarrow> refreshed cfg' = refreshed cfg"
  by (auto simp: applyProxy_def bindR_Inr refreshed_def split: option.splits)

lemma build_access_refreshed:
  assumes "ca_Type access \<in> {AccessTypeGoogleToken, AccessTypeWorkloadIdentity, AccessTypeGKE, AccessTypeAKS}"
    and "build_access lib b access fp = Inr (cfg, fp')"
  shows "refreshed cfg"
proof -
  have "buildGoogleToken lib b access fp = Inr (cfg, fp') \<Longrightarrow> ?thesis"
    by (auto simp: buildGoogleToken_def bindR_Inr wrap_refreshed)
  moreover have "buildWorkloadIdentity lib b access fp = Inr (cfg, fp') \<Longrightarrow> ?thesis"
    by (auto simp: buildWorkloadIdentity_def bindR_Inr Let_def wrap_refreshed split: if_splits)
  moreover have "buildGKE lib b access fp = Inr (cfg, fp') \<Longrightarrow> ?thesis"
    by (auto simp: buildGKE_def bindR_Inr Let_def wrap_refreshed)
  moreover have "buildAKS b access fp = Inr (cfg, fp') \<Longrightarrow> ?thesis"
    by (auto elim!: buildAKS_Inr simp: wrap_refreshed)
  ultimately show ?thesis using assms by (auto simp: build_access_def)
qed

section \<open>Lemmas: what the fingerprint leaves out\<close>

definition with_impersonation :: "ImpersonationConfig option \<Rightarrow> RemoteCluster \<Rightarrow> RemoteCluster" where
  "with_impersonation i rc =
     rc\<lparr>rc_Spec := (rc_Spec rc)\<lparr>rcs_Access := (rcs_Access (rc_Spec rc))\<lparr>ca_Impersonate := i\<rparr>\<rparr>\<rparr>"

lemma impersonate_fields:
  "ca_Type (access\<lparr>ca_Impersonate := i\<rparr>) = ca_Type access" "ca_TLS (access\<lparr>ca_Impersonate := i\<rparr>) = ca_TLS access"
  "ca_Token (access\<lparr>ca_Impersonate := i\<rparr>) = ca_Token access"
  "ca_Kubeconfig (access\<lparr>ca_Impersonate := i\<rparr>) = ca_Kubeconfig access"
  "ca_GoogleToken (access\<lparr>ca_Impersonate := i\<rparr>) = ca_GoogleToken access"
  "ca_WorkloadIdentity (access\<lparr>ca_Impersonate := i\<rparr>) = ca_WorkloadIdentity access"
  "ca_ClientCertificate (access\<lparr>ca_Impersonate := i\<rparr>) = ca_ClientCertificate access"
  "ca_GKE (access\<lparr>ca_Impersonate := i\<rparr>) = ca_GKE access" "ca_AKS (access\<lparr>ca_Impersonate := i\<rparr>) = ca_AKS access"
  "ca_Proxy (access\<lparr>ca_Impersonate := i\<rparr>) = ca_Proxy access" "ca_Timeout (access\<lparr>ca_Impersonate := i\<rparr>) = ca_Timeout access"
  "ca_QPS (access\<lparr>ca_Impersonate := i\<rparr>) = ca_QPS access" "ca_Burst (access\<lparr>ca_Impersonate := i\<rparr>) = ca_Burst access"
  "ca_ResyncPeriod (access\<lparr>ca_Impersonate := i\<rparr>) = ca_ResyncPeriod access"
  by simp_all

lemma impersonate_irrelevant:
  "checkTLSPermitted b (access\<lparr>ca_Impersonate := i\<rparr>) = checkTLSPermitted b access"
  "tlsFrom b (access\<lparr>ca_Impersonate := i\<rparr>) own fp = tlsFrom b access own fp"
  "applyClientTuning cfg (access\<lparr>ca_Impersonate := i\<rparr>) = applyClientTuning cfg access"
  "applyProxy lib cfg (access\<lparr>ca_Impersonate := i\<rparr>) fp = applyProxy lib cfg access fp"
  by (simp_all only: checkTLSPermitted_def tlsFrom_def applyClientTuning_def applyProxy_def impersonate_fields)

lemma build_access_impersonate:
  "build_access lib b (access\<lparr>ca_Impersonate := i\<rparr>) fp = build_access lib b access fp"
  by (simp only: build_access_def buildToken_def buildKubeconfig_def buildGoogleToken_def buildWorkloadIdentity_def
      buildClientCertificate_def buildGKE_def buildAKS_def impersonate_irrelevant impersonate_fields)

lemma applyProxy_fingerprint:
  "map_sum id snd (applyProxy lib cfg access fp) = map_sum id snd (applyProxy lib cfg' access fp)"
  by (cases "ca_Proxy access") (simp_all add: applyProxy_def bindR_def split: sum.split)

text \<open>
  The fingerprint does not cover impersonation: changing whom the client impersonates, or dropping it,
  leaves the fingerprint of the connection as it was.
\<close>

lemma Build_fingerprint_ignores_impersonation:
  "map_sum id br_Fingerprint (Builder_Build lib b (with_impersonation i rc)) =
     map_sum id br_Fingerprint (Builder_Build lib b rc)"
proof -
  have fp: "map_sum id br_Fingerprint (bindR (applyProxy lib cfg access fp) (\<lambda>(cfg, fp).
        Inr \<lparr>br_Config = cfg, br_Fingerprint = fp_sum lib fp, br_ResyncPeriod = d\<rparr>)) =
      map_sum id (fp_sum lib) (map_sum id snd (applyProxy lib cfg access fp))" for cfg access fp d
    by (cases "applyProxy lib cfg access fp") auto
  let ?a = "rcs_Access (rc_Spec rc)"
  have "map_sum id br_Fingerprint (bindR (build_access lib b ?a f) (\<lambda>(cfg, fp).
        bindR (applyProxy lib (g cfg) ?a fp) (\<lambda>(cfg, fp). Inr \<lparr>br_Config = cfg, br_Fingerprint = fp_sum lib fp, br_ResyncPeriod = d\<rparr>))) =
      map_sum id br_Fingerprint (bindR (build_access lib b ?a f) (\<lambda>(cfg, fp).
        bindR (applyProxy lib (h cfg) ?a fp) (\<lambda>(cfg, fp). Inr \<lparr>br_Config = cfg, br_Fingerprint = fp_sum lib fp, br_ResyncPeriod = d\<rparr>)))"
    for f g h d
    by (cases "build_access lib b ?a f") (auto simp: fp intro!: arg_cong [OF applyProxy_fingerprint])
  then show ?thesis
    by (cases "checkTLSPermitted b ?a")
       (simp_all add: Builder_Build_def with_impersonation_def Let_def impersonate_irrelevant impersonate_fields
         build_access_impersonate)
qed

section \<open>Properties\<close>

text \<open>
  C13: a configuration that is built disables the verification of certificates only where the controller allows
  insecure TLS, and carries an exec credential plugin only where it allows exec credentials, whether the
  request comes from the specification or is smuggled in through a kubeconfig; assuming only that the
  pod's own configuration asks for neither.
\<close>

theorem Build_gates:
  assumes "\<And>c. al_InClusterConfig lib = Inr c \<Longrightarrow> \<not> tc_Insecure (cfg_TLS c) \<and> \<not> cfg_ExecProvider c"
    and "Builder_Build lib b rc = Inr r"
  shows "(tc_Insecure (cfg_TLS (br_Config r)) \<longrightarrow> opt_AllowInsecureTLS (bld_Options b)) \<and>
     (cfg_ExecProvider (br_Config r) \<longrightarrow> opt_AllowExecCredentials (bld_Options b))"
  using assms(2)
proof (cases rule: Build_Inr)
  case (1 cfg fp fp')
  have "config_permitted (bld_Options b) cfg"
    using assms(1) by (intro build_access_permitted [OF 1(1) _ 1(2)]) (simp add: config_permitted_def)
  then have "config_permitted (bld_Options b) (br_Config r)"
    using proxied_permitted [OF 1(3), of "bld_Options b"] by simp
  then show ?thesis by (simp add: config_permitted_def)
qed

text \<open>
  C34: for the access types without cloud discovery, the result of a build depends on no Secret other than
  those of the credentials namespace that \<^verbatim>\<open>SecretRefs\<close> lists, so watching exactly those
  notices every rotation.
\<close>

theorem Build_reads_indexed:
  assumes "ca_Type (rcs_Access (rc_Spec rc)) \<in> set indexed_types" and "bld_Options b = bld_Options b'"
    and "sec_Namespace (bld_Secrets b) = ns" and "sec_Namespace (bld_Secrets b') = ns"
    and "\<And>n. n = [] \<or> n \<in> set (SecretRefs rc) \<Longrightarrow>
      sec_Get (bld_Secrets b) \<lparr>nn_Namespace = ns, nn_Name = n\<rparr> = sec_Get (bld_Secrets b') \<lparr>nn_Namespace = ns, nn_Name = n\<rparr>"
  shows "Builder_Build lib b rc = Builder_Build lib b' rc"
proof -
  have "agree (secret_names rc) b b'" using assms(2-5) by (auto simp: agree_def secret_names_def)
  note access = build_access_agree [OF this refl assms(1)]
  have tls: "checkTLSPermitted b a = checkTLSPermitted b' a" for a by (simp only: checkTLSPermitted_def assms(2))
  show ?thesis by (simp only: Builder_Build_def Let_def access tls)
qed

text \<open>
  Google and Azure tokens are never frozen into the configuration: what is built for these access types has
  no static bearer token and carries a source that mints new ones (I15).
\<close>

theorem Build_refreshes:
  assumes "ca_Type (rcs_Access (rc_Spec rc)) \<in>
      {AccessTypeGoogleToken, AccessTypeWorkloadIdentity, AccessTypeGKE, AccessTypeAKS}"
    and "Builder_Build lib b rc = Inr r"
  shows "cfg_BearerToken (br_Config r) = [] \<and> cfg_TokenSource (br_Config r) \<noteq> None"
  using assms(2)
proof (cases rule: Build_Inr)
  case (1 cfg fp fp')
  from build_access_refreshed [OF assms(1) 1(2)] proxied_refreshed [OF 1(3)]
  have "refreshed (br_Config r)" by simp
  then show ?thesis by (simp add: refreshed_def)
qed

text \<open>
  An AKS cluster with a client secret reads that Secret, and authenticates with its value, but
  \<^verbatim>\<open>SecretRefs\<close> lists none for it, so its rotation is not noticed.
\<close>

theorem AKS_secret_not_indexed:
  assumes "access_admitted (rcs_Access (rc_Spec rc))" and "ca_AKS (rcs_Access (rc_Spec rc)) = Some cfg"
    and "aks_Credentials cfg = Some creds" and "az_ClientSecretRef creds = Some ref"
    and "ca_TLS (rcs_Access (rc_Spec rc)) = None" and "Builder_Build lib b rc = Inr r"
  shows "SecretRefs rc = [] \<and>
     (\<exists>secret url scopes. Secrets_Value (bld_Secrets b) ref [''clientSecret''] = Inr secret \<and>
        cfg_TokenSource (br_Config r) = Some (ClientCredentials (az_ClientID creds) secret url scopes))"
proof -
  have type: "ca_Type (rcs_Access (rc_Spec rc)) = AccessTypeAKS" using assms(1,2) by (simp add: access_admitted_def)
  then have refs: "SecretRefs rc = []" using assms(1,5) by (simp add: access_admitted_def SecretRefs_def)
  have tuned: "cfg_TokenSource (applyClientTuning c a) = cfg_TokenSource c"
    "cfg_TokenSource (applyImpersonation c a) = cfg_TokenSource c" for c a
    by (simp_all add: applyClientTuning_def applyImpersonation_def Let_def split: option.split)
  have proxied: "cfg_TokenSource c' = cfg_TokenSource c" if "applyProxy lib c a f = Inr (c', f')" for c a f c' f'
    using that by (auto simp: applyProxy_def bindR_Inr split: option.splits)
  from assms(6) show ?thesis
  proof (cases rule: Build_Inr)
    case (1 c fp fp')
    then have "buildAKS b (rcs_Access (rc_Spec rc)) (fp_add newFingerprint ''type'' AccessTypeAKS) = Inr (c, fp)"
      using type by (simp add: build_access_def)
    then obtain secret url scopes where "Secrets_Value (bld_Secrets b) ref [''clientSecret''] = Inr secret"
      "cfg_TokenSource c = Some (ClientCredentials (az_ClientID creds) secret url scopes)"
      using assms(2-4) by (auto elim!: buildAKS_Inr simp: wrapWithTokenSource_def)
    then show ?thesis using refs proxied [OF 1(3)] by (simp add: tuned)
  qed
qed

section \<open>Witnesses\<close>

text \<open>Libraries that accept everything, and a credentials namespace with the same two keys in every Secret.\<close>

definition demo_lib :: AuthLib where
  "demo_lib = \<lparr>al_InClusterConfig = Inr zero_config, al_NewClientConfigFromBytes = (\<lambda>_. None), al_Load = (\<lambda>_. None),
     al_ClientConfig = (\<lambda>_ _. Inr zero_config), al_FindDefaultCredentials = (\<lambda>_. None),
     al_CredentialsFromJSON = (\<lambda>_ _. None), al_NewRequest = (\<lambda>_. None),
     al_Do = (\<lambda>_ _. Inl (Errorf [Lit ''unreachable''])), al_DecodeBase64 = Inr, al_ParseURL = Inr, al_SHA256 = (\<lambda>x. x)\<rparr>"

definition demo_options :: Options where
  "demo_options = \<lparr>opt_CredentialsNamespace = ''system'', opt_AllowInsecureTLS = False, opt_AllowExecCredentials = False,
     opt_ExecCommandAllowlist = []\<rparr>"

definition demo_builder :: Builder where
  "demo_builder = \<lparr>bld_Secrets = \<lparr>sec_Get = (\<lambda>_. Inr [''token'' \<mapsto> ''abc'', ''clientSecret'' \<mapsto> ''xyz'']), sec_Namespace = ''system''\<rparr>,
     bld_Options = demo_options\<rparr>"

definition demo_token_cluster :: RemoteCluster where
  "demo_token_cluster = cluster_with ''east'' (zero_access\<lparr>ca_Type := AccessTypeToken,
     ca_Token := Some \<lparr>ta_Server = ''https://east'', ta_SecretRef = \<lparr>skr_Name = ''east-token'', skr_Key = []\<rparr>\<rparr>\<rparr>)"

definition demo_aks :: AKSAccess where
  "demo_aks = \<lparr>aks_Server = ''https://west'', aks_CASecretRef = None, aks_SubscriptionID = [], aks_ResourceGroup = [],
     aks_Cluster = [], aks_Credentials = Some \<lparr>az_ClientSecretRef = Some \<lparr>skr_Name = ''west-secret'', skr_Key = []\<rparr>,
       az_ClientID = ''id'', az_TenantID = ''tenant'', az_ServerApplicationID = []\<rparr>\<rparr>"

definition demo_aks_cluster :: RemoteCluster where
  "demo_aks_cluster = cluster_with ''west'' (zero_access\<lparr>ca_Type := AccessTypeAKS, ca_AKS := Some demo_aks\<rparr>)"

lemmas demo_auth_defs = demo_lib_def demo_builder_def demo_options_def cluster_with_def zero_access_def

lemma demo_token_run: "\<exists>r. Builder_Build demo_lib demo_builder demo_token_cluster = Inr r \<and> cfg_BearerToken (br_Config r) = ''abc''"
  by (simp add: Builder_Build_def demo_token_cluster_def demo_auth_defs checkTLSPermitted_def build_access_def buildToken_def
      payload_def Secrets_Value_def tlsFrom_def applyProxy_def applyImpersonation_def applyClientTuning_def zero_config_def)

lemma demo_aks_run: "\<exists>r. Builder_Build demo_lib demo_builder demo_aks_cluster = Inr r"
  by (simp add: Builder_Build_def demo_aks_cluster_def demo_aks_def demo_auth_defs checkTLSPermitted_def build_access_def
      buildAKS_def payload_def Secrets_Value_def tlsFrom_def applyProxy_def applyImpersonation_def applyClientTuning_def Let_def)

lemma Build_gates_witness:
  "\<exists>r. Builder_Build demo_lib demo_builder demo_token_cluster = Inr r \<and> \<not> tc_Insecure (cfg_TLS (br_Config r)) \<and>
     \<not> cfg_ExecProvider (br_Config r)"
proof -
  obtain r where r: "Builder_Build demo_lib demo_builder demo_token_cluster = Inr r" using demo_token_run by blast
  have "(tc_Insecure (cfg_TLS (br_Config r)) \<longrightarrow> opt_AllowInsecureTLS (bld_Options demo_builder)) \<and>
     (cfg_ExecProvider (br_Config r) \<longrightarrow> opt_AllowExecCredentials (bld_Options demo_builder))"
    by (rule Build_gates [OF _ r]) (simp add: demo_lib_def zero_config_def zero_tls_def)
  then show ?thesis using r by (simp add: demo_builder_def demo_options_def)
qed

lemma Build_reads_indexed_witness:
  "Builder_Build demo_lib demo_builder demo_token_cluster =
   Builder_Build demo_lib (demo_builder\<lparr>bld_Secrets := \<lparr>sec_Get = (\<lambda>k. if nn_Name k = ''other'' then Inr Map.empty
     else sec_Get (bld_Secrets demo_builder) k), sec_Namespace = ''system''\<rparr>\<rparr>) demo_token_cluster"
proof (rule Build_reads_indexed [where ns = "''system''"])
  show "ca_Type (rcs_Access (rc_Spec demo_token_cluster)) \<in> set indexed_types"
    by (simp add: demo_token_cluster_def cluster_with_def indexed_types_def)
  have "SecretRefs demo_token_cluster = [''east-token'']"
    by (simp add: SecretRefs_def demo_token_cluster_def cluster_with_def zero_access_def ref_name_def)
  then show "sec_Get (bld_Secrets demo_builder) \<lparr>nn_Namespace = ''system'', nn_Name = n\<rparr> =
      sec_Get (bld_Secrets (demo_builder\<lparr>bld_Secrets := \<lparr>sec_Get = (\<lambda>k. if nn_Name k = ''other'' then Inr Map.empty
        else sec_Get (bld_Secrets demo_builder) k), sec_Namespace = ''system''\<rparr>\<rparr>)) \<lparr>nn_Namespace = ''system'', nn_Name = n\<rparr>"
    if "n = [] \<or> n \<in> set (SecretRefs demo_token_cluster)" for n
    using that by auto
qed (simp_all add: demo_builder_def)

lemma Build_refreshes_witness:
  "\<exists>r. Builder_Build demo_lib demo_builder demo_aks_cluster = Inr r \<and> cfg_TokenSource (br_Config r) \<noteq> None"
proof -
  obtain r where r: "Builder_Build demo_lib demo_builder demo_aks_cluster = Inr r" using demo_aks_run by blast
  have "cfg_BearerToken (br_Config r) = [] \<and> cfg_TokenSource (br_Config r) \<noteq> None"
    by (rule Build_refreshes [OF _ r]) (simp add: demo_aks_cluster_def cluster_with_def)
  then show ?thesis using r by blast
qed

lemma AKS_secret_not_indexed_witness: "SecretRefs demo_aks_cluster = []"
proof -
  obtain r where r: "Builder_Build demo_lib demo_builder demo_aks_cluster = Inr r" using demo_aks_run by blast
  have "access_admitted (rcs_Access (rc_Spec demo_aks_cluster))" "ca_AKS (rcs_Access (rc_Spec demo_aks_cluster)) = Some demo_aks"
    "ca_TLS (rcs_Access (rc_Spec demo_aks_cluster)) = None"
    by (simp_all add: demo_aks_cluster_def cluster_with_def zero_access_def access_admitted_def)
  from AKS_secret_not_indexed [OF this(1,2) _ _ this(3) r] show ?thesis
    by (simp add: demo_aks_def)
qed

end
