(* ===== verification/Cluster_Cache.thy ===== *)
theory Cluster_Cache
  imports Clusters Auth
begin

text \<open>
  \<^verbatim>\<open>internal/clusters/cache.go\<close>: remote clients, cached per cluster under the fingerprint of their
  credentials and counted by consumer.

  Every method holds the mutex for the whole of its body (\<^verbatim>\<open>Get\<close> from the look at the map on), so a
  method is one step on the state.  A started cluster is a number, in the order in which their contexts
  are made; \<open>cs_cancelled\<close> records the calls of their cancel functions.  Starting a cluster is a matter of
  libraries: whether the client can be built, the watches attached and the cache synced are parameters.
  That a read against a remote cluster has a deadline is not modelled: a read that runs into it is one
  more error of the reader.
\<close>

section \<open>Model\<close>

record entry =
  en_fingerprint :: string
  en_cluster :: nat
  en_reader :: KubeReader
  en_consumers :: "NamespacedName list"
  en_timeout :: duration

record CacheState =
  cs_entries :: "(string \<times> entry) list"
  cs_started :: nat
  cs_cancelled :: "nat list"

record CachingProvider =
  cp_Builder :: Builder
  cp_Fetch :: "string \<Rightarrow> RemoteCluster result"
  cp_New :: "RestConfig \<Rightarrow> KubeReader result"
  cp_OnStart :: "(string \<Rightarrow> go_error option) option"
  cp_Sync :: "string \<Rightarrow> bool"

definition NewCachingProvider :: CacheState where
  "NewCachingProvider = \<lparr>cs_entries = [], cs_started = 0, cs_cancelled = []\<rparr>"

definition defaultReadTimeout :: duration where
  "defaultReadTimeout = 30 * Second"

definition readTimeout :: "duration \<Rightarrow> duration" where
  "readTimeout configured = (if 0 < configured then configured else defaultReadTimeout)"

definition remoteClient :: "entry \<Rightarrow> Client" where
  "remoteClient e = (localClient (en_reader e))\<lparr>cl_Healthy := None\<rparr>"

definition cancel :: "nat \<Rightarrow> CacheState \<Rightarrow> CacheState" where
  "cancel n st = st\<lparr>cs_cancelled := cs_cancelled st @ [n]\<rparr>"

definition start :: "CachingProvider \<Rightarrow> string \<Rightarrow> BuildResult \<Rightarrow> CacheState \<Rightarrow> entry result \<times> CacheState" where
  "start p name built st =
     (case cp_New p (br_Config built) of
        Inl err \<Rightarrow> (Inl (Wrapped [Lit ''building client for cluster '', Lit name, Lit '': ''] err), st)
      | Inr cl \<Rightarrow>
          let n = cs_started st; st = st\<lparr>cs_started := Suc n\<rparr>
          in (case (case cp_OnStart p of None \<Rightarrow> None | Some f \<Rightarrow> f name) of
                Some err \<Rightarrow> (Inl (Wrapped [Lit ''attaching watches for cluster '', Lit name, Lit '': ''] err), cancel n st)
              | None \<Rightarrow>
                  if \<not> cp_Sync p name then
                    (Inl (Errorf [Lit ''cache for cluster '', Lit name, Lit '' did not sync'']), cancel n st)
                  else (Inr \<lparr>en_fingerprint = br_Fingerprint built, en_cluster = n, en_reader = cl, en_consumers = [],
                          en_timeout = readTimeout (cfg_Timeout (br_Config built))\<rparr>, st)))"

definition drop_entry :: "string \<Rightarrow> entry \<Rightarrow> CacheState \<Rightarrow> CacheState" where
  "drop_entry name e st = (cancel (en_cluster e) st)\<lparr>cs_entries := AList.delete name (cs_entries st)\<rparr>"

definition put_entry :: "string \<Rightarrow> entry \<Rightarrow> CacheState \<Rightarrow> CacheState" where
  "put_entry name e st = st\<lparr>cs_entries := AList.update name e (cs_entries st)\<rparr>"

definition start_and_put :: "CachingProvider \<Rightarrow> string \<Rightarrow> BuildResult \<Rightarrow> CacheState \<Rightarrow> Client result \<times> CacheState" where
  "start_and_put p name built st =
     (case start p name built st of
        (Inl err, st) \<Rightarrow> (Inl err, st)
      | (Inr e, st) \<Rightarrow> (Inr (remoteClient e), put_entry name e st))"

definition Cache_Get :: "AuthLib \<Rightarrow> CachingProvider \<Rightarrow> string \<Rightarrow> CacheState \<Rightarrow> Client result \<times> CacheState" where
  "Cache_Get lib p name st =
     (if name = [] then
        (Inl (Errorf [Lit ''caching provider requires a cluster name; the local cluster is served separately'']), st)
      else (case cp_Fetch p name of
        Inl err \<Rightarrow> (Inl err, st)
      | Inr rc \<Rightarrow>
          (case Builder_Build lib (cp_Builder p) rc of
             Inl err \<Rightarrow> (Inl err, st)
           | Inr built \<Rightarrow>
               (case map_of (cs_entries st) name of
                  Some e \<Rightarrow>
                    if en_fingerprint e = br_Fingerprint built then (Inr (remoteClient e), st)
                    else start_and_put p name built (drop_entry name e st)
                | None \<Rightarrow> start_and_put p name built st))))"

definition Acquire :: "string \<Rightarrow> NamespacedName \<Rightarrow> CacheState \<Rightarrow> CacheState" where
  "Acquire name consumer st =
     (case map_of (cs_entries st) name of
        None \<Rightarrow> st
      | Some e \<Rightarrow> put_entry name (e\<lparr>en_consumers := List.insert consumer (en_consumers e)\<rparr>) st)"

definition Release :: "string \<Rightarrow> NamespacedName \<Rightarrow> CacheState \<Rightarrow> CacheState" where
  "Release name consumer st =
     (case map_of (cs_entries st) name of
        None \<Rightarrow> st
      | Some e \<Rightarrow>
          let e' = e\<lparr>en_consumers := removeAll consumer (en_consumers e)\<rparr>
          in if en_consumers e' = [] then drop_entry name e' st else put_entry name e' st)"

definition Invalidate :: "string \<Rightarrow> CacheState \<Rightarrow> CacheState" where
  "Invalidate name st =
     (case map_of (cs_entries st) name of None \<Rightarrow> st | Some e \<Rightarrow> drop_entry name e st)"

definition Consumers :: "string \<Rightarrow> CacheState \<Rightarrow> nat" where
  "Consumers name st = (case map_of (cs_entries st) name of None \<Rightarrow> 0 | Some e \<Rightarrow> length (en_consumers e))"

text \<open>The loop over the map visits every entry once; what it does to one is independent of the others.\<close>

definition ReleaseAll :: "NamespacedName \<Rightarrow> CacheState \<Rightarrow> CacheState" where
  "ReleaseAll consumer st = foldl (\<lambda>st (name, e). Release name consumer st) st (cs_entries st)"

definition Caching_Provider :: "AuthLib \<Rightarrow> CachingProvider \<Rightarrow> CacheState Provider" where
  "Caching_Provider lib p = \<lparr>pr_Get = Cache_Get lib p, pr_Release = Release, pr_Invalidate = Invalidate\<rparr>"

section \<open>Lemmas: the invariant of the connections\<close>

text \<open>
  Every cluster that was ever started either belongs to exactly one entry or was cancelled exactly once.
\<close>

definition handles :: "CacheState \<Rightarrow> nat multiset" where
  "handles st = image_mset en_cluster (image_mset snd (mset (cs_entries st)))"

definition cache_ok :: "CacheState \<Rightarrow> bool" where
  "cache_ok st \<longleftrightarrow> distinct (map fst (cs_entries st)) \<and> handles st + mset (cs_cancelled st) = mset [0..<cs_started st] \<and>
     (\<forall>n e. map_of (cs_entries st) n = Some e \<longrightarrow> distinct (en_consumers e))"

lemma map_of_drop [simp]: "map_of (cs_entries (drop_entry name e st)) = (map_of (cs_entries st))(name := None)"
  by (simp add: drop_entry_def delete_conv')

lemma map_of_put [simp]: "map_of (cs_entries (put_entry name e st)) = (map_of (cs_entries st))(name \<mapsto> e)"
  by (simp add: put_entry_def update_conv')

lemma distinct_delete: "distinct (map fst m) \<Longrightarrow> distinct (map fst (AList.delete k m))"
  by (rule AList.distinct_delete)

lemma drop_entry_ok:
  assumes ok: "cache_ok st" and e: "map_of (cs_entries st) name = Some e0" and same: "en_cluster e = en_cluster e0"
  shows "cache_ok (drop_entry name e st)"
proof -
  have "handles st = add_mset (en_cluster e) (handles (drop_entry name e st))"
    using alist_delete_mset [OF _ e] ok same by (simp add: handles_def drop_entry_def cache_ok_def)
  moreover have "distinct (map fst (cs_entries (drop_entry name e st)))"
    "mset (cs_cancelled (drop_entry name e st)) = add_mset (en_cluster e) (mset (cs_cancelled st))"
    "cs_started (drop_entry name e st) = cs_started st"
    using ok by (simp_all add: cache_ok_def distinct_delete drop_entry_def cancel_def)
  ultimately show ?thesis using ok by (simp add: cache_ok_def)
qed

lemma update_handles:
  "map_of m k = Some v0 \<Longrightarrow> f v = f v0 \<Longrightarrow> map (f \<circ> snd) (AList.update k v m) = map (f \<circ> snd) m"
  by (induction m) (auto split: if_splits)

lemma put_entry_ok:
  assumes ok: "cache_ok st" and e: "map_of (cs_entries st) name = Some e0" and same: "en_cluster e = en_cluster e0"
    and dist: "distinct (en_consumers e)"
  shows "cache_ok (put_entry name e st)"
proof -
  have "map (en_cluster \<circ> snd) (cs_entries (put_entry name e st)) = map (en_cluster \<circ> snd) (cs_entries st)"
    using update_handles [OF e, of en_cluster e] same by (simp add: put_entry_def)
  then have "handles (put_entry name e st) = handles st"
    unfolding handles_def multiset.map_comp mset_map [symmetric] by simp
  moreover have "distinct (map fst (cs_entries (put_entry name e st)))"
    "cs_cancelled (put_entry name e st) = cs_cancelled st" "cs_started (put_entry name e st) = cs_started st"
    using ok by (simp_all add: cache_ok_def distinct_update put_entry_def)
  ultimately show ?thesis using ok dist by (simp add: cache_ok_def)
qed

lemma start_and_put_ok:
  assumes ok: "cache_ok st" and new: "map_of (cs_entries st) name = None"
    and run: "start_and_put p name built st = (r, st')"
  shows "cache_ok st'"
proof -
  let ?n = "cs_started st" and ?s = "st\<lparr>cs_started := Suc (cs_started st)\<rparr>"
  have cancelled: "cache_ok (cancel ?n ?s)"
    using ok by (auto simp: cache_ok_def cancel_def handles_def)
  have put: "cache_ok (put_entry name e ?s)" if "en_cluster e = ?n" "en_consumers e = []" for e
  proof -
    have "cs_entries (put_entry name e ?s) = cs_entries st @ [(name, e)]"
      using new by (simp add: put_entry_def alist_update_new map_of_eq_None_iff)
    then have "handles (put_entry name e ?s) = add_mset ?n (handles st)"
      "distinct (map fst (cs_entries (put_entry name e ?s)))"
      using ok that new by (auto simp: cache_ok_def handles_def map_of_eq_None_iff)
    moreover have "cs_cancelled (put_entry name e ?s) = cs_cancelled st" "cs_started (put_entry name e ?s) = Suc ?n"
      by (simp_all add: put_entry_def)
    ultimately show ?thesis using ok that by (simp add: cache_ok_def)
  qed
  from run show ?thesis
    using ok cancelled put by (auto simp: start_and_put_def start_def Let_def split: sum.splits option.splits if_splits)
qed

lemma Cache_Get_ok:
  assumes "cache_ok st" and "Cache_Get lib p name st = (r, st')"
  shows "cache_ok st'"
  using assms
  by (auto simp: Cache_Get_def split: if_splits sum.splits option.splits
      intro: start_and_put_ok drop_entry_ok)

lemma entry_consumers_distinct: "cache_ok st \<Longrightarrow> map_of (cs_entries st) name = Some e \<Longrightarrow> distinct (en_consumers e)"
  by (simp add: cache_ok_def)

lemma Acquire_ok: "cache_ok st \<Longrightarrow> cache_ok (Acquire name c st)"
  by (auto simp: Acquire_def split: option.split intro!: put_entry_ok dest: entry_consumers_distinct)

lemma Release_ok: "cache_ok st \<Longrightarrow> cache_ok (Release name c st)"
  by (auto simp: Release_def Let_def split: option.split intro!: put_entry_ok drop_entry_ok distinct_removeAll
      dest: entry_consumers_distinct)

lemma Invalidate_ok: "cache_ok st \<Longrightarrow> cache_ok (Invalidate name st)"
  by (auto simp: Invalidate_def split: option.split intro: drop_entry_ok)

lemma fold_Release_ok: "cache_ok st \<Longrightarrow> cache_ok (foldl (\<lambda>st (name, e). Release name c st) st xs)"
  by (induction xs arbitrary: st) (auto simp: Release_ok)

lemma ReleaseAll_ok: "cache_ok st \<Longrightarrow> cache_ok (ReleaseAll c st)"
  unfolding ReleaseAll_def by (rule fold_Release_ok)

lemma New_ok: "cache_ok NewCachingProvider"
  by (simp add: NewCachingProvider_def cache_ok_def handles_def)

section \<open>Lemmas: what releasing does to an entry\<close>

definition released :: "NamespacedName \<Rightarrow> entry option \<Rightarrow> entry option" where
  "released c eo =
     (case eo of None \<Rightarrow> None
      | Some e \<Rightarrow> if removeAll c (en_consumers e) = [] then None else Some (e\<lparr>en_consumers := removeAll c (en_consumers e)\<rparr>))"

lemma map_of_Release: "map_of (cs_entries (Release name c st)) = (map_of (cs_entries st))(name := released c (map_of (cs_entries st) name))"
  by (auto simp: Release_def released_def Let_def fun_eq_iff split: option.split)

lemma released_idem: "released c (released c eo) = released c eo"
  by (simp add: released_def split: option.split)

lemma map_of_fold_Release:
  "map_of (cs_entries (foldl (\<lambda>st (name, e). Release name c st) st xs)) n =
     (if n \<in> fst ` set xs then released c (map_of (cs_entries st) n) else map_of (cs_entries st) n)"
  by (induction xs arbitrary: st) (auto simp: map_of_Release released_idem)

lemma map_of_ReleaseAll: "map_of (cs_entries (ReleaseAll c st)) n = released c (map_of (cs_entries st) n)"
proof (cases "map_of (cs_entries st) n")
  case None
  then show ?thesis by (simp add: ReleaseAll_def map_of_fold_Release released_def)
next
  case (Some e)
  then have "n \<in> fst ` set (cs_entries st)" by (force dest: map_of_SomeD)
  then show ?thesis by (simp add: ReleaseAll_def map_of_fold_Release)
qed

section \<open>References\<close>

text \<open>
  The consumers of a cluster as a set, and the laws of counted references: what each operation does to
  who holds what.
\<close>

definition holds :: "CacheState \<Rightarrow> string \<Rightarrow> NamespacedName set" where
  "holds st name = (case map_of (cs_entries st) name of None \<Rightarrow> {} | Some e \<Rightarrow> set (en_consumers e))"

definition live :: "CacheState \<Rightarrow> string \<Rightarrow> bool" where
  "live st name \<longleftrightarrow> map_of (cs_entries st) name \<noteq> None"

locale counted_references =
  fixes holding :: "'st \<Rightarrow> 'n \<Rightarrow> 'c set" and present :: "'st \<Rightarrow> 'n \<Rightarrow> bool"
    and acquire :: "'n \<Rightarrow> 'c \<Rightarrow> 'st \<Rightarrow> 'st" and release :: "'n \<Rightarrow> 'c \<Rightarrow> 'st \<Rightarrow> 'st" and release_all :: "'c \<Rightarrow> 'st \<Rightarrow> 'st"
  assumes holding_acquire: "holding (acquire n c st) m = (if m = n \<and> present st n then insert c (holding st n) else holding st m)"
    and holding_release: "holding (release n c st) m = (if m = n then holding st n - {c} else holding st m)"
    and holding_release_all: "holding (release_all c st) m = holding st m - {c}"
    and present_acquire: "present (acquire n c st) m = present st m"
    and present_held: "holding st m \<noteq> {} \<Longrightarrow> present st m"
begin

lemma acquire_release: "present st n \<Longrightarrow> c \<notin> holding st n \<Longrightarrow> holding (release n c (acquire n c st)) n = holding st n"
  by (simp add: holding_release holding_acquire)

lemma acquire_idem: "holding (acquire n c (acquire n c st)) m = holding (acquire n c st) m"
  by (simp add: holding_acquire present_acquire)

lemma others_keep: "d \<noteq> c \<Longrightarrow> d \<in> holding st m \<Longrightarrow> d \<in> holding (release n c st) m \<and> d \<in> holding (release_all c st) m"
  by (auto simp: holding_release holding_release_all)

lemma others_present: "d \<noteq> c \<Longrightarrow> d \<in> holding st m \<Longrightarrow> present (release n c st) m \<and> present (release_all c st) m"
  using others_keep present_held by (metis empty_iff)

lemma forgotten: "c \<notin> holding (release_all c st) m"
  by (simp add: holding_release_all)

end

lemma set_released: "(case released c eo of None \<Rightarrow> {} | Some e \<Rightarrow> set (en_consumers e)) =
    (case eo of None \<Rightarrow> {} | Some e \<Rightarrow> set (en_consumers e)) - {c}"
proof (cases eo)
  case (Some e)
  have "removeAll c (en_consumers e) = [] \<longleftrightarrow> set (en_consumers e) - {c} = {}"
    by (metis set_empty set_removeAll)
  then show ?thesis using Some by (auto simp: released_def)
qed (simp add: released_def)

interpretation refs: counted_references holds live Acquire Release ReleaseAll
proof unfold_locales
  fix n m :: string and c :: NamespacedName and st :: CacheState
  show "holds (Acquire n c st) m = (if m = n \<and> live st n then insert c (holds st n) else holds st m)"
    by (simp add: Acquire_def holds_def live_def split: option.split)
  show "holds (Release n c st) m = (if m = n then holds st n - {c} else holds st m)"
    by (simp add: holds_def map_of_Release set_released)
  show "holds (ReleaseAll c st) m = holds st m - {c}"
    by (simp add: holds_def map_of_ReleaseAll set_released)
  show "live (Acquire n c st) m = live st m"
    by (simp add: Acquire_def live_def split: option.split)
  show "holds st m \<noteq> {} \<Longrightarrow> live st m"
    by (auto simp: holds_def live_def)
qed

section \<open>The cache as a state machine\<close>

text \<open>
  Any method may run at any time, with the provider's view of the specifications and of the outside world
  (\<open>p\<close>) different at every step.
\<close>

inductive cache_step :: "AuthLib \<Rightarrow> CacheState \<Rightarrow> CacheState \<Rightarrow> bool" for lib where
  step_get: "cache_step lib st (snd (Cache_Get lib p name st))"
| step_acquire: "cache_step lib st (Acquire name c st)"
| step_release: "cache_step lib st (Release name c st)"
| step_release_all: "cache_step lib st (ReleaseAll c st)"
| step_invalidate: "cache_step lib st (Invalidate name st)"

lemma cache_step_ok: "cache_step lib st st' \<Longrightarrow> cache_ok st \<Longrightarrow> cache_ok st'"
  by (induction rule: cache_step.induct)
     (auto intro: Acquire_ok Release_ok ReleaseAll_ok Invalidate_ok intro!: Cache_Get_ok [OF _ surjective_pairing])

lemma cache_reachable_ok: "(cache_step lib)\<^sup>*\<^sup>* st st' \<Longrightarrow> cache_ok st \<Longrightarrow> cache_ok st'"
  by (induction rule: rtranclp_induct) (auto intro: cache_step_ok)

section \<open>Lemmas: getting a client\<close>

lemma start_and_put_Inr:
  assumes "start_and_put p name built st = (Inr cl, st')"
  obtains e where "st' = put_entry name e (st\<lparr>cs_started := Suc (cs_started st)\<rparr>)" and "cl = remoteClient e"
    and "en_fingerprint e = br_Fingerprint built" and "en_consumers e = []"
  using assms by (auto simp: start_and_put_def start_def Let_def split: sum.splits option.splits if_splits)

lemma Cache_Get_Inr:
  assumes "Cache_Get lib p name st = (Inr cl, st')"
  obtains rc built e where "cp_Fetch p name = Inr rc" and "Builder_Build lib (cp_Builder p) rc = Inr built" and "name \<noteq> []"
    and "map_of (cs_entries st') name = Some e" and "cl = remoteClient e" and "en_fingerprint e = br_Fingerprint built"
    and "\<And>m. m \<noteq> name \<Longrightarrow> map_of (cs_entries st') m = map_of (cs_entries st) m"
    and "st' = st \<or> en_consumers e = []"
proof -
  from assms obtain rc built where get: "name \<noteq> []" "cp_Fetch p name = Inr rc" "Builder_Build lib (cp_Builder p) rc = Inr built"
    by (auto simp: Cache_Get_def split: if_splits sum.splits)
  note found = that [OF get(2,3,1)]
  show thesis
  proof (cases "map_of (cs_entries st) name")
    case None
    with assms get have run: "start_and_put p name built st = (Inr cl, st')" by (simp add: Cache_Get_def)
    obtain e where e: "st' = put_entry name e (st\<lparr>cs_started := Suc (cs_started st)\<rparr>)" "cl = remoteClient e"
      "en_fingerprint e = br_Fingerprint built" "en_consumers e = []"
      by (rule start_and_put_Inr [OF run])
    have "map_of (cs_entries st') = (map_of (cs_entries st))(name \<mapsto> e)" by (simp add: e(1))
    then show thesis using e(2-4) by (intro found [of e]) simp_all
  next
    case (Some e)
    show thesis
    proof (cases "en_fingerprint e = br_Fingerprint built")
      case True
      with assms get Some show thesis by (intro found) (simp_all add: Cache_Get_def)
    next
      case False
      with assms get Some have run: "start_and_put p name built (drop_entry name e st) = (Inr cl, st')"
        by (simp add: Cache_Get_def)
      obtain e' where e': "st' = put_entry name e' ((drop_entry name e st)\<lparr>cs_started := Suc (cs_started (drop_entry name e st))\<rparr>)"
        "cl = remoteClient e'" "en_fingerprint e' = br_Fingerprint built" "en_consumers e' = []"
        by (rule start_and_put_Inr [OF run])
      have "map_of (cs_entries st') = (map_of (cs_entries st))(name \<mapsto> e')" by (simp add: e'(1))
      then show thesis using e'(2-4) by (intro found [of e']) simp_all
    qed
  qed
qed

lemma Cache_Get_hit:
  assumes "name \<noteq> []" and "cp_Fetch p name = Inr rc" and "Builder_Build lib (cp_Builder p) rc = Inr built"
    and "map_of (cs_entries st) name = Some e" and "en_fingerprint e = br_Fingerprint built"
  shows "Cache_Get lib p name st = (Inr (remoteClient e), st)"
  using assms by (simp add: Cache_Get_def)

lemma running_not_cancelled:
  assumes "cache_ok st" and "map_of (cs_entries st) n = Some e"
  shows "en_cluster e \<notin> set (cs_cancelled st)"
proof
  assume c: "en_cluster e \<in> set (cs_cancelled st)"
  have "en_cluster e \<in># handles st" using map_of_SomeD [OF assms(2)] by (force simp: handles_def)
  then have "2 \<le> count (handles st + mset (cs_cancelled st)) (en_cluster e)"
    using c by (metis add_mono count_greater_eq_one_iff count_union one_add_one set_mset_mset)
  also have "handles st + mset (cs_cancelled st) = mset_set {0..<cs_started st}" using assms(1) by (simp add: cache_ok_def)
  finally show False by (simp add: count_mset_set' split: if_splits)
qed

lemma started_accounted:
  "cache_ok st \<Longrightarrow> n < cs_started st \<Longrightarrow> n \<in># handles st \<or> n \<in> set (cs_cancelled st)"
proof -
  assume "cache_ok st" and n: "n < cs_started st"
  then have eq: "handles st + mset (cs_cancelled st) = mset [0..<cs_started st]" by (simp add: cache_ok_def)
  have "n \<in># mset [0..<cs_started st]" using n by simp
  then show ?thesis by (simp only: eq [symmetric]) simp
qed

lemma handle_started:
  assumes "cache_ok st" and "map_of (cs_entries st) n = Some e"
  shows "en_cluster e < cs_started st"
proof -
  have eq: "handles st + mset (cs_cancelled st) = mset [0..<cs_started st]" using assms(1) by (simp add: cache_ok_def)
  have "en_cluster e \<in># handles st" using map_of_SomeD [OF assms(2)] by (force simp: handles_def)
  then have "en_cluster e \<in># mset [0..<cs_started st]" by (simp only: eq [symmetric]) simp
  then show ?thesis by simp
qed

lemma handle_unique:
  assumes "cache_ok st" and "map_of (cs_entries st) n = Some e" and "map_of (cs_entries st) m = Some e'"
    and "en_cluster e = en_cluster e'"
  shows "n = m"
proof (rule ccontr)
  assume "n \<noteq> m"
  have "distinct (map (en_cluster \<circ> snd) (cs_entries st))"
  proof -
    have eq: "handles st + mset (cs_cancelled st) = mset [0..<cs_started st]" using assms(1) by (simp add: cache_ok_def)
    have "mset (map (en_cluster \<circ> snd) (cs_entries st) @ cs_cancelled st) = mset [0..<cs_started st]"
      using eq by (simp add: handles_def multiset.map_comp)
    then have "distinct (map (en_cluster \<circ> snd) (cs_entries st) @ cs_cancelled st)"
      using mset_eq_imp_distinct_iff distinct_upt by blast
    then show ?thesis by simp
  qed
  then have "inj_on (en_cluster \<circ> snd) (set (cs_entries st))" by (simp add: distinct_map)
  then have "(n, e) = (m, e')"
    using map_of_SomeD [OF assms(2)] map_of_SomeD [OF assms(3)] assms(4)
    by (intro inj_onD [of "en_cluster \<circ> snd"]) simp_all
  with \<open>n \<noteq> m\<close> show False by simp
qed

lemma started_release: "cs_started (foldl (\<lambda>st (name, e). Release name c st) st xs) = cs_started st"
  by (induction xs arbitrary: st) (auto simp: Release_def Let_def drop_entry_def put_entry_def cancel_def split: option.split)

lemma dropped_cancelled:
  assumes ok: "cache_ok st" and ok': "cache_ok st'" and "cs_started st' = cs_started st"
    and e: "map_of (cs_entries st) n = Some e"
    and rest: "\<And>m e'. map_of (cs_entries st') m = Some e' \<Longrightarrow> m \<noteq> n \<and> (\<exists>e. map_of (cs_entries st) m = Some e \<and> en_cluster e = en_cluster e')"
  shows "en_cluster e \<in> set (cs_cancelled st')"
proof -
  have "en_cluster e < cs_started st'" using handle_started [OF ok e] assms(3) by simp
  moreover have "en_cluster e \<notin># handles st'"
  proof
    assume "en_cluster e \<in># handles st'"
    then obtain m e' where "(m, e') \<in> set (cs_entries st')" "en_cluster e = en_cluster e'" by (auto simp: handles_def)
    then have "map_of (cs_entries st') m = Some e'" using ok' by (simp add: cache_ok_def)
    from rest [OF this] handle_unique [OF ok e] \<open>en_cluster e = en_cluster e'\<close> show False by force
  qed
  ultimately show ?thesis using started_accounted [OF ok'] by blast
qed

section \<open>Properties\<close>

text \<open>
  C11: in every state that the cache can reach, by any methods in any order and whatever the outside world does,
  each cluster connection ever started is either held by exactly one entry or was cancelled exactly once,
  and each cluster name has at most one entry: no informer leaks and none is stopped twice.
\<close>

theorem cache_no_leak:
  assumes "(cache_step lib)\<^sup>*\<^sup>* NewCachingProvider st"
  shows "mset (map (en_cluster \<circ> snd) (cs_entries st)) + mset (cs_cancelled st) = mset [0..<cs_started st] \<and>
     distinct (map fst (cs_entries st))"
  using cache_reachable_ok [OF assms New_ok]
  by (simp add: cache_ok_def handles_def multiset.map_comp)


text \<open>
  When a CrossService is deleted, each connection it alone used is stopped, and each connection that
  another one holds keeps running, with the other holders as they were.
\<close>

theorem ReleaseAll_counts:
  assumes "(cache_step lib)\<^sup>*\<^sup>* NewCachingProvider st" and "map_of (cs_entries st) name = Some e"
  shows "if set (en_consumers e) \<subseteq> {c}
     then map_of (cs_entries (ReleaseAll c st)) name = None \<and> en_cluster e \<in> set (cs_cancelled (ReleaseAll c st))
     else \<exists>e'. map_of (cs_entries (ReleaseAll c st)) name = Some e' \<and> en_cluster e' = en_cluster e \<and>
       set (en_consumers e') = set (en_consumers e) - {c} \<and> en_cluster e \<notin> set (cs_cancelled (ReleaseAll c st))"
proof -
  have ok: "cache_ok st" using assms(1) New_ok by (rule cache_reachable_ok)
  note ok' = ReleaseAll_ok [OF ok, of c]
  have gone: "removeAll c (en_consumers e) = [] \<longleftrightarrow> set (en_consumers e) \<subseteq> {c}"
    by (metis Diff_eq_empty_iff set_empty set_removeAll)
  show ?thesis
  proof (cases "set (en_consumers e) \<subseteq> {c}")
    case True
    then have none: "map_of (cs_entries (ReleaseAll c st)) name = None"
      using assms(2) gone by (simp add: map_of_ReleaseAll released_def)
    have "en_cluster e \<in> set (cs_cancelled (ReleaseAll c st))"
    proof (rule dropped_cancelled [OF ok ok' _ assms(2)])
      show "cs_started (ReleaseAll c st) = cs_started st" by (simp add: ReleaseAll_def started_release)
      show "m \<noteq> name \<and> (\<exists>e. map_of (cs_entries st) m = Some e \<and> en_cluster e = en_cluster e')"
        if "map_of (cs_entries (ReleaseAll c st)) m = Some e'" for m e'
        using that none by (auto simp: map_of_ReleaseAll released_def split: option.splits if_splits)
    qed
    with none True show ?thesis by simp
  next
    case False
    then have "map_of (cs_entries (ReleaseAll c st)) name = Some (e\<lparr>en_consumers := removeAll c (en_consumers e)\<rparr>)"
      using assms(2) gone by (simp add: map_of_ReleaseAll released_def)
    from this running_not_cancelled [OF ok' this] False show ?thesis by simp
  qed
qed

text \<open>
  Between the read that starts a connection and the \<^verbatim>\<open>Acquire\<close> that counts it, the deletion of any
  other CrossService stops the connection, and the \<^verbatim>\<open>Acquire\<close> then registers nothing.
\<close>

theorem ReleaseAll_between_Get_and_Acquire:
  assumes "map_of (cs_entries st) name = None" and "Cache_Get lib p name st = (Inr cl, st1)"
  shows "map_of (cs_entries (ReleaseAll other st1)) name = None \<and>
     Consumers name (Acquire name me (ReleaseAll other st1)) = 0"
  using assms(2)
proof (cases rule: Cache_Get_Inr)
  case (1 rc built e)
  with assms(1) have "en_consumers e = []" by auto
  with 1(4) have "map_of (cs_entries (ReleaseAll other st1)) name = None" by (simp add: map_of_ReleaseAll released_def)
  then show ?thesis by (simp add: Consumers_def Acquire_def)
qed

text \<open>
  When the credentials of a cluster rotate, the connection is rebuilt on the next read and the consumers of the
  old one are forgotten, all but the one that reads next.
\<close>

theorem rotation_forgets_consumers:
  assumes "map_of (cs_entries st) name = Some e" and "cp_Fetch p name = Inr rc"
    and "Builder_Build lib (cp_Builder p) rc = Inr built" and "en_fingerprint e \<noteq> br_Fingerprint built"
    and "Cache_Get lib p name st = (Inr cl, st')"
  shows "holds (Acquire name me st') name = {me}"
  using assms(5)
proof (cases rule: Cache_Get_Inr)
  case (1 rc' built' e')
  have "st' \<noteq> st" using 1 assms(1-4) by auto
  with 1 have "en_consumers e' = []" by blast
  with 1(4) have "holds st' name = {}" "live st' name" by (simp_all add: holds_def live_def)
  then show ?thesis by (simp add: refs.holding_acquire)
qed

text \<open>
  C33: after the impersonated user of a cluster is changed, the cache keeps handing out the client that it built
  before: the change takes no effect on reads until the connection is dropped for another reason.
\<close>

theorem impersonation_change_ignored:
  assumes "cp_Fetch p name = Inr rc" and "Cache_Get lib p name st = (Inr cl, st1)"
    and "cp_Fetch p' name = Inr (with_impersonation i rc)" and "cp_Builder p' = cp_Builder p"
  shows "Cache_Get lib p' name st1 = (Inr cl, st1)"
  using assms(2)
proof (cases rule: Cache_Get_Inr)
  case (1 rc' built e)
  have "map_sum id br_Fingerprint (Builder_Build lib (cp_Builder p) (with_impersonation i rc)) = Inr (br_Fingerprint built)"
    using 1 assms(1) by (simp add: Build_fingerprint_ignores_impersonation)
  then obtain built' where "Builder_Build lib (cp_Builder p) (with_impersonation i rc) = Inr built'"
    "br_Fingerprint built' = br_Fingerprint built"
    by (cases "Builder_Build lib (cp_Builder p) (with_impersonation i rc)") auto
  with 1 assms(3,4) show ?thesis by (simp add: Cache_Get_hit)
qed

section \<open>Witnesses\<close>

definition empty_reader :: KubeReader where
  "empty_reader = \<lparr>kr_ListPods = (\<lambda>_ _. Inr []), kr_GetPod = (\<lambda>_. Inl (NotFoundError [])), kr_ListNodes = (\<lambda>_. Inr []),
     kr_GetNode = (\<lambda>_. Inl (NotFoundError [])), kr_GetService = (\<lambda>_. Inl (NotFoundError [])), kr_ListSlices = (\<lambda>_ _. Inr [])\<rparr>"

definition demo_provider :: "RemoteCluster \<Rightarrow> CachingProvider" where
  "demo_provider rc = \<lparr>cp_Builder = demo_builder, cp_Fetch = (\<lambda>_. Inr rc), cp_New = (\<lambda>_. Inr empty_reader), cp_OnStart = None,
     cp_Sync = (\<lambda>_. True)\<rparr>"

definition demo_entry :: "string \<Rightarrow> nat \<Rightarrow> duration \<Rightarrow> entry" where
  "demo_entry fp n t = \<lparr>en_fingerprint = fp, en_cluster = n, en_reader = empty_reader, en_consumers = [], en_timeout = t\<rparr>"

lemma demo_start:
  assumes "Builder_Build demo_lib demo_builder rc = Inr built"
  shows "Cache_Get demo_lib (demo_provider rc) ''east'' NewCachingProvider =
     (Inr (remoteClient (demo_entry (br_Fingerprint built) 0 (readTimeout (cfg_Timeout (br_Config built))))),
      \<lparr>cs_entries = [(''east'', demo_entry (br_Fingerprint built) 0 (readTimeout (cfg_Timeout (br_Config built))))], cs_started = 1, cs_cancelled = []\<rparr>)"
  using assms by (simp add: Cache_Get_def demo_provider_def NewCachingProvider_def start_and_put_def start_def demo_entry_def put_entry_def Let_def)

lemma demo_built:
  obtains built where "Builder_Build demo_lib demo_builder demo_token_cluster = Inr built"
  using demo_token_run by blast

lemma cache_no_leak_witness:
  "\<exists>st. (cache_step demo_lib)\<^sup>*\<^sup>* NewCachingProvider st \<and> cs_started st = 1 \<and>
     mset (map (en_cluster \<circ> snd) (cs_entries st)) + mset (cs_cancelled st) = mset [0..<1]"
proof -
  obtain built where b: "Builder_Build demo_lib demo_builder demo_token_cluster = Inr built" by (rule demo_built)
  let ?st = "snd (Cache_Get demo_lib (demo_provider demo_token_cluster) ''east'' NewCachingProvider)"
  have r: "(cache_step demo_lib)\<^sup>*\<^sup>* NewCachingProvider ?st" using step_get by (rule r_into_rtranclp)
  moreover have "cs_started ?st = 1" using demo_start [OF b] by simp
  ultimately show ?thesis using cache_no_leak [OF r] by force
qed


lemma ReleaseAll_counts_witness:
  "\<exists>st. (cache_step demo_lib)\<^sup>*\<^sup>* NewCachingProvider st \<and> map_of (cs_entries st) ''east'' \<noteq> None \<and>
     map_of (cs_entries (ReleaseAll \<lparr>nn_Namespace = ''app'', nn_Name = ''db''\<rparr> st)) ''east'' = None"
proof -
  obtain built where b: "Builder_Build demo_lib demo_builder demo_token_cluster = Inr built" by (rule demo_built)
  let ?st = "snd (Cache_Get demo_lib (demo_provider demo_token_cluster) ''east'' NewCachingProvider)"
  have r: "(cache_step demo_lib)\<^sup>*\<^sup>* NewCachingProvider ?st" using step_get by (rule r_into_rtranclp)
  obtain e where e: "map_of (cs_entries ?st) ''east'' = Some e" "en_consumers e = []"
    using demo_start [OF b] by (simp add: demo_entry_def)
  from ReleaseAll_counts [OF r e(1), of "\<lparr>nn_Namespace = ''app'', nn_Name = ''db''\<rparr>"] e r show ?thesis by auto
qed

lemma ReleaseAll_between_Get_and_Acquire_witness:
  "\<exists>cl st. Cache_Get demo_lib (demo_provider demo_token_cluster) ''east'' NewCachingProvider = (Inr cl, st) \<and>
     Consumers ''east'' (Acquire ''east'' \<lparr>nn_Namespace = ''app'', nn_Name = ''db''\<rparr>
       (ReleaseAll \<lparr>nn_Namespace = ''app'', nn_Name = ''gone''\<rparr> st)) = 0"
proof -
  obtain built where b: "Builder_Build demo_lib demo_builder demo_token_cluster = Inr built" by (rule demo_built)
  have "map_of (cs_entries NewCachingProvider) ''east'' = None" by (simp add: NewCachingProvider_def)
  from ReleaseAll_between_Get_and_Acquire [OF this demo_start [OF b]] demo_start [OF b] show ?thesis by blast
qed

lemma impersonation_change_ignored_witness:
  "\<exists>cl st. Cache_Get demo_lib (demo_provider demo_token_cluster) ''east'' NewCachingProvider = (Inr cl, st) \<and>
     Cache_Get demo_lib (demo_provider (with_impersonation
         (Some \<lparr>imp_UserName = ''reader'', imp_UID = [], imp_Groups = [], imp_Extra = Map.empty\<rparr>) demo_token_cluster))
       ''east'' st = (Inr cl, st)"
proof -
  obtain built where b: "Builder_Build demo_lib demo_builder demo_token_cluster = Inr built" by (rule demo_built)
  note run = demo_start [OF b]
  show ?thesis
    by (intro exI conjI, rule run, rule impersonation_change_ignored [OF _ run]) (simp_all add: demo_provider_def)
qed

lemma rotation_forgets_consumers_witness:
  "\<exists>st cl st'. holds st ''east'' = {\<lparr>nn_Namespace = ''app'', nn_Name = ''a''\<rparr>} \<and>
     Cache_Get demo_lib (demo_provider demo_token_cluster) ''east'' st = (Inr cl, st') \<and>
     holds (Acquire ''east'' \<lparr>nn_Namespace = ''app'', nn_Name = ''b''\<rparr> st') ''east'' = {\<lparr>nn_Namespace = ''app'', nn_Name = ''b''\<rparr>}"
proof -
  obtain built where b: "Builder_Build demo_lib demo_builder demo_token_cluster = Inr built" by (rule demo_built)
  let ?e = "(demo_entry (CHR ''x'' # br_Fingerprint built) 0 0)\<lparr>en_consumers := [\<lparr>nn_Namespace = ''app'', nn_Name = ''a''\<rparr>]\<rparr>"
  let ?st = "\<lparr>cs_entries = [(''east'', ?e)], cs_started = 1, cs_cancelled = []\<rparr>"
  let ?e' = "demo_entry (br_Fingerprint built) 1 (readTimeout (cfg_Timeout (br_Config built)))"
  have run: "Cache_Get demo_lib (demo_provider demo_token_cluster) ''east'' ?st =
      (Inr (remoteClient ?e'), \<lparr>cs_entries = [(''east'', ?e')], cs_started = 2, cs_cancelled = [0]\<rparr>)"
    using b by (simp add: Cache_Get_def demo_provider_def start_and_put_def start_def demo_entry_def put_entry_def
        drop_entry_def cancel_def Let_def)
  have "holds (Acquire ''east'' \<lparr>nn_Namespace = ''app'', nn_Name = ''b''\<rparr>
      \<lparr>cs_entries = [(''east'', ?e')], cs_started = 2, cs_cancelled = [0]\<rparr>) ''east'' = {\<lparr>nn_Namespace = ''app'', nn_Name = ''b''\<rparr>}"
    by (rule rotation_forgets_consumers [OF _ _ _ _ run, of ?e demo_token_cluster built])
       (simp_all add: demo_provider_def b demo_entry_def)
  moreover have "holds ?st ''east'' = {\<lparr>nn_Namespace = ''app'', nn_Name = ''a''\<rparr>}" by (simp add: holds_def)
  ultimately show ?thesis using run by blast
qed

end
