(* ===== verification/Validation.thy ===== *)
theory Validation
  imports Endpoint_Group
begin

text \<open>
  Two layers of validation of a CrossService: the rules that the API server enforces at admission (the
  markers on the types of \<^verbatim>\<open>api/v1alpha1/crossservice_types.go\<close>), and what the controller checks
  again or in addition (\<^verbatim>\<open>internal/controller/validation.go\<close>).

  The rules of the first layer are stated on an object as the Go types encode it, after defaulting: a field with
  \<^verbatim>\<open>omitempty\<close> is present when it is not the zero value.
\<close>

section \<open>Admission\<close>

definition lower :: "char \<Rightarrow> bool" where
  "lower c \<longleftrightarrow> CHR ''a'' \<le> c \<and> c \<le> CHR ''z''"

definition name_char :: "char \<Rightarrow> bool" where
  "name_char c \<longleftrightarrow> lower c \<or> CHR ''0'' \<le> c \<and> c \<le> CHR ''9''"

text \<open>The pattern \<^verbatim>\<open>^[a-z0-9]([-a-z0-9]*[a-z0-9])?$\<close>.\<close>

definition name_pattern :: "string \<Rightarrow> bool" where
  "name_pattern s \<longleftrightarrow> s \<noteq> [] \<and> name_char (hd s) \<and> name_char (last s) \<and>
     list_all (\<lambda>c. name_char c \<or> c = CHR ''-'') s"

definition port_admitted :: "CrossServicePort \<Rightarrow> bool" where
  "port_admitted p \<longleftrightarrow>
     (csp_Name p \<noteq> [] \<longrightarrow> length (csp_Name p) \<le> 15 \<and> name_pattern (csp_Name p) \<and>
        list_ex lower (csp_Name p) \<and> \<not> Contains (csp_Name p) ''--'') \<and>
     1 \<le> sint (csp_Port p) \<and> sint (csp_Port p) \<le> 65535 \<and> csp_Protocol p \<in> {''TCP'', ''UDP'', ''SCTP''} \<and>
     (case csp_AppProtocol p of None \<Rightarrow> True | Some a \<Rightarrow> length a \<le> 253) \<and>
     \<not> (csp_TargetPort p \<noteq> None \<and> csp_RemotePort p \<noteq> None)"

definition short_names :: "nat \<Rightarrow> string list \<Rightarrow> bool" where
  "short_names n names \<longleftrightarrow> length names \<le> n \<and> list_all (\<lambda>a. length a \<le> 253) names"

definition resolution_admitted :: "DNSResolution \<Rightarrow> bool" where
  "resolution_admitted r \<longleftrightarrow> short_names 8 (dr_Nameservers r)"

definition node_address_types :: "string set" where
  "node_address_types = {NodeAddressTypeInternalIP, NodeAddressTypeExternalIP, NodeAddressTypePreferExternal,
     NodeAddressTypePreferInternal}"

definition node_port_admitted :: "NodePortExposure \<Rightarrow> bool" where
  "node_port_admitted n \<longleftrightarrow>
     \<not> (npe_Selector n \<noteq> None \<and> npe_Names n \<noteq> []) \<and> short_names 256 (npe_Names n) \<and>
     npe_AddressType n \<in> node_address_types"

definition service_source_admitted :: "ServiceSource \<Rightarrow> bool" where
  "service_source_admitted s \<longleftrightarrow>
     (svs_Via s = ServiceExposureNodePort \<or> svs_NodePort s = None) \<and>
     (svs_Via s = ServiceExposureLoadBalancer \<or> svs_LoadBalancer s = None) \<and>
     (svs_Via s = ServiceExposurePodIP \<or> svs_PodIP s = None) \<and>
     length (svs_Namespace s) \<le> 253 \<and> length (svs_Name s) \<le> 253 \<and>
     svs_Via s \<in> {ServiceExposureNodePort, ServiceExposureLoadBalancer, ServiceExposurePodIP} \<and>
     pred_option node_port_admitted (svs_NodePort s) \<and>
     pred_option (\<lambda>l. pred_option resolution_admitted (lbe_HostnameResolution l)) (svs_LoadBalancer s)"

definition pod_source_admitted :: "PodSource \<Rightarrow> bool" where
  "pod_source_admitted s \<longleftrightarrow>
     (ps_Selector s \<noteq> None) \<noteq> (ps_Names s \<noteq> []) \<and> length (ps_Namespace s) \<le> 253 \<and> short_names 64 (ps_Names s)"

definition node_source_admitted :: "NodeSource \<Rightarrow> bool" where
  "node_source_admitted s \<longleftrightarrow>
     \<not> (ns_Selector s \<noteq> None \<and> ns_Names s \<noteq> []) \<and> short_names 256 (ns_Names s) \<and>
     ns_AddressType s \<in> node_address_types"

definition dns_source_admitted :: "DNSSource \<Rightarrow> bool" where
  "dns_source_admitted s \<longleftrightarrow>
     \<not> (ds_ExcludePrivateIPs s \<and> ds_ExcludePublicIPs s) \<and> 1 \<le> length (ds_Names s) \<and> short_names 32 (ds_Names s) \<and>
     ds_RecordType s \<in> {DNSRecordTypeA, DNSRecordTypeAAAA, DNSRecordTypeSRV} \<and> length (ds_SRVPortName s) \<le> 15 \<and>
     resolution_admitted (ds_Resolution s)"

definition static_source_admitted :: "StaticSource \<Rightarrow> bool" where
  "static_source_admitted s \<longleftrightarrow> 1 \<le> length (sts_Addresses s) \<and> length (sts_Addresses s) \<le> 256 \<and>
     list_all (\<lambda>a. length a \<le> 45) (sts_Addresses s) \<and> length (sts_Zone s) \<le> 253"

definition source_admitted :: "Source \<Rightarrow> bool" where
  "source_admitted s \<longleftrightarrow>
     (src_Type s = SourceTypeService \<longleftrightarrow> src_Service s \<noteq> None) \<and> (src_Type s = SourceTypeDNS \<longleftrightarrow> src_DNS s \<noteq> None) \<and>
     (src_Type s = SourceTypePods \<longleftrightarrow> src_Pods s \<noteq> None) \<and> (src_Type s = SourceTypeNodes \<longleftrightarrow> src_Nodes s \<noteq> None) \<and>
     (src_Type s = SourceTypeStatic \<longleftrightarrow> src_Static s \<noteq> None) \<and>
     (src_Type s \<in> {SourceTypeService, SourceTypePods, SourceTypeNodes} \<or> src_ClusterRef s = None) \<and>
     src_Type s \<in> {SourceTypeService, SourceTypePods, SourceTypeNodes, SourceTypeDNS, SourceTypeStatic} \<and>
     pred_option (\<lambda>c. length (cr_Name c) \<le> 253) (src_ClusterRef s) \<and>
     pred_option service_source_admitted (src_Service s) \<and> pred_option pod_source_admitted (src_Pods s) \<and>
     pred_option node_source_admitted (src_Nodes s) \<and> pred_option dns_source_admitted (src_DNS s) \<and>
     pred_option static_source_admitted (src_Static s)"

definition template_admitted :: "ServiceTemplate \<Rightarrow> bool" where
  "template_admitted t \<longleftrightarrow>
     length (st_Name t) \<le> 253 \<and> st_ClusterIP t \<in> {[], ''None''} \<and>
     pred_option (\<lambda>x. x \<in> {''Cluster'', ''Local''}) (st_InternalTrafficPolicy t) \<and>
     pred_option (\<lambda>x. x \<in> {''None'', ''ClientIP''}) (st_SessionAffinity t)"

definition failure_policy_admitted :: "FailurePolicy \<Rightarrow> bool" where
  "failure_policy_admitted p \<longleftrightarrow>
     1 \<le> sint (fp_FailureThreshold p) \<and> fp_OnStale p \<in> {StaleActionRemove, StaleActionMarkNotReady}"

definition is_int_port :: "IntOrString option \<Rightarrow> bool" where
  "is_int_port t = (case t of Some (StrVal s) \<Rightarrow> False | _ \<Rightarrow> True)"

definition spec_admitted :: "CrossServiceSpec \<Rightarrow> bool" where
  "spec_admitted spec \<longleftrightarrow>
     (let ports = spec_Ports spec; t = src_Type (spec_Source spec)
      in 1 \<le> length ports \<and> length ports \<le> 64 \<and> list_all port_admitted ports \<and> source_admitted (spec_Source spec) \<and>
         pred_option template_admitted (spec_Service spec) \<and> pred_option failure_policy_admitted (spec_FailurePolicy spec) \<and>
         spec_IPFamilyPolicy spec \<in> {IPFamilyPolicyIPv4, IPFamilyPolicyIPv6, IPFamilyPolicyPreferDualStack} \<and>
         (length ports = 1 \<or> list_all (\<lambda>p. csp_Name p \<noteq> []) ports) \<and>
         (length ports = 1 \<or> list_all (\<lambda>p. length (filter (\<lambda>q. csp_Name q = csp_Name p) ports) = 1) ports) \<and>
         (t = SourceTypePods \<or> list_all (\<lambda>p. is_int_port (csp_TargetPort p)) ports) \<and>
         (t = SourceTypeService \<or> list_all (\<lambda>p. csp_RemotePort p = None) ports) \<and>
         (t \<noteq> SourceTypeService \<or> list_all (\<lambda>p. csp_TargetPort p = None) ports))"

section \<open>The controller's own checks\<close>

fun port_name_loop :: "nat \<Rightarrow> string list \<Rightarrow> CrossServicePort list \<Rightarrow> go_error option" where
  "port_name_loop n seen [] = None"
| "port_name_loop n seen (p # ps) =
     (if csp_Name p \<in> set seen then Some (Errorf [Lit ''duplicate port name '', Quoted (csp_Name p)])
      else let seen = csp_Name p # seen
        in if csp_Name p = [] then
             (if 1 < n then Some (Errorf [Lit ''port name is required when more than one port is defined''])
              else port_name_loop n seen ps)
           else if 15 < length (csp_Name p) then
             Some (Errorf [Lit ''port name '', Quoted (csp_Name p), Lit '' exceeds 15 characters''])
           else if \<not> list_ex lower (csp_Name p) then
             Some (Errorf [Lit ''port name '', Quoted (csp_Name p), Lit '' must contain at least one letter''])
           else if Contains (csp_Name p) ''--'' then
             Some (Errorf [Lit ''port name '', Quoted (csp_Name p), Lit '' must not contain adjacent hyphens''])
           else port_name_loop n seen ps)"

definition validatePortNames :: "CrossServicePort list \<Rightarrow> go_error option" where
  "validatePortNames ports = port_name_loop (length ports) [] ports"

definition validateSpec :: "CrossService \<Rightarrow> go_error option" where
  "validateSpec xsvc =
     (let src = spec_Source (xs_Spec xsvc); ports = spec_Ports (xs_Spec xsvc)
      in case validatePortNames ports of
           Some err \<Rightarrow> Some err
         | None \<Rightarrow>
             if src_Type src = SourceTypeStatic then
               (case src_Static src of
                  None \<Rightarrow> Some (Errorf [Lit ''static source has no static config''])
                | Some cfg \<Rightarrow>
                    (case find (\<lambda>a. ParseAddr a = None) (sts_Addresses cfg) of
                       Some a \<Rightarrow> Some (Errorf [Lit ''static address '', Quoted a, Lit '' is not a valid IP address''])
                     | None \<Rightarrow> None))
             else if src_Type src = SourceTypeDNS then
               (case src_DNS src of
                  None \<Rightarrow> Some (Errorf [Lit ''dns source has no dns config''])
                | Some cfg \<Rightarrow>
                    if ds_RecordType cfg = DNSRecordTypeSRV \<and> ds_SRVPortName cfg = [] \<and> 1 < length ports
                    then Some (Errorf [Lit ''srvPortName is required when an SRV source has more than one port''])
                    else None)
             else None)"

section \<open>Lemmas\<close>

definition good_port_name :: "string \<Rightarrow> bool" where
  "good_port_name s \<longleftrightarrow> length s \<le> 15 \<and> list_ex lower s \<and> \<not> Contains s ''--''"

lemma port_name_loop_None:
  "port_name_loop n seen ps = None \<longleftrightarrow>
     distinct (map csp_Name ps) \<and> (\<forall>p\<in>set ps. csp_Name p \<notin> set seen \<and>
       (if csp_Name p = [] then n \<le> 1 else good_port_name (csp_Name p)))"
proof (induction ps arbitrary: seen)
  case (Cons p ps)
  show ?case
    by (cases "csp_Name p \<in> set seen"; cases "csp_Name p = []")
       (auto simp: Cons.IH good_port_name_def Let_def image_iff)
qed simp

lemma one_each_distinct:
  assumes "\<forall>x\<in>set xs. length (filter (\<lambda>y. f y = f x) xs) = 1"
  shows "distinct (map f xs)"
proof (rule ccontr)
  assume "\<not> distinct (map f xs)"
  then obtain i j where ij: "i < length xs" "j < length xs" "i \<noteq> j" "f (xs ! i) = f (xs ! j)"
    by (auto simp: distinct_conv_nth)
  let ?P = "\<lambda>y. f y = f (xs ! i)"
  have "card {k. k < length xs \<and> ?P (xs ! k)} = 1"
    using assms ij(1) by (simp add: length_filter_conv_card)
  moreover have "{i, j} \<subseteq> {k. k < length xs \<and> ?P (xs ! k)}" using ij by auto
  then have "card {i, j} \<le> card {k. k < length xs \<and> ?P (xs ! k)}" by (intro card_mono) auto
  ultimately show False using ij(3) by simp
qed

lemma name_pattern_no_slash: "name_pattern s \<Longrightarrow> CHR ''/'' \<notin> set s"
proof
  assume "name_pattern s" and "CHR ''/'' \<in> set s"
  then have "name_char (CHR ''/'') \<or> CHR ''/'' = CHR ''-''" by (auto simp: name_pattern_def list_all_iff)
  then show False by (simp add: name_char_def lower_def less_eq_char_def)
qed

lemma admitted_distinct: "spec_admitted spec \<Longrightarrow> distinct (map csp_Name (spec_Ports spec))"
  unfolding spec_admitted_def Let_def
  by (cases "length (spec_Ports spec) = 1") (auto simp: length_Suc_conv list_all_iff intro!: one_each_distinct)

lemma admitted_port_names:
  assumes "spec_admitted spec"
  shows "valid_port_names (spec_Ports spec)"
proof -
  have "CHR ''/'' \<notin> set (csp_Name p)" if "p \<in> set (spec_Ports spec)" for p
  proof (cases "csp_Name p = []")
    case False
    have "port_admitted p" using assms that by (simp add: spec_admitted_def Let_def list_all_iff)
    with False have "name_pattern (csp_Name p)" by (simp add: port_admitted_def)
    then show ?thesis by (rule name_pattern_no_slash)
  qed simp
  then show ?thesis using admitted_distinct [OF assms] by (simp add: valid_port_names_def list_all_iff)
qed

section \<open>Properties\<close>

text \<open>
  The controller accepts a list of ports exactly when their names are distinct, a single port may be
  unnamed, and every name has at most fifteen characters, a letter and no adjacent hyphens.
\<close>

theorem validatePortNames_iff:
  "validatePortNames ports = None \<longleftrightarrow>
     distinct (map csp_Name ports) \<and>
     list_all (\<lambda>p. if csp_Name p = [] then length ports \<le> 1
                   else length (csp_Name p) \<le> 15 \<and> list_ex lower (csp_Name p) \<and> \<not> Contains (csp_Name p) ''--'') ports"
  by (simp add: validatePortNames_def port_name_loop_None good_port_name_def list_all_iff)

text \<open>
  C35: for a specification that passed admission, the controller's validation can fail for two reasons only, the ones
  that admission cannot express: a static address that does not parse, and an SRV source with several
  ports that does not say which one the record fills.
\<close>

theorem admitted_validateSpec:
  assumes "spec_admitted (xs_Spec xsvc)"
  shows "validateSpec xsvc = None \<longleftrightarrow>
     (case src_Static (spec_Source (xs_Spec xsvc)) of None \<Rightarrow> True
      | Some cfg \<Rightarrow> list_all (\<lambda>a. ParseAddr a \<noteq> None) (sts_Addresses cfg)) \<and>
     (case src_DNS (spec_Source (xs_Spec xsvc)) of None \<Rightarrow> True
      | Some cfg \<Rightarrow> ds_RecordType cfg = DNSRecordTypeSRV \<longrightarrow> ds_SRVPortName cfg \<noteq> [] \<or> length (spec_Ports (xs_Spec xsvc)) = 1)"
proof -
  let ?spec = "xs_Spec xsvc" and ?src = "spec_Source (xs_Spec xsvc)"
  have ports: "validatePortNames (spec_Ports ?spec) = None"
    using assms admitted_distinct [OF assms]
    by (auto simp: validatePortNames_def port_name_loop_None good_port_name_def spec_admitted_def Let_def
        port_admitted_def list_all_iff)
  have pos: "1 \<le> length (spec_Ports ?spec)" using assms by (simp add: spec_admitted_def Let_def)
  have src: "source_admitted ?src" using assms by (simp add: spec_admitted_def Let_def)
  have find: "find (\<lambda>a. ParseAddr a = None) as = None \<longleftrightarrow> list_all (\<lambda>a. ParseAddr a \<noteq> None) as" for as
    by (auto simp: find_None_iff list_all_iff)
  show ?thesis
  proof (cases "src_Type ?src = SourceTypeStatic")
    case True
    with src obtain cfg where "src_Static ?src = Some cfg" "src_DNS ?src = None" by (auto simp: source_admitted_def)
    with True show ?thesis 
      using find [of "sts_Addresses cfg"]
      by (simp add: validateSpec_def ports split: option.split) (metis not_None_eq)
  next
    case not_static: False
    then have none: "src_Static ?src = None" using src by (auto simp: source_admitted_def)
    show ?thesis
    proof (cases "src_Type ?src = SourceTypeDNS")
      case True
      with src obtain cfg where "src_DNS ?src = Some cfg" by (auto simp: source_admitted_def)
      with True none pos show ?thesis by (auto simp: validateSpec_def ports)
    next
      case False
      with src have "src_DNS ?src = None" by (auto simp: source_admitted_def)
      with False not_static none show ?thesis by (simp add: validateSpec_def ports)
    qed
  qed
qed

definition demo_admitted :: CrossService where
  "demo_admitted = \<lparr>xs_Name = ''db'', xs_Namespace = ''app'', xs_UID = ''1'', xs_Generation = 1,
     xs_Spec = \<lparr>spec_Ports = [zero_port\<lparr>csp_Name := ''pg'', csp_Port := 5432, csp_Protocol := ''TCP''\<rparr>],
       spec_Source = zero_source\<lparr>src_Type := SourceTypeStatic,
         src_Static := Some \<lparr>sts_Addresses = [''203.0.113.7'', ''2001:db8::7''], sts_Zone = []\<rparr>\<rparr>,
       spec_Service = None, spec_IPFamilyPolicy = IPFamilyPolicyIPv4, spec_FailurePolicy = None\<rparr>,
     xs_Status = zero_status\<rparr>"

lemma demo_admitted_ok: "spec_admitted (xs_Spec demo_admitted)"
  by (simp add: demo_admitted_def spec_admitted_def port_admitted_def zero_port_def zero_source_def source_admitted_def
      static_source_admitted_def name_pattern_def name_char_def lower_def less_eq_char_def HasPrefix_def is_int_port_def)

lemma demo_admitted_addresses: "ParseAddr ''203.0.113.7'' \<noteq> None" "ParseAddr ''2001:db8::7'' \<noteq> None"
  by code_simp+

lemma admitted_validateSpec_witness: "validateSpec demo_admitted = None"
  using admitted_validateSpec [OF demo_admitted_ok] demo_admitted_addresses
  by (simp add: demo_admitted_def zero_source_def)

end
