(* ===== verification/Conditions.thy ===== *)
theory Conditions
  imports Remote_Types
begin

text \<open>
  Status conditions: the method \<^verbatim>\<open>setCondition\<close> of the CrossService controller and the method
  \<^verbatim>\<open>set\<close> of the RemoteCluster controller.  The two have the same body over two types of status, so
  the laws are stated once, as a locale over a status with a list of conditions, and both methods are
  instances of it.

  The clock is read through \<open>now\<close>; its value is an argument.
\<close>

section \<open>Model\<close>

fun upsert_condition ::
    "time \<Rightarrow> string \<Rightarrow> string \<Rightarrow> string \<Rightarrow> msg \<Rightarrow> StatusCondition list \<Rightarrow> StatusCondition list" where
  "upsert_condition now condType state reason message [] =
     [\<lparr>sc_Type = condType, sc_Status = state, sc_Reason = reason, sc_Message = message,
       sc_LastTransitionTime = now, sc_ObservedGeneration = 0\<rparr>]"
| "upsert_condition now condType state reason message (c # cs) =
     (if sc_Type c \<noteq> condType then c # upsert_condition now condType state reason message cs
      else if sc_Status c = state \<and> sc_Reason c = reason then c\<lparr>sc_Message := message\<rparr> # cs
      else c\<lparr>sc_Status := state, sc_Reason := reason, sc_Message := message, sc_LastTransitionTime := now\<rparr> # cs)"

definition setCondition ::
    "time \<Rightarrow> string \<Rightarrow> string \<Rightarrow> string \<Rightarrow> msg \<Rightarrow> CrossServiceStatus \<Rightarrow> CrossServiceStatus" where
  "setCondition now condType state reason message status =
     status\<lparr>css_Conditions := upsert_condition now condType state reason message (css_Conditions status)\<rparr>"

definition cluster_set ::
    "time \<Rightarrow> string \<Rightarrow> string \<Rightarrow> string \<Rightarrow> msg \<Rightarrow> RemoteClusterStatus \<Rightarrow> RemoteClusterStatus" where
  "cluster_set now condType state reason message status =
     status\<lparr>rst_Conditions := upsert_condition now condType state reason message (rst_Conditions status)\<rparr>"

text \<open>The loop at the start of both methods \<^verbatim>\<open>writeStatus\<close>.\<close>

definition observe :: "int \<Rightarrow> StatusCondition list \<Rightarrow> StatusCondition list" where
  "observe generation = map (\<lambda>c. c\<lparr>sc_ObservedGeneration := generation\<rparr>)"

section \<open>Lemmas\<close>

text \<open>The condition of a type: the first one, which is the only one when the types are distinct.\<close>

definition condition_in :: "StatusCondition list \<Rightarrow> string \<Rightarrow> StatusCondition option" where
  "condition_in cs ty = find (\<lambda>c. sc_Type c = ty) cs"

text \<open>What one update makes of the condition of its type.\<close>

definition set_to :: "time \<Rightarrow> string \<Rightarrow> string \<Rightarrow> string \<Rightarrow> msg \<Rightarrow> StatusCondition option \<Rightarrow> StatusCondition" where
  "set_to now ty state reason message old =
     (case old of
        None \<Rightarrow> \<lparr>sc_Type = ty, sc_Status = state, sc_Reason = reason, sc_Message = message,
                  sc_LastTransitionTime = now, sc_ObservedGeneration = 0\<rparr>
      | Some c \<Rightarrow> c\<lparr>sc_Status := state, sc_Reason := reason, sc_Message := message,
          sc_LastTransitionTime :=
            (if sc_Status c = state \<and> sc_Reason c = reason then sc_LastTransitionTime c else now)\<rparr>)"

lemma set_to_fields [simp]:
  "sc_Status (set_to now ty s r m old) = s" "sc_Reason (set_to now ty s r m old) = r"
  "sc_Message (set_to now ty s r m old) = m"
  by (simp_all add: set_to_def split: option.split)

lemma set_to_again [simp]: "set_to now ty s r m (Some (set_to now' ty s r m' old)) = set_to now' ty s r m old"
  by (simp add: set_to_def split: option.split)

lemma condition_in_upsert:
  "condition_in (upsert_condition now ty s r m cs) ty' =
     (if ty' = ty then Some (set_to now ty s r m (condition_in cs ty)) else condition_in cs ty')"
  by (induction cs) (auto simp: condition_in_def set_to_def)

lemma types_upsert:
  "map sc_Type (upsert_condition now ty s r m cs) =
     map sc_Type cs @ (if ty \<in> set (map sc_Type cs) then [] else [ty])"
  by (induction cs) auto

lemma distinct_upsert: "distinct (map sc_Type cs) \<Longrightarrow> distinct (map sc_Type (upsert_condition now ty s r m cs))"
  by (simp add: types_upsert)

lemma condition_in_observe: "condition_in (observe g cs) ty = map_option (\<lambda>c. c\<lparr>sc_ObservedGeneration := g\<rparr>) (condition_in cs ty)"
  by (induction cs) (auto simp: condition_in_def observe_def)

section \<open>A status with conditions\<close>

locale condition_status =
  fixes conditions :: "'status \<Rightarrow> StatusCondition list"
    and update :: "time \<Rightarrow> string \<Rightarrow> string \<Rightarrow> string \<Rightarrow> msg \<Rightarrow> 'status \<Rightarrow> 'status"
  assumes lookup_update:
      "condition_in (conditions (update now ty s r m st)) ty' =
         (if ty' = ty then Some (set_to now ty s r m (condition_in (conditions st) ty))
          else condition_in (conditions st) ty')"
    and distinct_update:
      "distinct (map sc_Type (conditions st)) \<Longrightarrow> distinct (map sc_Type (conditions (update now ty s r m st)))"
begin

lemma lookup_same: "condition_in (conditions (update now ty s r m st)) ty = Some (set_to now ty s r m (condition_in (conditions st) ty))"
  by (simp add: lookup_update)

lemma lookup_other: "ty' \<noteq> ty \<Longrightarrow> condition_in (conditions (update now ty s r m st)) ty' = condition_in (conditions st) ty'"
  by (simp add: lookup_update)

text \<open>Reporting the same state again keeps the time of the transition.\<close>

lemma lookup_again:
  "condition_in (conditions (update now ty s r m (update now' ty s r m' st))) ty' =
     condition_in (conditions (update now' ty s r m st)) ty'"
  by (simp add: lookup_update)

text \<open>The time of a transition moves exactly when the status or the reason does.\<close>

lemma transition_time:
  assumes "condition_in (conditions st) ty = Some c"
  obtains c' where "condition_in (conditions (update now ty s r m st)) ty = Some c'"
    and "sc_LastTransitionTime c' = (if sc_Status c = s \<and> sc_Reason c = r then sc_LastTransitionTime c else now)"
  using assms by (auto simp: lookup_update set_to_def)

end

interpretation xsvc_conditions: condition_status css_Conditions setCondition
  by unfold_locales (simp_all add: setCondition_def condition_in_upsert distinct_upsert)

interpretation cluster_conditions: condition_status rst_Conditions cluster_set
  by unfold_locales (simp_all add: cluster_set_def condition_in_upsert distinct_upsert)

end
