(* ===== verification/Resolver_Pods.thy ===== *)
theory Resolver_Pods
  imports Resolver_Core
begin

text \<open>
  \<^verbatim>\<open>internal/resolver/pods.go\<close>: Pod addresses, for Pods with no Service in front.
  \<^verbatim>\<open>metav1.LabelSelectorAsSelector\<close> is the parameter \<open>lsas\<close>, the provider of cluster clients
  the parameter \<open>provider\<close>.
\<close>

section \<open>Model\<close>

abbreviation PodSucceeded :: string where "PodSucceeded \<equiv> ''Succeeded''"
abbreviation PodFailed :: string where "PodFailed \<equiv> ''Failed''"
abbreviation ReadyCondition :: string where "ReadyCondition \<equiv> ''Ready''"

type_synonym lsas = "LabelSelector \<Rightarrow> selector result"

text \<open>A lookup in a Go map of strings: the zero value when the key is absent.\<close>

definition map_string :: "(string \<rightharpoonup> string) \<Rightarrow> string \<Rightarrow> string" where
  "map_string m k = (case m k of None \<Rightarrow> [] | Some v \<Rightarrow> v)"

text \<open>The objects of those names for which the read succeeds.\<close>

definition found :: "(string \<Rightarrow> 'a result) \<Rightarrow> string list \<Rightarrow> 'a list" where
  "found get names = foldl (\<lambda>out name. case get name of Inl err \<Rightarrow> out | Inr x \<Rightarrow> out @ [x]) [] names"

definition fetchPods :: "lsas \<Rightarrow> Client \<Rightarrow> PodSource \<Rightarrow> Pod list result" where
  "fetchPods lsas cl cfg =
     (case ps_Selector cfg of
        Some s \<Rightarrow>
          (case lsas s of
             Inl err \<Rightarrow> Inl (Wrapped [Lit ''invalid pod selector: ''] err)
           | Inr sel \<Rightarrow> cl_ListPods cl (ps_Namespace cfg) (Some sel))
      | None \<Rightarrow> Inr (found (cl_GetPod cl (ps_Namespace cfg)) (ps_Names cfg)))"

definition containerPort :: "Pod \<Rightarrow> string \<Rightarrow> int32 option" where
  "containerPort pod name =
     (case find (\<lambda>cp. cp_Name cp = name) (concat (pod_Containers pod)) of
        Some cp \<Rightarrow> Some (cp_ContainerPort cp)
      | None \<Rightarrow>
          (case find (\<lambda>cp. cp_Name cp = name) (concat (pod_InitContainers pod)) of
             Some cp \<Rightarrow> Some (cp_ContainerPort cp)
           | None \<Rightarrow> None))"

fun pod_ports ::
    "(IntOrString \<Rightarrow> int) \<Rightarrow> Pod \<Rightarrow> CrossServicePort list \<Rightarrow> (string \<rightharpoonup> int32) \<Rightarrow> (string \<rightharpoonup> int32) option" where
  "pod_ports intValue pod [] out = Some out"
| "pod_ports intValue pod (p # ps) out =
     (case csp_TargetPort p of
        None \<Rightarrow> pod_ports intValue pod ps (out(csp_Name p \<mapsto> csp_Port p))
      | Some (StrVal name) \<Rightarrow>
          (case containerPort pod name of
             None \<Rightarrow> None
           | Some num \<Rightarrow> pod_ports intValue pod ps (out(csp_Name p \<mapsto> num)))
      | Some t \<Rightarrow> pod_ports intValue pod ps (out(csp_Name p \<mapsto> to_int32 (intValue t))))"

definition podPortMap ::
    "(IntOrString \<Rightarrow> int) \<Rightarrow> Pod \<Rightarrow> CrossServicePort list \<Rightarrow> (string \<rightharpoonup> int32) option" where
  "podPortMap intValue pod ports = pod_ports intValue pod ports Map.empty"

definition condition_true :: "string \<Rightarrow> Condition list \<Rightarrow> bool" where
  "condition_true t cs =
     (case find (\<lambda>c. cond_Type c = t) cs of None \<Rightarrow> False | Some c \<Rightarrow> cond_Status c = ConditionTrue)"

definition podReady :: "Pod \<Rightarrow> bool" where
  "podReady pod = condition_true ReadyCondition (pod_Conditions pod)"

definition zone_step :: "(string \<rightharpoonup> string) \<Rightarrow> Node \<Rightarrow> (string \<rightharpoonup> string)" where
  "zone_step out node =
     (let z = map_string (node_Labels node) ZoneLabel
      in if z \<noteq> [] then out(node_Name node \<mapsto> z) else out)"

definition zoneIndex :: "Client \<Rightarrow> bool \<Rightarrow> (string \<rightharpoonup> string) result" where
  "zoneIndex cl wanted =
     (if \<not> wanted then Inr Map.empty
      else (case cl_ListNodes cl None of
              Inl err \<Rightarrow> Inl err
            | Inr nodes \<Rightarrow> Inr (foldl zone_step Map.empty nodes)))"

definition pod_id :: "Pod \<Rightarrow> string" where
  "pod_id pod = pod_Namespace pod @ ''/'' @ pod_Name pod"

definition pod_step ::
    "(IntOrString \<Rightarrow> int) \<Rightarrow> bool \<Rightarrow> (string \<rightharpoonup> string) \<Rightarrow> bool \<Rightarrow> CrossServicePort list \<Rightarrow>
     Endpoint list \<times> msg list \<Rightarrow> Pod \<Rightarrow> Endpoint list \<times> msg list" where
  "pod_step intValue includeTerminating zones local ports acc pod =
     (case acc of (out, warnings) \<Rightarrow>
        if pod_IP pod = [] \<or> pod_Phase pod = PodSucceeded \<or> pod_Phase pod = PodFailed then acc
        else let terminating = (pod_DeletionTimestamp pod \<noteq> None)
          in if terminating \<and> \<not> includeTerminating then acc
             else (case podPortMap intValue pod ports of
               None \<Rightarrow> (out, warnings @ [[Lit ''pod '', Lit (pod_id pod),
                   Lit '' dropped: a declared targetPort does not resolve to a container port'']])
             | Some portMap \<Rightarrow>
                 (case ParseAddr (pod_IP pod) of
                    None \<Rightarrow> (out, warnings @ [[Lit ''pod '', Lit (pod_id pod), Lit '' has an unparseable IP '',
                               Quoted (pod_IP pod)]])
                  | Some addr \<Rightarrow>
                      let serving = podReady pod;
                          ep = zero_endpoint\<lparr>e_Address := Unmap addr, e_Ready := serving \<and> \<not> terminating,
                            e_Serving := serving, e_Terminating := terminating,
                            e_Zone := map_string zones (pod_NodeName pod), e_PortMap := portMap\<rparr>;
                          ep = (if local
                            then ep\<lparr>e_TargetRef := Some \<lparr>or_Kind = ''Pod'', or_Namespace = pod_Namespace pod,
                                   or_Name = pod_Name pod, or_UID = pod_UID pod\<rparr>\<rparr>
                            else ep)
                      in (out @ [ep], warnings))))"

definition Pods_Resolve ::
    "(IntOrString \<Rightarrow> int) \<Rightarrow> lsas \<Rightarrow> 'st Provider \<Rightarrow> 'st resolver" where
  "Pods_Resolve intValue lsas provider src ports st =
     (case src_Pods src of
        None \<Rightarrow> (Inl (Errorf [Lit ''pods source has no pods config'']), st)
      | Some cfg \<Rightarrow>
          (case pr_Get provider (SourceCluster src) st of
             (Inl err, st) \<Rightarrow> (Inl err, st)
           | (Inr cl, st) \<Rightarrow>
               (case fetchPods lsas cl cfg of
                  Inl err \<Rightarrow> (Inl err, st)
                | Inr pods \<Rightarrow>
                    (case zoneIndex cl (boolOrTrue (ps_PropagateZone cfg)) of
                       Inl err \<Rightarrow> (Inl err, st)
                     | Inr zones \<Rightarrow>
                         (case foldl (pod_step intValue (ps_IncludeTerminating cfg) zones (SourceCluster src = []) ports)
                                 ([], []) pods of
                            (out, warnings) \<Rightarrow>
                              (Inr \<lparr>r_Endpoints = out, r_TTL = 0, r_Warnings = warnings\<rparr>, st))))))"

section \<open>Lemmas\<close>

lemma pod_ports_dom:
  "pod_ports iv pod ports out = Some m \<Longrightarrow> dom m = dom out \<union> csp_Name ` set ports"
proof (induction ports arbitrary: out)
  case (Cons p ps)
  from Cons.prems obtain n where "pod_ports iv pod ps (out(csp_Name p \<mapsto> n)) = Some m"
    by (auto split: option.splits IntOrString.splits)
  then have "dom m = dom (out(csp_Name p \<mapsto> n)) \<union> csp_Name ` set ps" by (rule Cons.IH)
  also have "\<dots> = dom out \<union> csp_Name ` set (p # ps)" by (simp only: dom_fun_upd) simp
  finally show ?case .
qed simp

lemma dom_podPortMap: "podPortMap iv pod ports = Some m \<Longrightarrow> dom m = csp_Name ` set ports"
  using pod_ports_dom by (fastforce simp: podPortMap_def)

text \<open>Each Pod is one of three things, whatever came before it.\<close>

definition pod_counted :: "bool \<Rightarrow> Pod \<Rightarrow> bool" where
  "pod_counted includeTerminating pod \<longleftrightarrow>
     pod_IP pod \<noteq> [] \<and> pod_Phase pod \<notin> {PodSucceeded, PodFailed} \<and>
     (pod_DeletionTimestamp pod \<noteq> None \<longrightarrow> includeTerminating)"

definition pod_reachable :: "(IntOrString \<Rightarrow> int) \<Rightarrow> CrossServicePort list \<Rightarrow> Pod \<Rightarrow> bool" where
  "pod_reachable iv ports pod \<longleftrightarrow> podPortMap iv pod ports \<noteq> None \<and> ParseAddr (pod_IP pod) \<noteq> None"

definition pod_endpoint ::
    "(IntOrString \<Rightarrow> int) \<Rightarrow> (string \<rightharpoonup> string) \<Rightarrow> bool \<Rightarrow> CrossServicePort list \<Rightarrow> Pod \<Rightarrow> Endpoint" where
  "pod_endpoint iv zones local ports pod =
     \<lparr>e_Address = Unmap (the (ParseAddr (pod_IP pod))),
      e_Ready = podReady pod \<and> pod_DeletionTimestamp pod = None, e_Serving = podReady pod,
      e_Terminating = (pod_DeletionTimestamp pod \<noteq> None), e_Zone = map_string zones (pod_NodeName pod),
      e_Hostname = [],
      e_TargetRef = (if local then Some \<lparr>or_Kind = ''Pod'', or_Namespace = pod_Namespace pod,
        or_Name = pod_Name pod, or_UID = pod_UID pod\<rparr> else None),
      e_PortMap = the (podPortMap iv pod ports)\<rparr>"

lemma pod_step_out:
  "fst (pod_step iv inc zones local ports acc pod) = fst acc @
     (if pod_counted inc pod \<and> pod_reachable iv ports pod then [pod_endpoint iv zones local ports pod] else [])"
  unfolding pod_step_def pod_counted_def pod_reachable_def pod_endpoint_def zero_endpoint_def Let_def
  by (cases acc, cases "podPortMap iv pod ports"; cases "ParseAddr (pod_IP pod)") auto

lemma pod_step_warnings:
  "length (snd (pod_step iv inc zones local ports acc pod)) = length (snd acc) +
     (if pod_counted inc pod \<and> \<not> pod_reachable iv ports pod then 1 else 0)"
  unfolding pod_step_def pod_counted_def pod_reachable_def Let_def
  by (cases acc, cases "podPortMap iv pod ports"; cases "ParseAddr (pod_IP pod)") auto

lemma pod_fold_out:
  "fst (foldl (pod_step iv inc zones local ports) acc pods) = fst acc @
     map (pod_endpoint iv zones local ports) (filter (\<lambda>p. pod_counted inc p \<and> pod_reachable iv ports p) pods)"
  by (induction pods arbitrary: acc) (auto simp: pod_step_out)

lemma pod_fold_warnings:
  "length (snd (foldl (pod_step iv inc zones local ports) acc pods)) = length (snd acc) +
     length (filter (\<lambda>p. pod_counted inc p \<and> \<not> pod_reachable iv ports p) pods)"
  by (induction pods arbitrary: acc) (auto simp: pod_step_warnings)

lemma Pods_Resolve_Inr:
  assumes "Pods_Resolve iv lsas provider src ports st = (Inr r, st')"
  obtains cfg cl pods zones where "src_Pods src = Some cfg"
    and "pr_Get provider (SourceCluster src) st = (Inr cl, st')"
    and "fetchPods lsas cl cfg = Inr pods" and "zoneIndex cl (boolOrTrue (ps_PropagateZone cfg)) = Inr zones"
    and "r = (let acc = foldl (pod_step iv (ps_IncludeTerminating cfg) zones (SourceCluster src = []) ports) ([], []) pods
              in \<lparr>r_Endpoints = fst acc, r_TTL = 0, r_Warnings = snd acc\<rparr>)"
  using assms by (auto simp: Pods_Resolve_def split: option.splits prod.splits sum.splits)

lemma pod_endpoint_ok:
  assumes "pod_reachable iv ports pod"
  shows "endpoint_ok src ports (pod_endpoint iv zones (SourceCluster src = []) ports pod)"
proof -
  obtain m where "podPortMap iv pod ports = Some m" using assms by (auto simp: pod_reachable_def)
  then show ?thesis unfolding endpoint_ok_def pod_endpoint_def by (simp add: dom_podPortMap)
qed

interpretation pods: resolver_contract "Pods_Resolve intValue lsas provider" for intValue lsas provider
proof unfold_locales
  fix src ports st r st' e
  assume "Pods_Resolve intValue lsas provider src ports st = (Inr r, st')" and "e \<in> set (r_Endpoints r)"
  then show "endpoint_ok src ports e"
    by (elim Pods_Resolve_Inr) (auto simp: Let_def pod_fold_out intro: pod_endpoint_ok)
qed

section \<open>Properties\<close>

text \<open>
  C28: a Pods source that resolves accounts for every Pod it read: those with an address that are neither
  finished nor (unless asked for) terminating give one endpoint each, in order, ready exactly when
  the Pod's Ready condition is true and it is not terminating, or else one warning; no other Pod gives
  either.
\<close>

theorem Pods_Resolve_accounts:
  assumes "Pods_Resolve iv lsas provider src ports st = (Inr r, st')"
  shows "\<exists>cfg cl pods zones. src_Pods src = Some cfg \<and> fetchPods lsas cl cfg = Inr pods \<and>
     pr_Get provider (SourceCluster src) st = (Inr cl, st') \<and>
     r_Endpoints r = map (pod_endpoint iv zones (SourceCluster src = []) ports)
       (filter (\<lambda>p. pod_counted (ps_IncludeTerminating cfg) p \<and> pod_reachable iv ports p) pods) \<and>
     length (r_Endpoints r) + length (r_Warnings r) =
       length (filter (pod_counted (ps_IncludeTerminating cfg)) pods)"
  using assms
proof (cases rule: Pods_Resolve_Inr)
  case (1 cfg cl pods zones)
  then show ?thesis by (fastforce simp: Let_def pod_fold_out pod_fold_warnings length_filter_split)
qed

text \<open>
  A Pods source that lists Pods by name and wants no zones cannot fail once its cluster client is at
  hand, whatever the reads of the Pods return: when every one of them fails (an outage, a denied
  permission), it succeeds with no endpoint and no warning.
\<close>

theorem Pods_names_outage:
  assumes "src_Pods src = Some cfg" and "ps_Selector cfg = None" and "ps_PropagateZone cfg = Some False"
    and "pr_Get provider (SourceCluster src) st = (Inr cl, st')"
    and "list_all (\<lambda>name. isl (cl_GetPod cl (ps_Namespace cfg) name)) (ps_Names cfg)"
  shows "Pods_Resolve iv lsas provider src ports st = (Inr \<lparr>r_Endpoints = [], r_TTL = 0, r_Warnings = []\<rparr>, st')"
proof -
  have "list_all (\<lambda>name. isl (get name)) names \<Longrightarrow> found get names = []" for get :: "string \<Rightarrow> Pod result" and names
    by (induction names) (auto simp: found_def split: sum.splits)
  then show ?thesis using assms by (simp add: Pods_Resolve_def fetchPods_def zoneIndex_def boolOrTrue_def)
qed

text \<open>A cluster of two Pods on one node, and one that answers nothing.\<close>

definition demo_pod :: "string \<Rightarrow> string \<Rightarrow> Pod" where
  "demo_pod name ip = \<lparr>pod_Name = name, pod_Namespace = ''db'', pod_UID = name, pod_DeletionTimestamp = None,
     pod_NodeName = ''n1'', pod_Containers = [[\<lparr>cp_Name = ''pg'', cp_ContainerPort = 5432\<rparr>]], pod_InitContainers = [],
     pod_IP = ip, pod_Phase = ''Running'', pod_Conditions = [\<lparr>cond_Type = ''Ready'', cond_Status = ''True''\<rparr>]\<rparr>"

definition demo_reader :: KubeReader where
  "demo_reader = \<lparr>kr_ListPods = (\<lambda>_ _. Inr [demo_pod ''a'' ''10.0.0.1'', demo_pod ''b'' ''10.0.0.300'']),
     kr_GetPod = (\<lambda>_. Inl (Errorf [Lit ''connection refused''])),
     kr_ListNodes = (\<lambda>_. Inl (Errorf [Lit ''connection refused''])),
     kr_GetNode = (\<lambda>_. Inl (Errorf [Lit ''connection refused''])),
     kr_GetService = (\<lambda>_. Inl (Errorf [Lit ''connection refused''])),
     kr_ListSlices = (\<lambda>_ _. Inl (Errorf [Lit ''connection refused'']))\<rparr>"

definition demo_pod_source :: "LabelSelector option \<Rightarrow> Source" where
  "demo_pod_source sel = zero_source\<lparr>src_Type := SourceTypePods,
     src_Pods := Some \<lparr>ps_Namespace = ''db'', ps_Selector = sel, ps_Names = [''a'', ''b''],
       ps_IncludeTerminating = False, ps_PropagateZone = Some False\<rparr>\<rparr>"

definition demo_lsas :: lsas where
  "demo_lsas s = Inr (\<lambda>_. True)"

lemma Pods_Resolve_accounts_witness:
  "\<exists>r. Pods_Resolve (\<lambda>_. 0) demo_lsas (LocalProvider demo_reader)
       (demo_pod_source (Some \<lparr>ls_MatchLabels = Map.empty, ls_MatchExpressions = []\<rparr>)) [zero_port] () = (Inr r, ()) \<and>
     length (r_Endpoints r) = 1 \<and> length (r_Warnings r) = 1"
proof -
  let ?src = "demo_pod_source (Some \<lparr>ls_MatchLabels = Map.empty, ls_MatchExpressions = []\<rparr>)"
  have parse: "ParseAddr ''10.0.0.1'' \<noteq> None" "ParseAddr ''10.0.0.300'' = None" by code_simp+
  obtain r where run: "Pods_Resolve (\<lambda>_. 0) demo_lsas (LocalProvider demo_reader) ?src [zero_port] () = (Inr r, ())"
    by (simp add: Pods_Resolve_def demo_pod_source_def zero_source_def SourceCluster_def LocalProvider_def localClient_def
        fetchPods_def demo_lsas_def demo_reader_def wrap_err_def zoneIndex_def boolOrTrue_def case_prod_beta)
  from Pods_Resolve_accounts [OF run] show ?thesis
    using run parse
    by (auto simp: demo_pod_source_def zero_source_def SourceCluster_def LocalProvider_def localClient_def fetchPods_def
        demo_lsas_def demo_reader_def wrap_err_def pod_counted_def pod_reachable_def demo_pod_def podPortMap_def zero_port_def)
qed

lemma Pods_names_outage_witness:
  "Pods_Resolve (\<lambda>_. 0) demo_lsas (LocalProvider demo_reader) (demo_pod_source None) [zero_port] () =
     (Inr \<lparr>r_Endpoints = [], r_TTL = 0, r_Warnings = []\<rparr>, ())"
  by (rule Pods_names_outage [where cl = "localClient demo_reader" and cfg = "the (src_Pods (demo_pod_source None))"])
     (simp_all add: demo_pod_source_def zero_source_def SourceCluster_def LocalProvider_def localClient_def
        demo_reader_def wrap_err_def)

end
