(* ===== verification/Access.thy ===== *)
theory Access
  imports Remote_Types Resolver_Pods
begin

text \<open>
  \<^verbatim>\<open>internal/controller/access.go\<close>: who may use a RemoteCluster, and the condition reason that an
  error about a cluster is reported under.

  Reads of the API are parameters: \<open>getNamespace\<close> returns the labels of a Namespace, \<open>getCluster\<close> a
  RemoteCluster.
\<close>

section \<open>Model\<close>

definition checkNamespaceAllowed ::
    "lsas \<Rightarrow> (string \<Rightarrow> labels result) \<Rightarrow> RemoteCluster \<Rightarrow> string \<Rightarrow> go_error option" where
  "checkNamespaceAllowed lsas getNamespace rc namespace =
     (let denied = Some (AccessDeniedError (rc_Name rc) namespace)
      in case rcs_AllowedNamespaces (rc_Spec rc) of
           None \<Rightarrow> denied
         | Some allowed \<Rightarrow>
             if nss_MatchNames allowed = [] \<and> nss_Selector allowed = None then denied
             else if namespace \<in> set (nss_MatchNames allowed) then None
             else (case nss_Selector allowed of
                     None \<Rightarrow> denied
                   | Some s \<Rightarrow>
                       (case lsas s of
                          Inl err \<Rightarrow> Some (Wrapped [Lit ''invalid allowedNamespaces selector on RemoteCluster '',
                                             Lit (rc_Name rc), Lit '': ''] err)
                        | Inr sel \<Rightarrow>
                            (case getNamespace namespace of
                               Inl err \<Rightarrow> Some (Wrapped [Lit ''reading namespace '', Lit namespace, Lit '': ''] err)
                             | Inr ls \<Rightarrow> if sel ls then None else denied))))"

definition resolveCluster ::
    "lsas \<Rightarrow> (string \<Rightarrow> labels result) \<Rightarrow> (string \<Rightarrow> RemoteCluster result) \<Rightarrow> CrossService \<Rightarrow> RemoteCluster option result" where
  "resolveCluster lsas getNamespace getCluster xsvc =
     (case src_ClusterRef (spec_Source (xs_Spec xsvc)) of
        None \<Rightarrow> Inr None
      | Some ref \<Rightarrow>
          (case getCluster (cr_Name ref) of
             Inl err \<Rightarrow> if IsNotFound err then Inl (ClusterNotFoundError (cr_Name ref)) else Inl err
           | Inr rc \<Rightarrow>
               (case checkNamespaceAllowed lsas getNamespace rc (xs_Namespace xsvc) of
                  Some err \<Rightarrow> Inl err
                | None \<Rightarrow> Inr (Some rc))))"

text \<open>\<^verbatim>\<open>errors.As\<close>: the error or one that it wraps has the type.\<close>

fun errors_As :: "(go_error \<Rightarrow> bool) \<Rightarrow> go_error \<Rightarrow> bool" where
  "errors_As has_type (Wrapped m e) \<longleftrightarrow> has_type (Wrapped m e) \<or> errors_As has_type e"
| "errors_As has_type e \<longleftrightarrow> has_type e"

definition accessDeniedError :: "go_error \<Rightarrow> bool" where
  "accessDeniedError e = (case e of AccessDeniedError c n \<Rightarrow> True | _ \<Rightarrow> False)"

definition clusterNotFoundError :: "go_error \<Rightarrow> bool" where
  "clusterNotFoundError e = (case e of ClusterNotFoundError n \<Rightarrow> True | _ \<Rightarrow> False)"

definition is_not_implemented :: "go_error \<Rightarrow> bool" where
  "is_not_implemented e = (case e of ErrAccessTypeNotImplemented t \<Rightarrow> True | _ \<Rightarrow> False)"

definition is_not_permitted :: "go_error \<Rightarrow> bool" where
  "is_not_permitted e = (case e of ErrNotPermitted m \<Rightarrow> True | _ \<Rightarrow> False)"

definition reasonForClusterError :: "go_error \<Rightarrow> string" where
  "reasonForClusterError err =
     (if errors_As accessDeniedError err then ReasonClusterAccessDenied
      else if errors_As clusterNotFoundError err then ReasonClusterNotFound
      else if errors_As is_not_implemented err then ReasonAccessTypeNotImplemented
      else if errors_As is_not_permitted err then ReasonInvalidSpec
      else ReasonAuthenticationFailed)"

section \<open>Lemmas\<close>

text \<open>The grant, as its documentation puts it: named, or matched by the selector.\<close>

definition granted :: "lsas \<Rightarrow> (string \<Rightarrow> labels result) \<Rightarrow> RemoteCluster \<Rightarrow> string \<Rightarrow> bool" where
  "granted lsas getNamespace rc namespace \<longleftrightarrow>
     (\<exists>allowed. rcs_AllowedNamespaces (rc_Spec rc) = Some allowed \<and>
        (namespace \<in> set (nss_MatchNames allowed) \<or>
         (\<exists>s sel ls. nss_Selector allowed = Some s \<and> lsas s = Inr sel \<and> getNamespace namespace = Inr ls \<and> sel ls)))"

lemma checkNamespaceAllowed_None: "checkNamespaceAllowed lsas gn rc ns = None \<longleftrightarrow> granted lsas gn rc ns"
  unfolding checkNamespaceAllowed_def granted_def Let_def
  by (auto split: option.split sum.split if_splits)

lemma resolveCluster_Some:
  "resolveCluster lsas gn gc xsvc = Inr (Some rc) \<longleftrightarrow>
     (\<exists>ref. src_ClusterRef (spec_Source (xs_Spec xsvc)) = Some ref \<and> gc (cr_Name ref) = Inr rc \<and>
        granted lsas gn rc (xs_Namespace xsvc))"
  by (auto simp: resolveCluster_def checkNamespaceAllowed_None [symmetric] split: option.splits sum.splits if_splits)

lemma resolveCluster_None:
  "resolveCluster lsas gn gc xsvc = Inr None \<longleftrightarrow> src_ClusterRef (spec_Source (xs_Spec xsvc)) = None"
  by (auto simp: resolveCluster_def split: option.splits sum.splits if_splits)

section \<open>Properties\<close>

text \<open>
  C12: the grant fails closed.  A CrossService gets a RemoteCluster exactly when it names one that exists and
  whose \<^verbatim>\<open>allowedNamespaces\<close> lists its namespace or selects it by the labels that could be read;
  a selector that does not compile, a namespace that cannot be read, an empty or absent
  \<^verbatim>\<open>allowedNamespaces\<close> all refuse.
\<close>

theorem resolveCluster_fails_closed:
  "resolveCluster lsas getNamespace getCluster xsvc = Inr (Some rc) \<longleftrightarrow>
     (\<exists>ref allowed. src_ClusterRef (spec_Source (xs_Spec xsvc)) = Some ref \<and> getCluster (cr_Name ref) = Inr rc \<and>
        rcs_AllowedNamespaces (rc_Spec rc) = Some allowed \<and>
        (xs_Namespace xsvc \<in> set (nss_MatchNames allowed) \<or>
         (\<exists>s sel ls. nss_Selector allowed = Some s \<and> lsas s = Inr sel \<and>
            getNamespace (xs_Namespace xsvc) = Inr ls \<and> sel ls)))"
  by (auto simp: resolveCluster_Some granted_def)

text \<open>
  A refusal is reported as one exactly when the grant was read and does not cover the namespace; a
  selector or a namespace that cannot be read is reported as \<^verbatim>\<open>AuthenticationFailed\<close> unless the
  error it wraps says otherwise.
\<close>

theorem checkNamespaceAllowed_reason:
  assumes "checkNamespaceAllowed lsas getNamespace rc ns = Some err"
    and "\<And>s e. lsas s = Inl e \<Longrightarrow> reasonForClusterError e = ReasonAuthenticationFailed"
    and "\<And>n e. getNamespace n = Inl e \<Longrightarrow> reasonForClusterError e = ReasonAuthenticationFailed"
  shows "reasonForClusterError err =
     (case Option.bind (rcs_AllowedNamespaces (rc_Spec rc)) nss_Selector of
        None \<Rightarrow> ReasonClusterAccessDenied
      | Some s \<Rightarrow> if lsas s \<in> range Inr \<and> getNamespace ns \<in> range Inr then ReasonClusterAccessDenied
                  else ReasonAuthenticationFailed)"
proof -
  have denied: "reasonForClusterError (AccessDeniedError c n) = ReasonClusterAccessDenied" for c n
    by (simp add: reasonForClusterError_def accessDeniedError_def)
  have wrapped: "reasonForClusterError (Wrapped m e) = reasonForClusterError e" for m e
    by (simp add: reasonForClusterError_def accessDeniedError_def clusterNotFoundError_def is_not_implemented_def
        is_not_permitted_def)
  show ?thesis
    using assms unfolding checkNamespaceAllowed_def Let_def
    by (auto simp: denied wrapped split: option.splits sum.splits if_splits)
qed

definition demo_allowed :: NamespaceSelector where
  "demo_allowed = \<lparr>nss_MatchNames = [''team-a''], nss_Selector = Some \<lparr>ls_MatchLabels = [''x'' \<mapsto> ''y''], ls_MatchExpressions = []\<rparr>\<rparr>"

definition demo_granting :: RemoteCluster where
  "demo_granting = cluster_with ''east'' zero_access
     \<lparr>rc_Spec := rc_Spec (cluster_with ''east'' zero_access)\<lparr>rcs_AllowedNamespaces := Some demo_allowed\<rparr>\<rparr>"

lemma checkNamespaceAllowed_reason_witness:
  "reasonForClusterError (the (checkNamespaceAllowed (\<lambda>s. Inr (\<lambda>ls. ls ''x'' = Some ''y'')) (\<lambda>n. Inl (Errorf []))
       demo_granting ''team-b'')) = ReasonAuthenticationFailed"
proof -
  have "checkNamespaceAllowed (\<lambda>s. Inr (\<lambda>ls. ls ''x'' = Some ''y'')) (\<lambda>n. Inl (Errorf [])) demo_granting ''team-b'' =
      Some (the (checkNamespaceAllowed (\<lambda>s. Inr (\<lambda>ls. ls ''x'' = Some ''y'')) (\<lambda>n. Inl (Errorf [])) demo_granting ''team-b''))"
    by (simp add: checkNamespaceAllowed_def demo_allowed_def demo_granting_def)
  from checkNamespaceAllowed_reason [OF this] show ?thesis
    by (simp add: demo_allowed_def demo_granting_def reasonForClusterError_def accessDeniedError_def clusterNotFoundError_def
        is_not_implemented_def is_not_permitted_def image_iff)
qed

end
