(* ===== verification/CrossService_Controller.thy ===== *)
theory CrossService_Controller
  imports Failure Policy Slice_Writer Service_Reconcile Resolver_DNS
    Cluster_Cache Validation Conditions Access
begin

text \<open>
  \<^verbatim>\<open>internal/controller/crossservice_controller.go\<close>: one reconciliation of a CrossService, which
  composes the other components: validate, check the grant, resolve, filter, apply the failure policy, write the
  Service and the slices, report.

  The state of the world is what the calls act on: the API server behind the client (of type \<open>'st\<close>,
  a parameter), the cache of remote connections, and the events that were recorded.  The record
  \<open>CrossServiceReconciler\<close> holds the fields of the Go struct, with the embedded client as its calls; the
  library functions are in \<open>ControllerLib\<close>.  The clock (\<^verbatim>\<open>r.now()\<close>) has one value during a
  reconciliation.
\<close>

section \<open>The reconciler\<close>

record 'st CrossServiceReconciler =
  csr_Get :: "NamespacedName \<Rightarrow> 'st \<Rightarrow> CrossService result"
  csr_GetCluster :: "string \<Rightarrow> 'st \<Rightarrow> RemoteCluster result"
  csr_GetNamespace :: "string \<Rightarrow> 'st \<Rightarrow> labels result"
  csr_Services :: "'st ServiceClient"
  csr_Slices :: "'st SliceClient"
  csr_UpdateStatus :: "CrossService \<Rightarrow> 'st \<Rightarrow> go_error option \<times> 'st"
  csr_ServiceOwner :: "CrossService \<Rightarrow> Service \<Rightarrow> Service result"
  csr_SliceOwner :: "CrossService \<Rightarrow> EndpointSlice \<Rightarrow> EndpointSlice result"
  csr_Recorder :: bool
  csr_Resolver :: "CacheState resolver"
  csr_DefaultAddressPolicy :: "AddressPolicy option"
  csr_MaxEndpointsPerSlice :: int
  csr_Clusters :: bool
  csr_Now :: time

record ControllerLib =
  lib_lsas :: lsas
  lib_intValue :: "IntOrString \<Rightarrow> int"
  lib_serviceEqual :: ServiceEqual
  lib_sliceEqual :: DeepEqual
  lib_statusEqual :: "CrossServiceStatus \<Rightarrow> CrossServiceStatus \<Rightarrow> bool"

record 'st World =
  wd_api :: 'st
  wd_cache :: CacheState
  wd_events :: "(string \<times> msg) list"

text \<open>\<^verbatim>\<open>ctrl.Result\<close> (its \<^verbatim>\<open>RequeueAfter\<close>, zero for none) and the error.\<close>

type_synonym 'st reconciled = "(duration \<times> go_error option) \<times> 'st World"

fun IsConflict :: "go_error \<Rightarrow> bool" where
  "IsConflict (ConflictError m) = True"
| "IsConflict (Wrapped m e) = IsConflict e"
| "IsConflict e = False"

section \<open>Addresses\<close>

definition filterAddresses ::
    "AddressPolicy option \<Rightarrow> RemoteCluster option \<Rightarrow> Endpoint list \<Rightarrow> (Endpoint list \<times> Rejection list) result" where
  "filterAddresses defaultAddressPolicy rc es =
     (case (case rc of
              None \<Rightarrow> Inr (es, [])
            | Some c \<Rightarrow>
                (case rcs_AddressPolicy (rc_Spec c) of
                   None \<Rightarrow> Inr (es, [])
                 | Some ap \<Rightarrow>
                     (case NewPolicy (Some ap) of
                        Inl err \<Rightarrow> Inl (Wrapped [Lit ''compiling address policy for cluster '', Lit (rc_Name c), Lit '': ''] err)
                      | Inr clusterPolicy \<Rightarrow> Inr (Filter clusterPolicy es)))) of
        Inl err \<Rightarrow> Inl err
      | Inr (es, rejected) \<Rightarrow>
          (case NewPolicy defaultAddressPolicy of
             Inl err \<Rightarrow> Inl (Wrapped [Lit ''compiling default address policy: ''] err)
           | Inr defaultPolicy \<Rightarrow>
               (case Filter defaultPolicy es of (kept, dropped) \<Rightarrow> Inr (kept, rejected @ dropped))))"

section \<open>When to run again\<close>

definition defaultRemoteResync :: duration where
  "defaultRemoteResync = 10 * Minute"

definition remoteResyncFloor :: "RemoteCluster option \<Rightarrow> duration" where
  "remoteResyncFloor rc =
     (case rc of
        None \<Rightarrow> 0
      | Some c \<Rightarrow> (case ca_ResyncPeriod (rcs_Access (rc_Spec c)) of Some p \<Rightarrow> p | None \<Rightarrow> defaultRemoteResync))"

definition requeueAfter :: "Source \<Rightarrow> RemoteCluster option \<Rightarrow> duration \<Rightarrow> duration" where
  "requeueAfter src rc ttl =
     (let out = (case (src_Type src = SourceTypeDNS, src_DNS src) of
                   (True, Some dns) \<Rightarrow> RequeueAfter dns ttl
                 | _ \<Rightarrow> ttl);
          floor = remoteResyncFloor rc
      in if 0 < floor \<and> (out = 0 \<or> floor < out) then floor else out)"

section \<open>The status\<close>

definition reasonFor :: "Source \<Rightarrow> string" where
  "reasonFor src = (if src_Type src = SourceTypeDNS then ReasonDNSResolutionFailed else ReasonPartialFailure)"

definition source_status ::
    "time \<Rightarrow> SourceStatus option \<Rightarrow> Source \<Rightarrow> FailureState \<Rightarrow> Endpoint list \<Rightarrow> go_error option \<Rightarrow> SourceStatus" where
  "source_status now prev src state fresh resolveErr =
     (let ss = zero_source_status\<lparr>sst_Type := src_Type src,
            sst_ClusterRef := (case src_ClusterRef src of None \<Rightarrow> [] | Some r \<Rightarrow> cr_Name r),
            sst_Via := (case src_Service src of None \<Rightarrow> [] | Some s \<Rightarrow> svs_Via s),
            sst_RemoteService := (case src_Service src of None \<Rightarrow> [] | Some s \<Rightarrow> svs_Namespace s @ ''/'' @ svs_Name s),
            sst_LastSuccessTime := (case prev of None \<Rightarrow> None | Some p \<Rightarrow> sst_LastSuccessTime p),
            sst_LastKnownGood := (case prev of None \<Rightarrow> [] | Some p \<Rightarrow> sst_LastKnownGood p)\<rparr>
      in case resolveErr of
           None \<Rightarrow> ss\<lparr>sst_LastSuccessTime := Some now, sst_ConsecutiveErrors := 0,
                     sst_Endpoints := to_int32 (int (length fresh)), sst_LastKnownGood := ToPersisted fresh,
                     sst_Stale := False\<rparr>
         | Some err \<Rightarrow> ss\<lparr>sst_LastError := Error err, sst_ConsecutiveErrors := fs_ConsecutiveErrors state,
                         sst_Stale := fs_Stale state\<rparr>)"

definition applyStatus ::
    "time \<Rightarrow> CrossServiceStatus \<Rightarrow> CrossService \<Rightarrow> Source \<Rightarrow> FailureState \<Rightarrow> Endpoint list \<Rightarrow> go_error option \<Rightarrow> Outcome
     \<Rightarrow> nat \<Rightarrow> CrossServiceStatus" where
  "applyStatus now status xsvc src state fresh resolveErr outcome rejectedCount =
     (let ready = to_int32 (int (length (filter e_Ready (fs_Endpoints state))));
          total = to_int32 (int (length (fs_Endpoints state)));
          status = status\<lparr>css_ReadyEndpoints := ready, css_TotalEndpoints := total,
            css_DroppedAddresses := to_int32 (int rejectedCount), css_EndpointSlices := SliceNames outcome,
            css_Source := Some (source_status now (css_Source (xs_Status xsvc)) src state fresh resolveErr)\<rparr>
      in case resolveErr of
           Some err \<Rightarrow>
             if fs_Degraded state then
               setCondition now ConditionReady ConditionFalse (fs_Reason state) [Lit ''serving stale endpoints'']
                 (setCondition now ConditionDegraded ConditionTrue (fs_Reason state) (Error err)
                   (setCondition now ConditionSourcesResolved ConditionFalse (reasonFor src) (Error err) status))
             else
               setCondition now ConditionReady ConditionTrue ''Ready'' [Lit ''serving last known good endpoints'']
                 (setCondition now ConditionDegraded ConditionFalse ReasonPartialFailure [Lit ''within failure threshold'']
                   (setCondition now ConditionSourcesResolved ConditionFalse (reasonFor src) (Error err) status))
         | None \<Rightarrow>
             let status = setCondition now ConditionDegraded ConditionFalse ''NotDegraded'' []
                   (setCondition now ConditionSourcesResolved ConditionTrue ''Resolved'' [Lit ''source resolved''] status)
             in if total = 0 then
                  setCondition now ConditionReady ConditionFalse ReasonNoEndpointsFound
                    [Lit ''source resolved to no endpoints''] status
                else
                  setCondition now ConditionReady ConditionTrue ''Ready''
                    [Lit (string_of_int (sint ready)), Lit ''/'', Lit (string_of_int (sint total)), Lit '' endpoints ready''] status)"

definition writeStatus ::
    "ControllerLib \<Rightarrow> 'st CrossServiceReconciler \<Rightarrow> CrossService \<Rightarrow> CrossServiceStatus \<Rightarrow> 'st World \<Rightarrow> go_error option \<times> 'st World" where
  "writeStatus lib r xsvc status w =
     (let status = status\<lparr>css_Conditions := observe (xs_Generation xsvc) (css_Conditions status)\<rparr>
      in if lib_statusEqual lib (xs_Status xsvc) status then (None, w)
         else (case csr_UpdateStatus r (xsvc\<lparr>xs_Status := status\<rparr>) (wd_api w) of
                 (None, api) \<Rightarrow> (None, w\<lparr>wd_api := api\<rparr>)
               | (Some err, api) \<Rightarrow>
                   (if IsConflict err then None else Some (Wrapped [Lit ''updating status: ''] err), w\<lparr>wd_api := api\<rparr>)))"

definition warning :: "'st CrossServiceReconciler \<Rightarrow> string \<Rightarrow> msg \<Rightarrow> 'st World \<Rightarrow> 'st World" where
  "warning r reason message w =
     (if csr_Recorder r then w\<lparr>wd_events := wd_events w @ [(reason, message)]\<rparr> else w)"

section \<open>Reconcile\<close>

text \<open>Early return with a condition: \<^verbatim>\<open>return ctrl.Result{}, r.writeStatus(...)\<close>.\<close>

definition finish_with ::
    "ControllerLib \<Rightarrow> 'st CrossServiceReconciler \<Rightarrow> CrossService \<Rightarrow> CrossServiceStatus \<Rightarrow> 'st World \<Rightarrow> 'st reconciled" where
  "finish_with lib r xsvc status w = (case writeStatus lib r xsvc status w of (err, w) \<Rightarrow> ((0, err), w))"

definition reject_text :: "RejectReason \<Rightarrow> string" where
  "reject_text reason =
     (case reason of RejectSpecialPurpose \<Rightarrow> ''SpecialPurpose'' | RejectNotAllowed \<Rightarrow> ''NotInAllowedCIDRs''
      | RejectDenied \<Rightarrow> ''InDeniedCIDRs'')"

definition report_rejected :: "'st CrossServiceReconciler \<Rightarrow> Rejection list \<Rightarrow> 'st World \<Rightarrow> 'st World" where
  "report_rejected r rejected w =
     (case rejected of
        [] \<Rightarrow> w
      | first # _ \<Rightarrow>
          warning r ReasonAddressPolicyRejected
            [Lit (string_of_int (int (length rejected))), Lit '' address(es) rejected by address policy, first: '',
             Lit (String (rej_Address first)), Lit '' ('', Lit (reject_text (rej_Reason first)), Lit '')''] w)"

text \<open>From the call of the resolver to the reported warnings: the endpoints, the time to live, the error.\<close>

definition resolve_source ::
    "'st CrossServiceReconciler \<Rightarrow> NamespacedName \<Rightarrow> CrossService \<Rightarrow> 'st World
     \<Rightarrow> (Endpoint list \<times> duration \<times> go_error option) \<times> 'st World" where
  "resolve_source r req xsvc w =
     (let src = spec_Source (xs_Spec xsvc)
      in case csr_Resolver r src (spec_Ports (xs_Spec xsvc)) (wd_cache w) of (result, cache) \<Rightarrow>
           let cache = (case src_ClusterRef src of
                          Some ref \<Rightarrow> if csr_Clusters r then Acquire (cr_Name ref) req cache else cache
                        | None \<Rightarrow> cache);
               w = w\<lparr>wd_cache := cache\<rparr>
           in case result of
                Inl err \<Rightarrow> (([], 0, Some err), w)
              | Inr res \<Rightarrow>
                  ((Dedupe (r_Endpoints res), r_TTL res, None),
                   foldl (\<lambda>w m. warning r ReasonNoEndpointsFound m w) w (r_Warnings res)))"

text \<open>
  From the Service on.  A failure to write the Service or a slice sets a condition on the copy of the status
  and returns the error: the copy is dropped.
\<close>

definition write_endpoints ::
    "ControllerLib \<Rightarrow> 'st CrossServiceReconciler \<Rightarrow> CrossService \<Rightarrow> CrossServiceStatus \<Rightarrow> RemoteCluster option
     \<Rightarrow> Endpoint list \<Rightarrow> nat \<Rightarrow> duration \<Rightarrow> go_error option \<Rightarrow> 'st World \<Rightarrow> 'st reconciled" where
  "write_endpoints lib r xsvc status rc kept rejectedCount ttl resolveErr w =
     (let src = spec_Source (xs_Spec xsvc); now = csr_Now r;
          state = ApplyFailurePolicy (spec_FailurePolicy (xs_Spec xsvc)) (css_Source (xs_Status xsvc)) kept resolveErr now
      in case Service_Reconcile (lib_intValue lib) (lib_serviceEqual lib) (csr_Services r) xsvc (csr_ServiceOwner r xsvc) (wd_api w) of
           (Inl err, api) \<Rightarrow> ((0, Some err), w\<lparr>wd_api := api\<rparr>)
         | (Inr (svc, written), api) \<Rightarrow>
             let status = (setCondition now ConditionServiceReady ConditionTrue ''ServiceReady'' [Lit ''Service reconciled''] status)
                   \<lparr>css_ServiceName := svc_Name svc, css_ClusterIP := ss_ClusterIP (svc_Spec svc)\<rparr>;
                 groups = GroupEndpoints (fs_Endpoints state) (spec_Ports (xs_Spec xsvc)) (spec_IPFamilyPolicy (xs_Spec xsvc));
                 writer = \<lparr>w_Client = csr_Slices r, w_MaxEndpointsPerSlice = csr_MaxEndpointsPerSlice r\<rparr>
             in case Writer_Reconcile writer (lib_sliceEqual lib) (csr_SliceOwner r xsvc) xsvc (svc_Name svc) groups api of
                  ((outcome, Some err), api) \<Rightarrow> ((0, Some err), w\<lparr>wd_api := api\<rparr>)
                | ((outcome, None), api) \<Rightarrow>
                    let status = setCondition now ConditionEndpointsWritten ConditionTrue ''EndpointsWritten''
                          [Lit (string_of_int (int (length (SliceNames outcome)))), Lit '' slice(s)''] status;
                        status = applyStatus now status xsvc src state kept resolveErr outcome rejectedCount
                    in case writeStatus lib r xsvc status (w\<lparr>wd_api := api\<rparr>) of
                         (Some err, w) \<Rightarrow> ((0, Some err), w)
                       | (None, w) \<Rightarrow> ((requeueAfter src rc ttl, None), w))"

definition Reconcile :: "ControllerLib \<Rightarrow> 'st CrossServiceReconciler \<Rightarrow> NamespacedName \<Rightarrow> 'st World \<Rightarrow> 'st reconciled" where
  "Reconcile lib r req w =
     (case csr_Get r req (wd_api w) of
        Inl err \<Rightarrow>
          ((0, if IsNotFound err then None else Some err),
           if IsNotFound err \<and> csr_Clusters r then w\<lparr>wd_cache := ReleaseAll req (wd_cache w)\<rparr> else w)
      | Inr xsvc \<Rightarrow>
          let now = csr_Now r; status = (xs_Status xsvc)\<lparr>css_ObservedGeneration := xs_Generation xsvc\<rparr>
          in case validateSpec xsvc of
               Some err \<Rightarrow>
                 finish_with lib r xsvc (setCondition now ConditionReady ConditionFalse ReasonInvalidSpec (Error err) status)
                   (warning r ReasonInvalidSpec (Error err) w)
             | None \<Rightarrow>
                 (case resolveCluster (lib_lsas lib) (\<lambda>n. csr_GetNamespace r n (wd_api w)) (\<lambda>n. csr_GetCluster r n (wd_api w)) xsvc of
                    Inl err \<Rightarrow>
                      let reason = reasonForClusterError err
                      in finish_with lib r xsvc
                           (setCondition now ConditionReady ConditionFalse reason (Error err)
                             (setCondition now ConditionSourcesResolved ConditionFalse reason (Error err) status))
                           (warning r reason (Error err) w)
                  | Inr rc \<Rightarrow>
                      (case resolve_source r req xsvc w of ((fresh, ttl, resolveErr), w) \<Rightarrow>
                         (case filterAddresses (csr_DefaultAddressPolicy r) rc fresh of
                            Inl err \<Rightarrow> ((0, Some err), w)
                          | Inr (kept, rejected) \<Rightarrow>
                              write_endpoints lib r xsvc status rc kept (length rejected) ttl resolveErr
                                (report_rejected r rejected w)))))"


section \<open>Lemmas\<close>

lemma Filter_split:
  "Filter p es = (kept, rejected) \<Longrightarrow>
     kept = filter (\<lambda>e. Allow p (e_Address e) = None) es \<and> length kept + length rejected = length es"
  by (induction es arbitrary: kept rejected) (auto split: option.splits prod.splits)

text \<open>The policy of the source's cluster, when it has one.\<close>

definition cluster_permits :: "RemoteCluster option \<Rightarrow> addr \<Rightarrow> bool" where
  "cluster_permits rc a \<longleftrightarrow>
     (case Option.bind rc (\<lambda>c. rcs_AddressPolicy (rc_Spec c)) of
        None \<Rightarrow> True
      | Some ap \<Rightarrow> (case NewPolicy (Some ap) of Inl err \<Rightarrow> False | Inr p \<Rightarrow> Allow p a = None))"

lemma filterAddresses_Inr:
  assumes "filterAddresses dflt rc es = Inr (kept, rejected)"
  shows "\<exists>p. NewPolicy dflt = Inr p \<and>
      kept = filter (\<lambda>e. cluster_permits rc (e_Address e) \<and> Allow p (e_Address e) = None) es \<and>
      length kept + length rejected = length es"
proof (cases "Option.bind rc (\<lambda>c. rcs_AddressPolicy (rc_Spec c))")
  case None
  then have "filterAddresses dflt rc es =
      (case NewPolicy dflt of Inl err \<Rightarrow> Inl (Wrapped [Lit ''compiling default address policy: ''] err)
       | Inr p \<Rightarrow> Inr (Filter p es))"
    unfolding filterAddresses_def by (cases rc) (auto split: sum.split prod.split)
  with assms obtain p where "NewPolicy dflt = Inr p" "Filter p es = (kept, rejected)"
    by (auto split: sum.splits)
  then show ?thesis using None by (auto simp: cluster_permits_def dest: Filter_split)
next
  case (Some ap)
  then obtain c where c: "rc = Some c" "rcs_AddressPolicy (rc_Spec c) = Some ap" by (cases rc) auto
  with assms obtain q p es1 rej1 rej2 where q: "NewPolicy (Some ap) = Inr q" "Filter q es = (es1, rej1)"
    and p: "NewPolicy dflt = Inr p" "Filter p es1 = (kept, rej2)" "rejected = rej1 @ rej2"
    by (auto simp: filterAddresses_def split: sum.splits prod.splits)
  show ?thesis
    using Filter_split [OF q(2)] Filter_split [OF p(2)] p(1,3) c q(1) by (auto simp: cluster_permits_def conj_commute)
qed

lemma foldl_warning [simp]:
  "wd_api (foldl (\<lambda>w m. warning r reason m w) w ms) = wd_api w"
  "wd_cache (foldl (\<lambda>w m. warning r reason m w) w ms) = wd_cache w"
  by (induction ms arbitrary: w) (simp_all add: warning_def)

lemma warning_world [simp]:
  "wd_api (warning r reason m w) = wd_api w" "wd_cache (warning r reason m w) = wd_cache w"
  by (simp_all add: warning_def)

lemma report_rejected_world [simp]:
  "wd_api (report_rejected r rejected w) = wd_api w" "wd_cache (report_rejected r rejected w) = wd_cache w"
  by (simp_all add: report_rejected_def split: list.split)

lemma writeStatus_cache: "writeStatus lib r xsvc status w = (err, w') \<Longrightarrow> wd_cache w' = wd_cache w"
  by (auto simp: writeStatus_def Let_def split: if_splits prod.splits option.splits)

lemma finish_cache: "finish_with lib r xsvc status w = (res, w') \<Longrightarrow> wd_cache w' = wd_cache w"
  by (auto simp: finish_with_def split: prod.splits dest: writeStatus_cache)

lemma write_endpoints_cache:
  "write_endpoints lib r xsvc status rc kept n ttl err w = (res, w') \<Longrightarrow> wd_cache w' = wd_cache w"
  by (auto simp: write_endpoints_def Let_def split: sum.splits prod.splits option.splits dest!: writeStatus_cache)

section \<open>Lemmas: what the slices hold after a run\<close>

lemma GroupEndpoints_groups_ok:
  assumes "distinct (map e_Address es)"
  shows "groups_ok (GroupEndpoints es ports fam)"
proof -
  have "map group_order (GroupEndpoints es ports fam) = map group_order (groups_unindexed es ports fam)"
    by (simp add: GroupEndpoints_unindexed assign_index_fields)
  then have "distinct (map group_order (GroupEndpoints es ports fam))" using groups_order_distinct by metis
  then have "distinct (map group_key (GroupEndpoints es ports fam))"
    by (auto simp: distinct_map inj_on_def group_key_def group_order_def)
  moreover have "distinct (map e_Address (g_Endpoints g)) \<and> sorted (map psp_Name (g_Ports g))"
    if g: "g \<in> set (GroupEndpoints es ports fam)" for g
  proof -
    obtain g' where g': "g' \<in> set (groups_unindexed es ports fam)" "g_Ports g = g_Ports g'" "g_Endpoints g = g_Endpoints g'"
      using g assign_index_set unfolding GroupEndpoints_unindexed by blast
    obtain k where k: "g_Endpoints g' = SortEndpoints (members ports fam es k)"
      "g_Ports g' = portTupleFor (hd (members ports fam es k)) ports"
      using groups_elem [OF g'(1)] by blast
    have "distinct (map e_Address (members ports fam es k))"
      using assms unfolding members_def by (rule distinct_map_filter)
    then have "distinct (map e_Address (SortEndpoints (members ports fam es k)))"
      by (simp add: distinct_map SortEndpoints_def)
    then show ?thesis using k g' by (simp add: portTupleFor_def)
  qed
  ultimately show ?thesis by (simp add: groups_ok_def)
qed

definition written_addresses :: "EndpointSlice set \<Rightarrow> string set" where
  "written_addresses slices = (\<Union>s\<in>slices. set (slice_addresses s))"

lemma planned_endpoints:
  assumes "plan_input_ok existing groups m" and "planSlices existing groups sn m = (plans, orphans)"
  shows "(\<Union>p\<in>set plans. set (sp_Endpoints p)) = (\<Union>g\<in>set groups. set (g_Endpoints g))"
proof -
  note spec = planSlices_spec [OF assms]
  have of_group: "(\<Union>p\<in>{p\<in>set plans. plan_key p = group_key g}. set (sp_Endpoints p)) = set (g_Endpoints g)"
    if "g \<in> set groups" for g
  proof -
    have "set (concat (map sp_Endpoints (filter (\<lambda>p. plan_key p = group_key g) plans))) = set (g_Endpoints g)"
      using spec(1) that by (metis mset_eq_setD)
    then show ?thesis by auto
  qed
  have keyed: "\<exists>g\<in>set groups. plan_key p = group_key g" if "p \<in> set plans" for p
    using spec(3) that plan_ok_key by blast
  have "set (sp_Endpoints p) \<subseteq> (\<Union>g\<in>set groups. set (g_Endpoints g))" if p: "p \<in> set plans" for p
  proof -
    obtain g where g: "g \<in> set groups" "plan_key p = group_key g" using keyed p by blast
    then have "set (sp_Endpoints p) \<subseteq> set (g_Endpoints g)" using of_group [OF g(1)] p by blast
    then show ?thesis using g(1) by blast
  qed
  moreover have "set (g_Endpoints g) \<subseteq> (\<Union>p\<in>set plans. set (sp_Endpoints p))" if "g \<in> set groups" for g
    using of_group [OF that] by blast
  ultimately show ?thesis by blast
qed

lemma Writer_written:
  assumes store: "slice_store_ok view (w_Client w)" and owner: "owner_ok owner" and deq: "deep_equal_ok deq"
    and groups: "groups_ok groups" and run: "Writer_Reconcile w deq owner xsvc sn groups st = ((out, None), st')"
  shows "written_addresses (managed (view st') (xs_Namespace xsvc) sn) =
     (\<lambda>e. String (e_Address e)) ` (\<Union>g\<in>set groups. set (g_Endpoints g))"
proof -
  obtain existing st1 plan orphans where steps: "run_steps w deq owner xsvc sn groups st existing st1 plan orphans st'"
    using Reconcile_ok_cases [OF run] by metis
  note first = run_view [OF store owner groups steps]
  have "set (slice_addresses (final_of deq owner xsvc sn p)) = (\<lambda>e. String (e_Address e)) ` set (sp_Endpoints p)"
    if p: "p \<in> set plan" for p
  proof -
    obtain g where "g \<in> set groups" "plan_ok (max_per w) g p"
      using bspec [OF planSlices_spec(3) [OF first(1,2)] p] by (elim bexE)
    then have "sorted (map psp_Name (sp_Ports p))" by (rule plan_ports_sorted [OF groups])
    from mset_eq_setD [OF final_content(2) [OF deq owner this]] show ?thesis by simp
  qed
  then have "written_addresses (final_of deq owner xsvc sn ` set plan) =
      (\<lambda>e. String (e_Address e)) ` (\<Union>p\<in>set plan. set (sp_Endpoints p))"
    by (simp add: written_addresses_def image_UN)
  then show ?thesis
    unfolding Reconcile_managed [OF store owner groups steps] planned_endpoints [OF first(1,2)] .
qed

lemma grouped_endpoints: "(\<Union>g\<in>set (GroupEndpoints es ports fam). set (g_Endpoints g)) = {e \<in> set es. placeable ports fam e}"
proof -
  have "set (concat (map g_Endpoints (GroupEndpoints es ports fam))) = set (filter (placeable ports fam) es)"
    using GroupEndpoints_mset by (metis mset_eq_setD)
  then show ?thesis by simp
qed

text \<open>The laws that the API and the library functions are relied on for.\<close>

definition environment_ok ::
    "ControllerLib \<Rightarrow> 'st CrossServiceReconciler \<Rightarrow> (Service \<Rightarrow> Service) \<Rightarrow> ('st \<Rightarrow> NamespacedName \<rightharpoonup> Service)
     \<Rightarrow> ('st \<Rightarrow> (string \<times> string) \<rightharpoonup> EndpointSlice) \<Rightarrow> bool" where
  "environment_ok lib r admit services slices \<longleftrightarrow>
     service_store_ok admit services (csr_Services r) \<and> admit_ok admit \<and> service_equal_ok (lib_serviceEqual lib) \<and>
     (\<forall>x. \<exists>ref. service_owner_ok ref (csr_ServiceOwner r x)) \<and>
     slice_store_ok slices (csr_Slices r) \<and> (\<forall>x. owner_ok (csr_SliceOwner r x)) \<and> deep_equal_ok (lib_sliceEqual lib) \<and>
     (\<forall>x st. slices (snd (csr_UpdateStatus r x st)) = slices st)"

lemma writeStatus_slices:
  assumes "\<forall>x st. slices (snd (csr_UpdateStatus r x st)) = slices st" and "writeStatus lib r xsvc status w = (err, w')"
  shows "slices (wd_api w') = slices (wd_api w)"
proof -
  have "slices api = slices st" if "csr_UpdateStatus r x st = (e, api)" for x st e api
    using assms(1) that by (metis snd_conv)
  then show ?thesis
    using assms(2) by (auto simp: writeStatus_def Let_def split: if_splits prod.splits option.splits)
qed

text \<open>The steps of a run that returns no error.\<close>

lemma write_endpoints_ok:
  assumes "write_endpoints lib r xsvc status rc kept n ttl resolveErr w = ((d, None), w')"
    and "es = fs_Endpoints (ApplyFailurePolicy (spec_FailurePolicy (xs_Spec xsvc)) (css_Source (xs_Status xsvc)) kept resolveErr (csr_Now r))"
    and "environment_ok lib r admit services slices"
  obtains ref svc written api1 outcome api2 st where "service_owner_ok ref (csr_ServiceOwner r xsvc)"
    and "Service_Reconcile (lib_intValue lib) (lib_serviceEqual lib) (csr_Services r) xsvc (csr_ServiceOwner r xsvc) (wd_api w)
        = (Inr (svc, written), api1)"
    and "services api1 (svc_key (declared ref xsvc)) = Some svc" and "meets (declared ref xsvc) svc"
    and "Writer_Reconcile \<lparr>w_Client = csr_Slices r, w_MaxEndpointsPerSlice = csr_MaxEndpointsPerSlice r\<rparr> (lib_sliceEqual lib)
        (csr_SliceOwner r xsvc) xsvc (NameFor xsvc)
        (GroupEndpoints es (spec_Ports (xs_Spec xsvc)) (spec_IPFamilyPolicy (xs_Spec xsvc))) api1 = ((outcome, None), api2)"
    and "writeStatus lib r xsvc st (w\<lparr>wd_api := api2\<rparr>) = (None, w')"
proof -
  let ?groups = "GroupEndpoints es (spec_Ports (xs_Spec xsvc)) (spec_IPFamilyPolicy (xs_Spec xsvc))"
    and ?w = "\<lparr>w_Client = csr_Slices r, w_MaxEndpointsPerSlice = csr_MaxEndpointsPerSlice r\<rparr>"
  obtain svc written api1 outcome api2 st where
    svc: "Service_Reconcile (lib_intValue lib) (lib_serviceEqual lib) (csr_Services r) xsvc (csr_ServiceOwner r xsvc) (wd_api w)
        = (Inr (svc, written), api1)"
    and wr: "Writer_Reconcile ?w (lib_sliceEqual lib) (csr_SliceOwner r xsvc) xsvc (svc_Name svc) ?groups api1 = ((outcome, None), api2)"
    and ws: "writeStatus lib r xsvc st (w\<lparr>wd_api := api2\<rparr>) = (None, w')"
    using assms(1) unfolding write_endpoints_def Let_def assms(2)
    by (auto split: sum.splits prod.splits option.splits)
  obtain ref where ref: "service_owner_ok ref (csr_ServiceOwner r xsvc)" using assms(3) unfolding environment_ok_def by blast
  have est: "services api1 (svc_key (declared ref xsvc)) = Some svc \<and> meets (declared ref xsvc) svc"
    using Reconcile_established [OF _ _ _ ref svc] assms(3) unfolding environment_ok_def by blast
  then have "svc_Name svc = NameFor xsvc"
    by (simp add: meets_def svc_key_def declared_def Build_def Let_def)
  with that [OF ref svc _ _ _ ws] est wr show ?thesis by simp
qed

lemma write_endpoints_written:
  assumes env: "environment_ok lib r admit services slices"
    and run: "write_endpoints lib r xsvc status rc kept n ttl resolveErr w = ((d, None), w')"
    and es: "es = fs_Endpoints (ApplyFailurePolicy (spec_FailurePolicy (xs_Spec xsvc)) (css_Source (xs_Status xsvc)) kept resolveErr (csr_Now r))"
    and dist: "distinct (map e_Address es)"
  shows "written_addresses (managed (slices (wd_api w')) (xs_Namespace xsvc) (NameFor xsvc)) =
     (\<lambda>e. String (e_Address e)) ` {e \<in> set es. placeable (spec_Ports (xs_Spec xsvc)) (spec_IPFamilyPolicy (xs_Spec xsvc)) e}"
  using run es env
proof (cases rule: write_endpoints_ok)
  case (1 ref svc written api1 outcome api2 st)
  have "slices (wd_api w') = slices api2"
    using writeStatus_slices [OF _ 1(6), of slices] env unfolding environment_ok_def by simp
  then show ?thesis
    using Writer_written [OF _ _ _ GroupEndpoints_groups_ok [OF dist] 1(5), of slices] env
    unfolding environment_ok_def by (simp add: grouped_endpoints)
qed

section \<open>A concrete environment\<close>

text \<open>
  An API server in memory, the Services beside the slices, and a reconciler whose status updates are accepted and
  forgotten.
\<close>

definition beside_slices :: "'a ServiceClient \<Rightarrow> ('a \<times> 'b) ServiceClient" where
  "beside_slices c =
     \<lparr>svcc_Get = (\<lambda>k st. case svcc_Get c k (fst st) of (x, a) \<Rightarrow> (x, (a, snd st))),
      svcc_Create = (\<lambda>s st. case svcc_Create c s (fst st) of (x, a) \<Rightarrow> (x, (a, snd st))),
      svcc_Update = (\<lambda>s st. case svcc_Update c s (fst st) of (x, a) \<Rightarrow> (x, (a, snd st)))\<rparr>"

definition beside_services :: "'b SliceClient \<Rightarrow> ('a \<times> 'b) SliceClient" where
  "beside_services c =
     \<lparr>slc_List = (\<lambda>ns sel st. case slc_List c ns sel (snd st) of (x, b) \<Rightarrow> (x, (fst st, b))),
      slc_Create = (\<lambda>s st. case slc_Create c s (snd st) of (x, b) \<Rightarrow> (x, (fst st, b))),
      slc_Update = (\<lambda>s st. case slc_Update c s (snd st) of (x, b) \<Rightarrow> (x, (fst st, b))),
      slc_Delete = (\<lambda>s st. case slc_Delete c s (snd st) of (x, b) \<Rightarrow> (x, (fst st, b)))\<rparr>"

lemma beside_slices_ok:
  assumes ok: "service_store_ok admit view c"
  shows "service_store_ok admit (\<lambda>st. view (fst st)) (beside_slices c)"
proof -
  let ?c = "beside_slices c"
  have laws: "\<And>st k s. view st k = Some s \<Longrightarrow> svc_key s = k"
    "\<And>st k s st'. svcc_Get c k st = (Inr s, st') \<Longrightarrow> view st k = Some s \<and> view st' = view st"
    "\<And>st k s. view st k = Some s \<Longrightarrow> svcc_Get c k st = (Inr s, st)"
    "\<And>st s s' st'. svcc_Create c s st = (Inr s', st') \<Longrightarrow> s' = admit s \<and> view st' = (view st)(svc_key s \<mapsto> admit s)"
    "\<And>st s s' st'. svcc_Update c s st = (Inr s', st') \<Longrightarrow> s' = admit s \<and> view st' = (view st)(svc_key s \<mapsto> admit s)"
    using ok unfolding service_store_ok_def by blast+
  have "view (fst st) k = Some s \<and> view (fst st') = view (fst st)" if "svcc_Get ?c k st = (Inr s, st')" for st k s st'
    using that laws(2) [of k "fst st"] by (auto simp: beside_slices_def split: prod.splits)
  moreover have "svcc_Get ?c k st = (Inr s, st)" if "view (fst st) k = Some s" for st k s
    using laws(3) [OF that] by (simp add: beside_slices_def)
  moreover have "s' = admit s \<and> view (fst st') = (view (fst st))(svc_key s \<mapsto> admit s)"
    if "svcc_Create ?c s st = (Inr s', st')" for st s s' st'
    using that laws(4) [of s "fst st"] by (auto simp: beside_slices_def split: prod.splits)
  moreover have "s' = admit s \<and> view (fst st') = (view (fst st))(svc_key s \<mapsto> admit s)"
    if "svcc_Update ?c s st = (Inr s', st')" for st s s' st'
    using that laws(5) [of s "fst st"] by (auto simp: beside_slices_def split: prod.splits)
  ultimately show ?thesis unfolding service_store_ok_def using laws(1) by blast
qed

lemma beside_services_ok:
  assumes ok: "slice_store_ok view c"
  shows "slice_store_ok (\<lambda>st. view (snd st)) (beside_services c)"
proof -
  let ?c = "beside_services c"
  have key: "slice_obj_key s = k" if "view st k = Some s" for st k s
    using ok that unfolding slice_store_ok_def by blast
  have "view (snd st') = view (snd st) \<and> distinct items \<and>
      set items = {s. view (snd st) (slice_obj_key s) = Some s \<and> es_Namespace s = ns \<and> sel \<subseteq>\<^sub>m es_Labels s}"
    if "slc_List ?c ns sel st = (Inr items, st')" for st ns sel items st'
    using that store_list [OF ok, of ns sel "snd st"] by (auto simp: beside_services_def split: prod.splits)
  moreover have "view (snd st') = (view (snd st))(slice_obj_key s \<mapsto> s)" if "slc_Create ?c s st = (None, st')" for st s st'
    using that store_create [OF ok, of s "snd st"] by (auto simp: beside_services_def split: prod.splits)
  moreover have "view (snd st') = (view (snd st))(slice_obj_key s \<mapsto> s)" if "slc_Update ?c s st = (None, st')" for st s st'
    using that store_update [OF ok, of s "snd st"] by (auto simp: beside_services_def split: prod.splits)
  moreover have "view (snd st') = (view (snd st))(slice_obj_key s := None)"
    if "slc_Delete ?c s st = (err, st')" "case err of None \<Rightarrow> True | Some e \<Rightarrow> IsNotFound e" for st s err st'
    using that store_delete [OF ok, of s "snd st"] by (auto simp: beside_services_def split: prod.splits)
  ultimately show ?thesis unfolding slice_store_ok_def using key by blast
qed

definition demo_controller_lib :: ControllerLib where
  "demo_controller_lib = \<lparr>lib_lsas = (\<lambda>s. Inr (\<lambda>ls. ls_MatchLabels s \<subseteq>\<^sub>m ls)), lib_intValue = demo_int_value,
     lib_serviceEqual = demo_service_equal, lib_sliceEqual = demo_deq, lib_statusEqual = (=)\<rparr>"

definition demo_reconciler ::
    "CrossService result \<Rightarrow> CacheState resolver \<Rightarrow> ((NamespacedName \<rightharpoonup> Service) \<times> EndpointSlice list) CrossServiceReconciler" where
  "demo_reconciler xsvc resolve =
     \<lparr>csr_Get = (\<lambda>k st. xsvc), csr_GetCluster = (\<lambda>n st. Inl (NotFoundError [])), csr_GetNamespace = (\<lambda>n st. Inr Map.empty),
      csr_Services = beside_slices mem_services, csr_Slices = beside_services mem_client,
      csr_UpdateStatus = (\<lambda>x st. (None, st)), csr_ServiceOwner = (\<lambda>x. demo_service_owner),
      csr_SliceOwner = (\<lambda>x. demo_owner), csr_Recorder = True, csr_Resolver = resolve, csr_DefaultAddressPolicy = None,
      csr_MaxEndpointsPerSlice = 100, csr_Clusters = True, csr_Now = 7\<rparr>"

definition demo_world :: "((NamespacedName \<rightharpoonup> Service) \<times> EndpointSlice list) World" where
  "demo_world = \<lparr>wd_api = (Map.empty, []), wd_cache = NewCachingProvider, wd_events = []\<rparr>"

definition demo_req :: NamespacedName where
  "demo_req = \<lparr>nn_Namespace = ''app'', nn_Name = ''db''\<rparr>"

lemma demo_environment_ok:
  "environment_ok demo_controller_lib (demo_reconciler xsvc resolve) demo_admit (\<lambda>st. services_view (fst st)) (\<lambda>st. mem_view (snd st))"
proof -
  have "\<exists>ref. service_owner_ok ref demo_service_owner" using demo_service_params(1) by blast
  then show ?thesis
    using beside_slices_ok [OF mem_services_ok] beside_services_ok [OF mem_store_ok] demo_admit_ok demo_service_params(2)
      demo_params_ok(2,3)
    by (simp add: environment_ok_def demo_controller_lib_def demo_reconciler_def)
qed

lemma demo_Writer_ok:
  fixes st :: "'a \<times> EndpointSlice list"
  assumes "\<And>s. \<exists>s'. owner s = Inr s'"
  shows "\<exists>out st'. Writer_Reconcile \<lparr>w_Client = beside_services mem_client, w_MaxEndpointsPerSlice = m\<rparr> deq owner xsvc sn groups st
     = ((out, None), st')"
proof -
  let ?w = "\<lparr>w_Client = beside_services mem_client, w_MaxEndpointsPerSlice = m\<rparr> :: ('a \<times> EndpointSlice list) Writer"
  have wr: "\<exists>out' st'. write_plans ?w deq owner xsvc sn plans out st = ((out', None), st')" for plans out st
  proof (induction plans arbitrary: out st)
    case (Cons p plans)
    obtain d where "owner (buildSlice xsvc sn p) = Inr d" using assms by blast
    then show ?case using Cons.IH
      by (auto simp: beside_services_def mem_client_def Let_def split: option.split)
  qed simp
  have delete: "\<exists>out' st'. delete_orphans ?w orphans out st = ((out', None), st')" for orphans out st
    by (induction orphans arbitrary: out st) (auto simp: beside_services_def mem_client_def)
  obtain existing where l: "Writer_list ?w (xs_Namespace xsvc) sn st = (Inr existing, st)"
    by (cases st) (auto simp: Writer_list_def beside_services_def mem_client_def)
  obtain plan orphans where p: "planSlices existing groups sn (max_per ?w) = (plan, orphans)" by fastforce
  obtain out1 st1 where w: "write_plans ?w deq owner xsvc sn plan zero_outcome st = ((out1, None), st1)" using wr by blast
  obtain out2 st2 where d: "delete_orphans ?w orphans out1 st1 = ((out2, None), st2)" using delete by blast
  show ?thesis by (simp add: Writer_Reconcile_def l p w d)
qed

lemma demo_write_endpoints_ok:
  "\<exists>d w'. write_endpoints demo_controller_lib (demo_reconciler x resolve) xsvc status rc kept n ttl err w = ((d, None), w')"
proof -
  let ?r = "demo_reconciler x resolve" and ?lib = demo_controller_lib
  obtain svc written api1 where svc: "Service_Reconcile (lib_intValue ?lib) (lib_serviceEqual ?lib) (csr_Services ?r) xsvc
      (csr_ServiceOwner ?r xsvc) (wd_api w) = (Inr (svc, written), api1)"
    by (fastforce simp: Service_Reconcile_def demo_reconciler_def demo_service_owner_def beside_slices_def mem_services_def Let_def
        split: option.splits if_splits)
  have owner: "\<And>s. \<exists>s'. csr_SliceOwner ?r xsvc s = Inr s'" by (simp add: demo_reconciler_def demo_owner_def)
  have slices: "csr_Slices ?r = beside_services mem_client" by (simp add: demo_reconciler_def)
  have status: "\<exists>w''. writeStatus ?lib ?r xsvc st w' = (None, w'')" for st w'
    by (simp add: writeStatus_def demo_reconciler_def Let_def)
  let ?es = "fs_Endpoints (ApplyFailurePolicy (spec_FailurePolicy (xs_Spec xsvc)) (css_Source (xs_Status xsvc)) kept err (csr_Now ?r))"
  obtain out api2 where wr: "Writer_Reconcile \<lparr>w_Client = csr_Slices ?r, w_MaxEndpointsPerSlice = csr_MaxEndpointsPerSlice ?r\<rparr>
      (lib_sliceEqual ?lib) (csr_SliceOwner ?r xsvc) xsvc (svc_Name svc)
      (GroupEndpoints ?es (spec_Ports (xs_Spec xsvc)) (spec_IPFamilyPolicy (xs_Spec xsvc))) api1 = ((out, None), api2)"
    unfolding slices using demo_Writer_ok [of "csr_SliceOwner ?r xsvc", OF owner] by blast
  show ?thesis
    unfolding write_endpoints_def Let_def svc prod.case sum.case wr option.case
    using status by (metis (lifting) option.case(1) prod.case)
qed

section \<open>Properties\<close>

text \<open>
  The endpoints that go on are those that both the source cluster's policy and the default policy let
  through, in their order; every other one is counted as rejected.
\<close>

theorem filterAddresses_spec:
  assumes "filterAddresses dflt rc es = Inr (kept, rejected)"
  shows "length kept + length rejected = length es \<and>
     (\<exists>p. NewPolicy dflt = Inr p \<and>
        kept = filter (\<lambda>e. cluster_permits rc (e_Address e) \<and> Allow p (e_Address e) = None) es)"
  using filterAddresses_Inr [OF assms] by blast

lemma filterAddresses_spec_witness:
  "\<exists>kept rejected.
     filterAddresses None None [zero_endpoint\<lparr>e_Address := Addr4 0xA9FEA9FE\<rparr>, zero_endpoint\<lparr>e_Address := Addr4 0x0A000001\<rparr>]
       = Inr (kept, rejected) \<and> length kept + length rejected = 2"
proof -
  let ?es = "[zero_endpoint\<lparr>e_Address := Addr4 0xA9FEA9FE\<rparr>, zero_endpoint\<lparr>e_Address := Addr4 0x0A000001\<rparr>]"
  obtain kept rejected where "Filter \<lparr>pol_allowed = [], pol_denied = [], pol_denySpecialPurpose = True\<rparr> ?es = (kept, rejected)"
    by fastforce
  then have r: "filterAddresses None None ?es = Inr (kept, rejected)"
    by (simp add: filterAddresses_def NewPolicy_def del: Filter.simps)
  from filterAddresses_spec [OF r] r show ?thesis by auto
qed



text \<open>
  C37: what \<^verbatim>\<open>Ready\<close> says.  After a report it is true exactly when the source resolved to at least one
  endpoint, or failed and is not degraded; every other type of condition than the three about the source
  is left as it was, and no type is listed twice.
\<close>

theorem applyStatus_conditions:
  assumes "distinct (map sc_Type (css_Conditions status))"
  shows "let conds = css_Conditions (applyStatus now status xsvc src state fresh resolveErr outcome rejected)
     in distinct (map sc_Type conds) \<and>
        (\<exists>c. condition_in conds ConditionReady = Some c \<and>
           (sc_Status c = ConditionTrue \<longleftrightarrow>
              (if resolveErr = None then to_int32 (int (length (fs_Endpoints state))) \<noteq> 0 else \<not> fs_Degraded state))) \<and>
        (\<exists>c. condition_in conds ConditionSourcesResolved = Some c \<and>
           (sc_Status c = ConditionTrue \<longleftrightarrow> resolveErr = None)) \<and>
        (\<forall>ty. ty \<notin> {ConditionReady, ConditionSourcesResolved, ConditionDegraded} \<longrightarrow>
           condition_in conds ty = condition_in (css_Conditions status) ty)"
proof (cases resolveErr)
  case None
  then show ?thesis
    using assms unfolding applyStatus_def Let_def
    by (simp add: xsvc_conditions.lookup_update xsvc_conditions.distinct_update)
next
  case (Some err)
  then show ?thesis
    using assms unfolding applyStatus_def Let_def
    by (simp add: xsvc_conditions.lookup_update xsvc_conditions.distinct_update)
qed

lemma applyStatus_conditions_witness:
  "\<exists>c. condition_in (css_Conditions (applyStatus 7 zero_status demo_admitted zero_source
       \<lparr>fs_Endpoints = [zero_endpoint], fs_Stale = False, fs_Degraded = False, fs_ConsecutiveErrors = 0, fs_Reason = []\<rparr>
       [zero_endpoint] None zero_outcome 0)) ConditionReady = Some c \<and> sc_Status c = ConditionTrue"
proof -
  have "distinct (map sc_Type (css_Conditions zero_status))" by (simp add: zero_status_def)
  from applyStatus_conditions [OF this, of 7 demo_admitted zero_source
      "\<lparr>fs_Endpoints = [zero_endpoint], fs_Stale = False, fs_Degraded = False, fs_ConsecutiveErrors = 0, fs_Reason = []\<rparr>"
      "[zero_endpoint]" None zero_outcome 0]
  show ?thesis by (auto simp: to_int32_def Let_def)
qed

text \<open>
  A source whose first attempts fail is reported ready.  With no endpoint ever resolved and fewer errors
  than the threshold, the status says \<^verbatim>\<open>Ready\<close>, ``serving last known good endpoints'', with
  zero endpoints.
\<close>

theorem ready_without_endpoints:
  assumes "endpointsFromStatus prev = []"
    and "sint (consecutive_errors prev) < sint (fst (FailurePolicyDefaults policy))"
  shows "let state = ApplyFailurePolicy policy prev kept (Some err) now;
            st = applyStatus now status xsvc src state kept (Some err) outcome rejected
     in css_TotalEndpoints st = 0 \<and>
        (\<exists>c. condition_in (css_Conditions st) ConditionReady = Some c \<and> sc_Status c = ConditionTrue \<and>
           sc_Message c = [Lit ''serving last known good endpoints''])"
proof -
  have state: "ApplyFailurePolicy policy prev kept (Some err) now =
      \<lparr>fs_Endpoints = [], fs_Stale = False, fs_Degraded = False, fs_ConsecutiveErrors = consecutive_errors prev, fs_Reason = []\<rparr>"
    using assms by (auto simp: ApplyFailurePolicy_def Let_def split: prod.split)
  show ?thesis
    unfolding state Let_def applyStatus_def
    by (simp add: xsvc_conditions.lookup_update) (simp add: setCondition_def to_int32_def)
qed

lemma ready_without_endpoints_witness:
  "css_TotalEndpoints (applyStatus 7 zero_status demo_admitted zero_source
      (ApplyFailurePolicy None None [] (Some (Errorf [])) 7) [] (Some (Errorf [])) zero_outcome 0) = 0"
proof -
  have "endpointsFromStatus None = []" "sint (consecutive_errors None) < sint (fst (FailurePolicyDefaults None))"
    by code_simp+
  from ready_without_endpoints [OF this, of "[]" "Errorf []" 7 zero_status demo_admitted zero_source zero_outcome 0]
  show ?thesis by (simp add: Let_def)
qed

text \<open>
  C38: a successful resolution always changes the status, whatever it resolved to, as soon as the clock has
  moved: the time of the last success is part of it.  So every successful reconciliation calls
  \<^verbatim>\<open>Status().Update\<close>, and the comparison that is meant to avoid the write never does.
\<close>

theorem success_rewrites_status:
  assumes "\<And>a b. lib_statusEqual lib a b \<Longrightarrow> a = b"
    and "Option.bind (css_Source (xs_Status xsvc)) sst_LastSuccessTime \<noteq> Some now"
  shows "\<exists>st'. wd_api (snd (writeStatus lib r xsvc (applyStatus now status xsvc src state fresh None outcome rejected) w)) =
     snd (csr_UpdateStatus r (xsvc\<lparr>xs_Status := st'\<rparr>) (wd_api w)) \<and> css_Source st' \<noteq> css_Source (xs_Status xsvc)"
proof -
  let ?st = "applyStatus now status xsvc src state fresh None outcome rejected"
  have "css_Source ?st = Some (source_status now (css_Source (xs_Status xsvc)) src state fresh None)"
    by (simp add: applyStatus_def Let_def setCondition_def)
  moreover have "sst_LastSuccessTime (source_status now (css_Source (xs_Status xsvc)) src state fresh None) = Some now"
    by (simp add: source_status_def Let_def)
  ultimately have ne: "css_Source ?st \<noteq> css_Source (xs_Status xsvc)" using assms(2) by (metis bind.bind_lunit)
  then have "\<not> lib_statusEqual lib (xs_Status xsvc) (?st\<lparr>css_Conditions := cs\<rparr>)" for cs using assms(1) by fastforce
  then have "wd_api (snd (writeStatus lib r xsvc ?st w)) =
      snd (csr_UpdateStatus r (xsvc\<lparr>xs_Status := ?st\<lparr>css_Conditions := observe (xs_Generation xsvc) (css_Conditions ?st)\<rparr>\<rparr>) (wd_api w))"
    by (simp add: writeStatus_def Let_def split: prod.split option.split)
  then show ?thesis using ne by (metis CrossServiceStatus.select_convs(9) CrossServiceStatus.surjective
        CrossServiceStatus.update_convs(1))
qed

lemma success_rewrites_status_witness:
  "\<exists>st'. wd_api (snd (writeStatus demo_controller_lib (demo_reconciler (Inr demo_admitted) (Static_Resolve demo_int_value)) demo_admitted
       (applyStatus 7 zero_status demo_admitted zero_source
         \<lparr>fs_Endpoints = [], fs_Stale = False, fs_Degraded = False, fs_ConsecutiveErrors = 0, fs_Reason = []\<rparr> [] None zero_outcome 0)
       demo_world)) =
     snd (csr_UpdateStatus (demo_reconciler (Inr demo_admitted) (Static_Resolve demo_int_value)) (demo_admitted\<lparr>xs_Status := st'\<rparr>)
       (wd_api demo_world)) \<and> css_Source st' \<noteq> css_Source (xs_Status demo_admitted)"
  by (rule success_rewrites_status) (simp_all add: demo_controller_lib_def demo_admitted_def zero_status_def)

text \<open>
  C16: nothing is read from a cluster before the grant is checked (9.2).  When the cluster is missing or the
  namespace may not use it, the reconciliation is the same whatever the resolver and the clients for
  Services and slices do: none of them is called, and the cache of connections is untouched.
\<close>

theorem refused_reads_nothing:
  assumes "csr_Get r req (wd_api w) = Inr xsvc"
    and "resolveCluster (lib_lsas lib) (\<lambda>n. csr_GetNamespace r n (wd_api w)) (\<lambda>n. csr_GetCluster r n (wd_api w)) xsvc = Inl err"
  shows "Reconcile lib (r\<lparr>csr_Resolver := f, csr_Services := services, csr_Slices := slices\<rparr>) req w = Reconcile lib r req w \<and>
     wd_cache (snd (Reconcile lib r req w)) = wd_cache w \<and> fst (fst (Reconcile lib r req w)) = 0"
proof -
  let ?r = "r\<lparr>csr_Resolver := f, csr_Services := services, csr_Slices := slices\<rparr>"
  have warn: "warning ?r reason m w = warning r reason m w" for reason m by (simp add: warning_def)
  have update: "csr_UpdateStatus ?r = csr_UpdateStatus r" by simp
  have fin: "finish_with lib ?r xsvc st w' = finish_with lib r xsvc st w'" for st w'
    by (simp only: finish_with_def writeStatus_def update)
  have cache: "wd_cache (snd (finish_with lib r xsvc st w')) = wd_cache w'" for st w'
    using finish_cache by (metis prod.collapse)
  have zero: "fst (fst (finish_with lib r xsvc st w')) = 0" for st w' by (simp add: finish_with_def split: prod.split)
  show ?thesis
    using assms
    by (cases "validateSpec xsvc") (simp_all add: Reconcile_def Let_def warn fin cache zero)
qed

definition demo_remote :: CrossService where
  "demo_remote = demo_admitted\<lparr>xs_Spec := (xs_Spec demo_admitted)\<lparr>spec_Source := zero_source
     \<lparr>src_Type := SourceTypeNodes, src_ClusterRef := Some \<lparr>cr_Name = ''east''\<rparr>\<rparr>\<rparr>\<rparr>"

lemma refused_reads_nothing_witness:
  "Reconcile demo_controller_lib (demo_reconciler (Inr demo_remote) (\<lambda>src ports st. (Inl (Errorf []), st))) demo_req demo_world =
   Reconcile demo_controller_lib (demo_reconciler (Inr demo_remote) (Static_Resolve demo_int_value)) demo_req demo_world"
proof -
  let ?r = "demo_reconciler (Inr demo_remote) (Static_Resolve demo_int_value)"
  have "csr_Get ?r demo_req (wd_api demo_world) = Inr demo_remote" by (simp add: demo_reconciler_def)
  moreover have "resolveCluster (lib_lsas demo_controller_lib) (\<lambda>n. csr_GetNamespace ?r n (wd_api demo_world))
      (\<lambda>n. csr_GetCluster ?r n (wd_api demo_world)) demo_remote = Inl (ClusterNotFoundError ''east'')"
    by (simp add: resolveCluster_def demo_reconciler_def demo_remote_def demo_admitted_def)
  ultimately have "Reconcile demo_controller_lib (?r\<lparr>csr_Resolver := \<lambda>src ports st. (Inl (Errorf []), st),
      csr_Services := csr_Services ?r, csr_Slices := csr_Slices ?r\<rparr>) demo_req demo_world =
    Reconcile demo_controller_lib ?r demo_req demo_world"
    using refused_reads_nothing by blast
  then show ?thesis by (simp add: demo_reconciler_def)
qed

text \<open>
  A CrossService that is gone no longer holds a connection to any cluster, and the others keep theirs.
\<close>

theorem deleted_releases:
  assumes "csr_Get r req (wd_api w) = Inl err" and "IsNotFound err" and "csr_Clusters r"
  shows "fst (Reconcile lib r req w) = (0, None) \<and>
     (\<forall>name. holds (wd_cache (snd (Reconcile lib r req w))) name = holds (wd_cache w) name - {req})"
  using assms by (simp add: Reconcile_def refs.holding_release_all)

definition demo_held :: CacheState where
  "demo_held = NewCachingProvider\<lparr>cs_entries := [(''east'', (demo_entry [] 0 0)\<lparr>en_consumers := [demo_req]\<rparr>)]\<rparr>"

lemma demo_held_holds: "holds demo_held ''east'' = {demo_req}"
  by (simp add: holds_def demo_held_def)

lemma deleted_releases_witness:
  "let w = demo_world\<lparr>wd_cache := demo_held\<rparr>
   in holds (wd_cache w) ''east'' = {demo_req} \<and>
      holds (wd_cache (snd (Reconcile demo_controller_lib (demo_reconciler (Inl (NotFoundError [])) (Static_Resolve demo_int_value))
        demo_req w))) ''east'' = {}"
proof -
  let ?w = "demo_world\<lparr>wd_cache := demo_held\<rparr>"
    and ?r = "demo_reconciler (Inl (NotFoundError [])) (Static_Resolve demo_int_value)"
  have "csr_Get ?r demo_req (wd_api ?w) = Inl (NotFoundError [])" "IsNotFound (NotFoundError [])" "csr_Clusters ?r"
    by (simp_all add: demo_reconciler_def)
  from deleted_releases [OF this, of demo_controller_lib] show ?thesis by (simp add: Let_def demo_held_holds)
qed

text \<open>
  A CrossService that is moved from one cluster to another keeps its reference on the first: a
  reconciliation only adds the reference on the cluster it names now, so the count of consumers of the first
  stays too high and its connection open until the CrossService is deleted.
\<close>

theorem moved_keeps_reference:
  assumes "csr_Get r req (wd_api w) = Inr xsvc" and "req \<in> holds (wd_cache w) name"
    and "\<And>src ports st. holds (snd (csr_Resolver r src ports st)) name = holds st name"
  shows "req \<in> holds (wd_cache (snd (Reconcile lib r req w))) name"
proof -
  have acquire: "req \<in> holds (Acquire n req cache) name" if "req \<in> holds cache name" for n cache
    using that by (simp add: refs.holding_acquire)
  have fin: "wd_cache (snd (finish_with lib r xsvc st w')) = wd_cache w'" for st w'
    using finish_cache by (metis prod.collapse)
  have wr: "wd_cache (snd (write_endpoints lib r xsvc st rc kept n ttl e w')) = wd_cache w'" for st rc kept n ttl e w'
    using write_endpoints_cache by (metis prod.collapse)
  have res: "req \<in> holds (wd_cache (snd (resolve_source r req xsvc w))) name"
  proof -
    obtain result cache where c: "csr_Resolver r (spec_Source (xs_Spec xsvc)) (spec_Ports (xs_Spec xsvc)) (wd_cache w) = (result, cache)"
      by fastforce
    then have "req \<in> holds cache name" using assms(2,3) by (metis snd_conv)
    then show ?thesis
      by (simp add: resolve_source_def c Let_def acquire split: option.split sum.split)
  qed
  obtain fresh ttl e w1 where w1: "resolve_source r req xsvc w = ((fresh, ttl, e), w1)" by (metis prod.exhaust)
  with res have "req \<in> holds (wd_cache w1) name" by simp
  then show ?thesis
    using assms(1,2)
    by (simp add: Reconcile_def Let_def fin wr w1 split: option.split sum.split prod.split)
qed

lemma moved_keeps_reference_witness:
  "demo_req \<in> holds (wd_cache (snd (Reconcile demo_controller_lib
     (demo_reconciler (Inr demo_admitted) (Static_Resolve demo_int_value)) demo_req (demo_world\<lparr>wd_cache := demo_held\<rparr>)))) ''east''"
proof (rule moved_keeps_reference)
  show "csr_Get (demo_reconciler (Inr demo_admitted) (Static_Resolve demo_int_value)) demo_req
      (wd_api (demo_world\<lparr>wd_cache := demo_held\<rparr>)) = Inr demo_admitted"
    by (simp add: demo_reconciler_def)
  show "demo_req \<in> holds (wd_cache (demo_world\<lparr>wd_cache := demo_held\<rparr>)) ''east''" by (simp add: demo_held_holds)
  show "holds (snd (csr_Resolver (demo_reconciler (Inr demo_admitted) (Static_Resolve demo_int_value)) src ports st)) ''east'' =
      holds st ''east''" for src ports st
    by (simp add: demo_reconciler_def Static_Resolve_def split: option.split sum.split)
qed

text \<open>
  A Service that cannot be written is not reported.  The condition \<^verbatim>\<open>ServiceReady\<close> is set on
  a copy of the status that is dropped when the error is returned: the outcome does not depend on what a
  status update would do, since none is made.
\<close>

theorem service_error_unreported:
  assumes "Service_Reconcile (lib_intValue lib) (lib_serviceEqual lib) (csr_Services r) xsvc (csr_ServiceOwner r xsvc) (wd_api w)
      = (Inl err, api)"
  shows "write_endpoints lib (r\<lparr>csr_UpdateStatus := update\<rparr>) xsvc status rc kept n ttl resolveErr w =
     ((0, Some err), w\<lparr>wd_api := api\<rparr>)"
  using assms by (simp add: write_endpoints_def Let_def)

lemma service_error_unreported_witness:
  "fst (write_endpoints demo_controller_lib
     (demo_reconciler (Inr demo_admitted) (Static_Resolve demo_int_value)
        \<lparr>csr_ServiceOwner := \<lambda>x s. Inl (Errorf []), csr_UpdateStatus := \<lambda>x st. (None, st)\<rparr>)
     demo_admitted zero_status None [] 0 0 None demo_world) = (0, Some (Wrapped [Lit ''setting owner: ''] (Errorf [])))"
proof -
  let ?r = "demo_reconciler (Inr demo_admitted) (Static_Resolve demo_int_value)\<lparr>csr_ServiceOwner := \<lambda>x s. Inl (Errorf [])\<rparr>"
  have "Service_Reconcile (lib_intValue demo_controller_lib) (lib_serviceEqual demo_controller_lib) (csr_Services ?r) demo_admitted
      (csr_ServiceOwner ?r demo_admitted) (wd_api demo_world) = (Inl (Wrapped [Lit ''setting owner: ''] (Errorf [])), wd_api demo_world)"
    by (simp add: Service_Reconcile_def)
  from service_error_unreported [OF this, of "\<lambda>x st. (None, st)" zero_status None "[]" 0 0 None] show ?thesis by simp
qed

end
