(* ===== verification/Watches.thy ===== *)
theory Watches
  imports CrossService_Controller
begin

text \<open>
  \<^verbatim>\<open>internal/controller/watches.go\<close>: which CrossServices an event concerns.  Every CrossService is
  indexed under keys for the objects its source reads; an event is turned into a key and the key into requests.
  Events of remote clusters pass through a bounded channel that drops rather than blocks.

  The indexed list call is a parameter, \<open>listByKey\<close>; what is relied on is \<open>index_ok\<close>: it returns the
  CrossServices for which the registered index function yields the key.
\<close>

section \<open>Index keys\<close>

definition nodesIndexKey :: string where
  "nodesIndexKey = ''nodes|''"

definition podsKey :: "string \<Rightarrow> string" where
  "podsKey namespace = ''pods|'' @ namespace"

definition nodesKey :: string where
  "nodesKey = nodesIndexKey"

definition serviceKey :: "string \<Rightarrow> string \<Rightarrow> string" where
  "serviceKey ns name = ''service|'' @ ns @ ''/'' @ name"

definition slicesKey :: "string \<Rightarrow> string \<Rightarrow> string" where
  "slicesKey ns name = ''slices|'' @ ns @ ''/'' @ name"

definition remotePrefix :: "string \<Rightarrow> string" where
  "remotePrefix clusterName = ''remote|'' @ clusterName @ ''|''"

definition localSourceRefKeys :: "Source \<Rightarrow> string list" where
  "localSourceRefKeys src =
     (if src_Type src = SourceTypePods then
        (case src_Pods src of Some p \<Rightarrow> [podsKey (ps_Namespace p)] | None \<Rightarrow> [])
      else if src_Type src = SourceTypeNodes then [nodesKey]
      else if src_Type src = SourceTypeService then
        (case src_Service src of
           None \<Rightarrow> []
         | Some s \<Rightarrow>
             [serviceKey (svs_Namespace s) (svs_Name s)] @
             (if svs_Via s = ServiceExposureNodePort then [nodesKey]
              else if svs_Via s = ServiceExposurePodIP then [slicesKey (svs_Namespace s) (svs_Name s)]
              else []))
      else [])"

definition sourceRefKeys :: "CrossService \<Rightarrow> string list" where
  "sourceRefKeys xsvc =
     (let src = spec_Source (xs_Spec xsvc);
          prefix = (case src_ClusterRef src of Some ref \<Rightarrow> remotePrefix (cr_Name ref) | None \<Rightarrow> [])
      in map (\<lambda>k. prefix @ k) (localSourceRefKeys src))"

section \<open>From events to requests\<close>

text \<open>The metadata that the maps read of an object.\<close>

record ObjectMeta =
  om_Namespace :: string
  om_Name :: string
  om_Labels :: labels

definition request_for :: "CrossService \<Rightarrow> NamespacedName" where
  "request_for x = \<lparr>nn_Namespace = xs_Namespace x, nn_Name = xs_Name x\<rparr>"

definition enqueueForKey :: "(string \<Rightarrow> CrossService list result) \<Rightarrow> string \<Rightarrow> NamespacedName list" where
  "enqueueForKey listByKey key =
     (case listByKey key of Inl err \<Rightarrow> [] | Inr items \<Rightarrow> map request_for items)"

definition mapPod :: "(string \<Rightarrow> CrossService list result) \<Rightarrow> ObjectMeta \<Rightarrow> NamespacedName list" where
  "mapPod listByKey ob = enqueueForKey listByKey (podsKey (om_Namespace ob))"

definition mapNode :: "(string \<Rightarrow> CrossService list result) \<Rightarrow> ObjectMeta \<Rightarrow> NamespacedName list" where
  "mapNode listByKey ob = enqueueForKey listByKey nodesKey"

definition mapService :: "(string \<Rightarrow> CrossService list result) \<Rightarrow> ObjectMeta \<Rightarrow> NamespacedName list" where
  "mapService listByKey ob = enqueueForKey listByKey (serviceKey (om_Namespace ob) (om_Name ob))"

definition mapEndpointSlice :: "(string \<Rightarrow> CrossService list result) \<Rightarrow> ObjectMeta \<Rightarrow> NamespacedName list" where
  "mapEndpointSlice listByKey ob =
     (if derefString (om_Labels ob ManagedByLabel) = ManagedByLabelValue then []
      else let svcName = derefString (om_Labels ob ServiceNameLabel)
           in if svcName = [] then [] else enqueueForKey listByKey (slicesKey (om_Namespace ob) svcName))"

definition mapRemoteCluster :: "(string \<Rightarrow> CrossService list result) \<Rightarrow> string \<Rightarrow> NamespacedName list" where
  "mapRemoteCluster listByCluster name =
     (case listByCluster name of Inl err \<Rightarrow> [] | Inr items \<Rightarrow> map request_for items)"

text \<open>The index function behind \<^verbatim>\<open>ClusterRefIndex\<close>.\<close>

definition clusterRefKeys :: "CrossService \<Rightarrow> string list" where
  "clusterRefKeys xsvc =
     (case src_ClusterRef (spec_Source (xs_Spec xsvc)) of None \<Rightarrow> [] | Some ref \<Rightarrow> [cr_Name ref])"

section \<open>Remote events\<close>

record RemoteEvent =
  re_Namespace :: string
  re_Name :: string
  re_Cluster :: string
  re_Key :: string

definition mapRemote :: "(string \<Rightarrow> CrossService list result) \<Rightarrow> RemoteEvent \<Rightarrow> NamespacedName list" where
  "mapRemote listByKey ev = enqueueForKey listByKey (remotePrefix (re_Cluster ev) @ re_Key ev)"

text \<open>What an informer delivers: an object, or a tombstone for one whose deletion it missed.\<close>

datatype Delivered = Object ObjectMeta | Tombstone

text \<open>The channel: a buffer of events, with its capacity.\<close>

record EventChannel =
  ec_Buffer :: "RemoteEvent list"
  ec_Capacity :: nat

definition send :: "string \<Rightarrow> (ObjectMeta \<Rightarrow> string) \<Rightarrow> Delivered \<Rightarrow> EventChannel \<Rightarrow> EventChannel" where
  "send clusterName key obj ch =
     (case obj of
        Tombstone \<Rightarrow> ch
      | Object ob \<Rightarrow>
          let k = key ob
          in if k = [] then ch
             else if length (ec_Buffer ch) < ec_Capacity ch then
               ch\<lparr>ec_Buffer := ec_Buffer ch @ [\<lparr>re_Namespace = om_Namespace ob, re_Name = om_Name ob,
                    re_Cluster = clusterName, re_Key = k\<rparr>]\<rparr>
             else ch)"

datatype InformerEvent = Added Delivered | Updated Delivered Delivered | Deleted Delivered

fun remoteHandler :: "string \<Rightarrow> (ObjectMeta \<Rightarrow> string) \<Rightarrow> InformerEvent \<Rightarrow> EventChannel \<Rightarrow> EventChannel" where
  "remoteHandler clusterName key (Added obj) ch = send clusterName key obj ch"
| "remoteHandler clusterName key (Updated old new) ch = send clusterName key new ch"
| "remoteHandler clusterName key (Deleted obj) ch = send clusterName key obj ch"

text \<open>The four kinds that are watched on a remote cluster, and the key of an object of each.\<close>

datatype WatchedKind = PodKind | NodeKind | ServiceKind | EndpointSliceKind

definition watched_kinds :: "WatchedKind list" where
  "watched_kinds = [PodKind, NodeKind, ServiceKind, EndpointSliceKind]"

fun remote_key :: "WatchedKind \<Rightarrow> ObjectMeta \<Rightarrow> string" where
  "remote_key PodKind ob = podsKey (om_Namespace ob)"
| "remote_key NodeKind ob = nodesKey"
| "remote_key ServiceKind ob = serviceKey (om_Namespace ob) (om_Name ob)"
| "remote_key EndpointSliceKind ob =
     (let svc = derefString (om_Labels ob ServiceNameLabel)
      in if svc = [] then [] else slicesKey (om_Namespace ob) svc)"

text \<open>
  \<^verbatim>\<open>RemoteWatcher\<close>: a handler per kind, attached in order until one fails.  \<^verbatim>\<open>GetInformer\<close> and \<^verbatim>\<open>AddEventHandler\<close>
  belong to the library.
\<close>

record 'st InformerLib =
  inf_GetInformer :: "WatchedKind \<Rightarrow> 'st \<Rightarrow> go_error option \<times> 'st"
  inf_AddEventHandler :: "WatchedKind \<Rightarrow> (InformerEvent \<Rightarrow> EventChannel \<Rightarrow> EventChannel) \<Rightarrow> 'st \<Rightarrow> go_error option \<times> 'st"

fun kind_text :: "WatchedKind \<Rightarrow> string" where
  "kind_text PodKind = ''*v1.Pod''"
| "kind_text NodeKind = ''*v1.Node''"
| "kind_text ServiceKind = ''*v1.Service''"
| "kind_text EndpointSliceKind = ''*v1.EndpointSlice''"

fun attach_handlers :: "'st InformerLib \<Rightarrow> string \<Rightarrow> WatchedKind list \<Rightarrow> 'st \<Rightarrow> go_error option \<times> 'st" where
  "attach_handlers lib name [] st = (None, st)"
| "attach_handlers lib name (k # ks) st =
     (case inf_GetInformer lib k st of
        (Some err, st) \<Rightarrow>
          (Some (Wrapped [Lit ''informer for '', Lit (kind_text k), Lit '' on cluster '', Lit name, Lit '': ''] err), st)
      | (None, st) \<Rightarrow>
          (case inf_AddEventHandler lib k (remoteHandler name (remote_key k)) st of
             (Some err, st) \<Rightarrow>
               (Some (Wrapped [Lit ''watching '', Lit (kind_text k), Lit '' on cluster '', Lit name, Lit '': ''] err), st)
           | (None, st) \<Rightarrow> attach_handlers lib name ks st))"

definition RemoteWatcher :: "'st InformerLib \<Rightarrow> string \<Rightarrow> 'st \<Rightarrow> go_error option \<times> 'st" where
  "RemoteWatcher lib name st = attach_handlers lib name watched_kinds st"

text \<open>A connection that starts has a handler on every kind that a source can read.\<close>

lemma attach_handlers_all:
  assumes "\<And>k st err st'. inf_GetInformer lib k st = (err, st') \<Longrightarrow> attached st' = attached st"
    and "\<And>k h st st'. inf_AddEventHandler lib k h st = (None, st') \<Longrightarrow> attached st' = attached st @ [(k, h)]"
    and "attach_handlers lib name ks st = (None, st')"
  shows "attached st' = attached st @ map (\<lambda>k. (k, remoteHandler name (remote_key k))) ks"
  using assms(3)
proof (induction ks arbitrary: st)
  case (Cons k ks)
  from Cons.prems obtain st1 st2 where "inf_GetInformer lib k st = (None, st1)"
    "inf_AddEventHandler lib k (remoteHandler name (remote_key k)) st1 = (None, st2)" "attach_handlers lib name ks st2 = (None, st')"
    by (auto split: prod.splits option.splits)
  then show ?case using Cons.IH assms(1,2) by fastforce
qed simp

section \<open>Lemmas: keys are unambiguous\<close>

text \<open>Names that the API server accepts have neither of the two separators.\<close>

definition plain :: "string \<Rightarrow> bool" where
  "plain s \<longleftrightarrow> CHR ''|'' \<notin> set s \<and> CHR ''/'' \<notin> set s"

text \<open>What a source reads, stated without keys.\<close>

fun reads_kind :: "Source \<Rightarrow> WatchedKind \<Rightarrow> ObjectMeta \<Rightarrow> bool" where
  "reads_kind src PodKind ob \<longleftrightarrow>
     src_Type src = SourceTypePods \<and>
     (case src_Pods src of None \<Rightarrow> False | Some p \<Rightarrow> ps_Namespace p = om_Namespace ob)"
| "reads_kind src NodeKind ob \<longleftrightarrow>
     src_Type src = SourceTypeNodes \<or>
     src_Type src = SourceTypeService \<and>
     (case src_Service src of None \<Rightarrow> False | Some s \<Rightarrow> svs_Via s = ServiceExposureNodePort)"
| "reads_kind src ServiceKind ob \<longleftrightarrow>
     src_Type src = SourceTypeService \<and>
     (case src_Service src of None \<Rightarrow> False
      | Some s \<Rightarrow> svs_Namespace s = om_Namespace ob \<and> svs_Name s = om_Name ob)"
| "reads_kind src EndpointSliceKind ob \<longleftrightarrow>
     src_Type src = SourceTypeService \<and>
     (case src_Service src of None \<Rightarrow> False
      | Some s \<Rightarrow> svs_Via s = ServiceExposurePodIP \<and> svs_Namespace s = om_Namespace ob \<and>
          om_Labels ob ServiceNameLabel = Some (svs_Name s) \<and> svs_Name s \<noteq> [])"

definition plain_source :: "Source \<Rightarrow> bool" where
  "plain_source src \<longleftrightarrow>
     pred_option (\<lambda>r. plain (cr_Name r)) (src_ClusterRef src) \<and> pred_option (\<lambda>p. plain (ps_Namespace p)) (src_Pods src) \<and>
     pred_option (\<lambda>s. plain (svs_Namespace s) \<and> plain (svs_Name s)) (src_Service src)"

definition plain_object :: "ObjectMeta \<Rightarrow> bool" where
  "plain_object ob \<longleftrightarrow> plain (om_Namespace ob) \<and> plain (om_Name ob) \<and> pred_option plain (om_Labels ob ServiceNameLabel)"

lemmas key_defs = podsKey_def nodesKey_def nodesIndexKey_def serviceKey_def slicesKey_def

lemma pair_key_eq: "plain a \<Longrightarrow> plain c \<Longrightarrow> a @ ''/'' @ b = c @ ''/'' @ d \<longleftrightarrow> a = c \<and> b = d"
  using append_sep_eq [of "CHR ''/''" a c b d] by (simp add: plain_def)

lemma keys_apart [simp]:
  "podsKey a = podsKey b \<longleftrightarrow> a = b" "podsKey a \<noteq> nodesKey" "nodesKey \<noteq> podsKey a" "podsKey a \<noteq> serviceKey b c"
  "serviceKey b c \<noteq> podsKey a" "podsKey a \<noteq> slicesKey b c" "slicesKey b c \<noteq> podsKey a" "nodesKey \<noteq> serviceKey b c"
  "serviceKey b c \<noteq> nodesKey" "nodesKey \<noteq> slicesKey b c" "slicesKey b c \<noteq> nodesKey" "serviceKey b c \<noteq> slicesKey d e"
  "slicesKey d e \<noteq> serviceKey b c" "podsKey a \<noteq> []" "nodesKey \<noteq> []" "serviceKey b c \<noteq> []" "slicesKey b c \<noteq> []"
  by (simp_all add: key_defs)

lemma pair_keys_eq:
  "plain a \<Longrightarrow> plain c \<Longrightarrow> serviceKey a b = serviceKey c d \<longleftrightarrow> a = c \<and> b = d"
  "plain a \<Longrightarrow> plain c \<Longrightarrow> slicesKey a b = slicesKey c d \<longleftrightarrow> a = c \<and> b = d"
  using pair_key_eq [of a c b d] by (simp_all add: key_defs)

lemma mem_branches:
  "x \<in> set (if b then xs else ys) \<longleftrightarrow> (if b then x \<in> set xs else x \<in> set ys)"
  "x \<in> set (case m of None \<Rightarrow> xs | Some y \<Rightarrow> f y) \<longleftrightarrow> (case m of None \<Rightarrow> x \<in> set xs | Some y \<Rightarrow> x \<in> set (f y))"
  by (cases b, simp_all) (cases m, simp_all)

lemma local_key_iff:
  "x \<in> set (localSourceRefKeys src) \<longleftrightarrow>
     (if src_Type src = SourceTypePods then (case src_Pods src of None \<Rightarrow> False | Some p \<Rightarrow> x = podsKey (ps_Namespace p))
      else if src_Type src = SourceTypeNodes then x = nodesKey
      else if src_Type src = SourceTypeService then
        (case src_Service src of None \<Rightarrow> False
         | Some s \<Rightarrow> x = serviceKey (svs_Namespace s) (svs_Name s) \<or>
             (if svs_Via s = ServiceExposureNodePort then x = nodesKey
              else if svs_Via s = ServiceExposurePodIP then x = slicesKey (svs_Namespace s) (svs_Name s) else False))
      else False)"
  by (simp only: localSourceRefKeys_def mem_branches set_append list.set Un_iff insert_iff empty_iff simp_thms)

lemma local_keys:
  assumes "plain_source src" and "plain_object ob"
  shows "remote_key k ob \<noteq> [] \<and> remote_key k ob \<in> set (localSourceRefKeys src) \<longleftrightarrow> reads_kind src k ob"
proof -
  have svc: "plain (svs_Namespace s)" "plain (svs_Name s)" if "src_Service src = Some s" for s
    using assms(1) that by (simp_all add: plain_source_def)
  have ob: "plain (om_Namespace ob)" using assms(2) by (simp add: plain_object_def)
  show ?thesis
    unfolding local_key_iff using svc ob
    by (cases k; cases "om_Labels ob ServiceNameLabel"; cases "src_Pods src"; cases "src_Service src")
       (auto simp: Let_def derefString_def pair_keys_eq)
qed

lemma local_key_shape: "k \<in> set (localSourceRefKeys src) \<Longrightarrow> take 7 k \<noteq> ''remote|''"
  unfolding local_key_iff by (auto simp: key_defs split: option.splits if_splits)

lemma remote_key_shape: "take 7 (remote_key k ob) \<noteq> ''remote|''"
  by (cases k) (auto simp: key_defs Let_def)

lemma remote_prefix_eq:
  assumes "plain c" and "plain d"
  shows "remotePrefix c @ k = remotePrefix d @ l \<longleftrightarrow> c = d \<and> k = l"
  using append_sep_eq [of "CHR ''|''" c d k l] assms by (simp add: remotePrefix_def plain_def)


lemma source_key_remote:
  assumes "plain_source (spec_Source (xs_Spec x))" and "plain c" and "take 7 key \<noteq> ''remote|''"
  shows "remotePrefix c @ key \<in> set (sourceRefKeys x) \<longleftrightarrow>
     map_option cr_Name (src_ClusterRef (spec_Source (xs_Spec x))) = Some c \<and>
     key \<in> set (localSourceRefKeys (spec_Source (xs_Spec x)))"
proof (cases "src_ClusterRef (spec_Source (xs_Spec x))")
  case None
  have "remotePrefix c @ key \<notin> set (localSourceRefKeys (spec_Source (xs_Spec x)))"
    using local_key_shape [of "remotePrefix c @ key"] by (auto simp: remotePrefix_def)
  then show ?thesis by (simp add: sourceRefKeys_def None)
next
  case (Some r)
  then have "plain (cr_Name r)" using assms(1) by (simp add: plain_source_def)
  then show ?thesis
    using remote_prefix_eq [OF assms(2)] by (auto simp: sourceRefKeys_def Some)
qed

lemma source_key_local:
  assumes "take 7 key \<noteq> ''remote|''"
  shows "key \<in> set (sourceRefKeys x) \<longleftrightarrow>
     src_ClusterRef (spec_Source (xs_Spec x)) = None \<and> key \<in> set (localSourceRefKeys (spec_Source (xs_Spec x)))"
  using assms by (cases "src_ClusterRef (spec_Source (xs_Spec x))") (auto simp: sourceRefKeys_def remotePrefix_def)

section \<open>Properties\<close>

text \<open>The law of the indexed list: the stored objects whose index function yields the key.\<close>

definition index_ok :: "(CrossService \<Rightarrow> string list) \<Rightarrow> CrossService set \<Rightarrow> (string \<Rightarrow> CrossService list result) \<Rightarrow> bool" where
  "index_ok keys stored listByKey \<longleftrightarrow>
     (\<forall>key items. listByKey key = Inr items \<longrightarrow> set items = {x \<in> stored. key \<in> set (keys x)})"

lemma enqueue_set:
  "index_ok keys stored f \<Longrightarrow> f key = Inr items \<Longrightarrow> set (enqueueForKey f key) = request_for ` {x \<in> stored. key \<in> set (keys x)}"
  by (simp add: enqueueForKey_def index_ok_def)

text \<open>
  An event from a remote cluster is routed exactly.  It enqueues the CrossServices that are bound to that very
  cluster and whose source reads the object: none bound to another cluster or to the local one, even when
  namespaces and names agree.
\<close>

theorem remote_event_routed:
  assumes "index_ok sourceRefKeys stored listByKey" and "\<forall>x\<in>stored. plain_source (spec_Source (xs_Spec x))"
    and "plain c" and "plain_object ob" and "remote_key k ob \<noteq> []"
    and "listByKey (remotePrefix c @ remote_key k ob) = Inr items"
  shows "set (mapRemote listByKey \<lparr>re_Namespace = om_Namespace ob, re_Name = om_Name ob, re_Cluster = c, re_Key = remote_key k ob\<rparr>) =
     request_for ` {x \<in> stored. map_option cr_Name (src_ClusterRef (spec_Source (xs_Spec x))) = Some c \<and>
       reads_kind (spec_Source (xs_Spec x)) k ob}"
proof -
  have "remotePrefix c @ remote_key k ob \<in> set (sourceRefKeys x) \<longleftrightarrow>
      map_option cr_Name (src_ClusterRef (spec_Source (xs_Spec x))) = Some c \<and> reads_kind (spec_Source (xs_Spec x)) k ob"
    if "x \<in> stored" for x
    using source_key_remote [OF _ assms(3) remote_key_shape] local_keys [OF _ assms(4)] assms(2,5) that by blast
  then show ?thesis
    using enqueue_set [OF assms(1,6)] by (auto simp: mapRemote_def)
qed

text \<open>The map function that is registered for each kind on the local cluster.\<close>

fun local_map :: "WatchedKind \<Rightarrow> (string \<Rightarrow> CrossService list result) \<Rightarrow> ObjectMeta \<Rightarrow> NamespacedName list" where
  "local_map PodKind = mapPod"
| "local_map NodeKind = mapNode"
| "local_map ServiceKind = mapService"
| "local_map EndpointSliceKind = mapEndpointSlice"

lemma local_map_key:
  assumes "derefString (om_Labels ob ManagedByLabel) \<noteq> ManagedByLabelValue \<or> k \<noteq> EndpointSliceKind"
  shows "local_map k f ob = (if remote_key k ob = [] then [] else enqueueForKey f (remote_key k ob))"
  using assms by (cases k) (auto simp: mapPod_def mapNode_def mapService_def mapEndpointSlice_def Let_def)

text \<open>
  An event of the local cluster is routed exactly, too: to the CrossServices without a cluster reference whose source
  reads the object.  The one exception are the slices that the controller itself wrote, whose events enqueue
  nothing, so that a CrossService that consumes its own output does not spin.
\<close>

theorem local_event_routed:
  assumes "index_ok sourceRefKeys stored listByKey" and "\<forall>x\<in>stored. plain_source (spec_Source (xs_Spec x))"
    and "plain_object ob" and "\<forall>key. \<exists>items. listByKey key = Inr items"
  shows "set (local_map k listByKey ob) =
     (if k = EndpointSliceKind \<and> derefString (om_Labels ob ManagedByLabel) = ManagedByLabelValue then {}
      else request_for ` {x \<in> stored. src_ClusterRef (spec_Source (xs_Spec x)) = None \<and> reads_kind (spec_Source (xs_Spec x)) k ob})"
proof (cases "k = EndpointSliceKind \<and> derefString (om_Labels ob ManagedByLabel) = ManagedByLabelValue")
  case True
  then show ?thesis by (simp add: mapEndpointSlice_def)
next
  case False
  have reads: "remote_key k ob \<noteq> [] \<and> remote_key k ob \<in> set (sourceRefKeys x) \<longleftrightarrow>
      src_ClusterRef (spec_Source (xs_Spec x)) = None \<and> reads_kind (spec_Source (xs_Spec x)) k ob"
    if "x \<in> stored" for x
    using source_key_local [OF remote_key_shape] local_keys [OF _ assms(3)] assms(2) that by blast
  show ?thesis
  proof (cases "remote_key k ob = []")
    case True
    have "{x \<in> stored. src_ClusterRef (spec_Source (xs_Spec x)) = None \<and> reads_kind (spec_Source (xs_Spec x)) k ob} = {}"
      using reads True by blast
    moreover have "local_map k listByKey ob = []" using False True local_map_key [of ob k listByKey] by auto
    ultimately show ?thesis using False by auto
  next
    case nonempty: False
    obtain items where "listByKey (remote_key k ob) = Inr items" using assms(4) by blast
    then have "set (enqueueForKey listByKey (remote_key k ob)) =
        request_for ` {x \<in> stored. src_ClusterRef (spec_Source (xs_Spec x)) = None \<and> reads_kind (spec_Source (xs_Spec x)) k ob}"
      using enqueue_set [OF assms(1)] nonempty reads by auto
    moreover have "local_map k listByKey ob = enqueueForKey listByKey (remote_key k ob)"
      using False nonempty local_map_key [of ob k listByKey] by auto
    ultimately show ?thesis using False by auto
  qed
qed

text \<open>
  What an informer delivers reaches the channel as one event with the cluster's name and the object's key, when
  there is room, the object has a key and it is not a tombstone; otherwise the channel is as before.  The buffer never
  grows past its capacity, so a handler never blocks.
\<close>

theorem remoteHandler_delivers:
  assumes "length (ec_Buffer ch) \<le> ec_Capacity ch" and "ch' = remoteHandler c key ev ch"
  shows "length (ec_Buffer ch') \<le> ec_Capacity ch' \<and>
     ch' = ch\<lparr>ec_Buffer := ec_Buffer ch @
       (case (case ev of Added d \<Rightarrow> d | Updated d d' \<Rightarrow> d' | Deleted d \<Rightarrow> d) of
          Tombstone \<Rightarrow> []
        | Object ob \<Rightarrow>
            if key ob \<noteq> [] \<and> length (ec_Buffer ch) < ec_Capacity ch
            then [\<lparr>re_Namespace = om_Namespace ob, re_Name = om_Name ob, re_Cluster = c, re_Key = key ob\<rparr>] else [])\<rparr>"
  using assms by (cases ev) (auto simp: send_def Let_def split: Delivered.split)

section \<open>Witnesses\<close>

definition demo_object :: ObjectMeta where
  "demo_object = \<lparr>om_Namespace = ''shop'', om_Name = ''web-0'', om_Labels = Map.empty\<rparr>"

definition demo_pods_in :: "string option \<Rightarrow> CrossService" where
  "demo_pods_in c = demo_admitted\<lparr>xs_Name := (case c of None \<Rightarrow> ''local'' | Some n \<Rightarrow> n),
     xs_Spec := (xs_Spec demo_admitted)\<lparr>spec_Source := zero_source\<lparr>src_Type := SourceTypePods,
       src_ClusterRef := map_option (\<lambda>n. \<lparr>cr_Name = n\<rparr>) c,
       src_Pods := Some \<lparr>ps_Namespace = ''shop'', ps_Selector = None, ps_Names = [''web-0''], ps_IncludeTerminating = False,
         ps_PropagateZone = None\<rparr>\<rparr>\<rparr>\<rparr>"

definition demo_stored :: "CrossService list" where
  "demo_stored = [demo_pods_in None, demo_pods_in (Some ''east''), demo_pods_in (Some ''west'')]"

definition demo_list :: "string \<Rightarrow> CrossService list result" where
  "demo_list key = Inr (filter (\<lambda>x. key \<in> set (sourceRefKeys x)) demo_stored)"

lemma demo_index_ok: "index_ok sourceRefKeys (set demo_stored) demo_list"
  by (simp add: index_ok_def demo_list_def)

lemma demo_plain: "\<forall>x\<in>set demo_stored. plain_source (spec_Source (xs_Spec x))" "plain_object demo_object"
  by (simp_all add: demo_stored_def demo_pods_in_def plain_source_def plain_def zero_source_def plain_object_def demo_object_def)

lemma demo_readers:
  "{x \<in> set demo_stored. map_option cr_Name (src_ClusterRef (spec_Source (xs_Spec x))) = Some ''east'' \<and>
      reads_kind (spec_Source (xs_Spec x)) PodKind demo_object} = {demo_pods_in (Some ''east'')}"
  "{x \<in> set demo_stored. src_ClusterRef (spec_Source (xs_Spec x)) = None \<and>
      reads_kind (spec_Source (xs_Spec x)) PodKind demo_object} = {demo_pods_in None}"
  by (auto simp: demo_stored_def demo_pods_in_def zero_source_def demo_object_def)

lemma remoteHandler_delivers_witness:
  "let ch = remoteHandler ''east'' (remote_key NodeKind) (Deleted (Object demo_object)) \<lparr>ec_Buffer = [], ec_Capacity = 1\<rparr>
   in length (ec_Buffer ch) = 1 \<and> remoteHandler ''east'' (remote_key NodeKind) (Added (Object demo_object)) ch = ch"
proof -
  let ?h = "remoteHandler ''east'' (remote_key NodeKind)"
  let ?ch = "?h (Deleted (Object demo_object)) \<lparr>ec_Buffer = [], ec_Capacity = 1\<rparr>"
  have one: "length (ec_Buffer ?ch) \<le> ec_Capacity ?ch \<and> length (ec_Buffer ?ch) = 1 \<and> ec_Capacity ?ch = 1"
    using remoteHandler_delivers [of "\<lparr>ec_Buffer = [], ec_Capacity = 1\<rparr>" ?ch "''east''" "remote_key NodeKind"
        "Deleted (Object demo_object)"] by (simp add: send_def)
  then show ?thesis
    using remoteHandler_delivers [of ?ch "?h (Added (Object demo_object)) ?ch" "''east''" "remote_key NodeKind"
        "Added (Object demo_object)"] by (simp add: Let_def)
qed

end
