(* ===== verification/RemoteCluster_Controller.thy ===== *)
theory RemoteCluster_Controller
  imports CrossService_Controller
begin

text \<open>
  \<^verbatim>\<open>internal/controller/remotecluster_controller.go\<close>: one reconciliation of a RemoteCluster (build the
  connection, probe it, report), its finalizer, and the map from a changed Secret to the clusters that read it.

  The API client and the discovery client are parameters; an update returns the object as the server stored it,
  which the Go client writes back into its argument.
\<close>

section \<open>Model\<close>

record 'st RemoteClusterReconciler =
  rcr_Get :: "string \<Rightarrow> 'st \<Rightarrow> RemoteCluster result"
  rcr_Update :: "RemoteCluster \<Rightarrow> 'st \<Rightarrow> RemoteCluster result \<times> 'st"
  rcr_UpdateStatus :: "RemoteCluster \<Rightarrow> 'st \<Rightarrow> go_error option \<times> 'st"
  rcr_ListBySecret :: "string \<Rightarrow> 'st \<Rightarrow> RemoteCluster list result"
  rcr_Builder :: Builder
  rcr_ProbeInterval :: duration
  rcr_Now :: time

record ClusterLib =
  clib_auth :: AuthLib
  clib_discovery :: "RestConfig \<Rightarrow> string result result"
  clib_statusEqual :: "RemoteClusterStatus \<Rightarrow> RemoteClusterStatus \<Rightarrow> bool"

text \<open>
  \<^verbatim>\<open>clusters.Probe\<close>: making the discovery client may fail, and so may asking the server for its version.
\<close>

definition Probe :: "(RestConfig \<Rightarrow> string result result) \<Rightarrow> RestConfig \<Rightarrow> string result" where
  "Probe discoveryClient cfg =
     (case discoveryClient cfg of
        Inl err \<Rightarrow> Inl err
      | Inr serverVersion \<Rightarrow> (case serverVersion of Inl err \<Rightarrow> Inl err | Inr v \<Rightarrow> Inr v))"

definition probeInterval :: "'st RemoteClusterReconciler \<Rightarrow> duration" where
  "probeInterval r = (if 0 < rcr_ProbeInterval r then rcr_ProbeInterval r else 5 * Minute)"

definition cluster_writeStatus ::
    "ClusterLib \<Rightarrow> 'st RemoteClusterReconciler \<Rightarrow> RemoteCluster \<Rightarrow> RemoteClusterStatus \<Rightarrow> 'st World \<Rightarrow> go_error option \<times> 'st World" where
  "cluster_writeStatus lib r rc status w =
     (let status = status\<lparr>rst_Conditions := observe (rc_Generation rc) (rst_Conditions status)\<rparr>
      in if clib_statusEqual lib (rc_Status rc) status then (None, w)
         else (case rcr_UpdateStatus r (rc\<lparr>rc_Status := status\<rparr>) (wd_api w) of
                 (None, api) \<Rightarrow> (None, w\<lparr>wd_api := api\<rparr>)
               | (Some err, api) \<Rightarrow>
                   (if IsConflict err then None else Some (Wrapped [Lit ''updating RemoteCluster status: ''] err), w\<lparr>wd_api := api\<rparr>)))"

definition cluster_finalize :: "'st RemoteClusterReconciler \<Rightarrow> RemoteCluster \<Rightarrow> 'st World \<Rightarrow> go_error option \<times> 'st World" where
  "cluster_finalize r rc w =
     (let w = w\<lparr>wd_cache := Invalidate (rc_Name rc) (wd_cache w)\<rparr>
      in if RemoteClusterFinalizer \<in> set (rc_Finalizers rc) then
           (case rcr_Update r (rc\<lparr>rc_Finalizers := removeAll RemoteClusterFinalizer (rc_Finalizers rc)\<rparr>) (wd_api w) of
              (Inl err, api) \<Rightarrow> (Some err, w\<lparr>wd_api := api\<rparr>)
            | (Inr rc, api) \<Rightarrow> (None, w\<lparr>wd_api := api\<rparr>))
         else (None, w))"

text \<open>The status that is reported, and when to run again.\<close>

definition cluster_report ::
    "ClusterLib \<Rightarrow> 'st RemoteClusterReconciler \<Rightarrow> CacheState \<Rightarrow> RemoteCluster \<Rightarrow> RemoteClusterStatus \<times> duration" where
  "cluster_report lib r cache rc =
     (let now = rcr_Now r;
          status = (rc_Status rc)\<lparr>rst_ObservedGeneration := rc_Generation rc,
            rst_ConsumerCount := to_int32 (int (Consumers (rc_Name rc) cache))\<rparr>
      in case Builder_Build (clib_auth lib) (rcr_Builder r) rc of
           Inl err \<Rightarrow>
             let reason = reasonForClusterError err
             in (cluster_set now ConditionReady ConditionFalse reason (Error err)
                   (cluster_set now ConditionAuthenticated ConditionFalse reason (Error err) status), 0)
         | Inr built \<Rightarrow>
             let status = (cluster_set now ConditionAuthenticated ConditionTrue ''Authenticated'' [Lit ''credentials resolved''] status)
                   \<lparr>rst_Endpoint := cfg_Host (br_Config built)\<rparr>
             in case Probe (clib_discovery lib) (br_Config built) of
                  Inl err \<Rightarrow>
                    (cluster_set now ConditionReady ConditionFalse ReasonNetworkUnreachable (Error err)
                       (cluster_set now ConditionReachable ConditionFalse ReasonNetworkUnreachable (Error err) status),
                     probeInterval r)
                | Inr version \<Rightarrow>
                    let status = status\<lparr>rst_KubernetesVersion := version, rst_LastProbeTime := Some now\<rparr>
                    in (cluster_set now ConditionReady ConditionTrue ''Ready'' [Lit ''cluster is reachable and authenticated'']
                          (cluster_set now ConditionReachable ConditionTrue ''Reachable'' [Lit ''apiserver responded''] status),
                        probeInterval r))"

definition Cluster_Reconcile ::
    "ClusterLib \<Rightarrow> 'st RemoteClusterReconciler \<Rightarrow> string \<Rightarrow> 'st World \<Rightarrow> 'st reconciled" where
  "Cluster_Reconcile lib r name w =
     (case rcr_Get r name (wd_api w) of
        Inl err \<Rightarrow> ((0, if IsNotFound err then None else Some err), w)
      | Inr rc \<Rightarrow>
          if rc_DeletionTimestamp rc \<noteq> None then
            (case cluster_finalize r rc w of (err, w) \<Rightarrow> ((0, err), w))
          else
            (case (if RemoteClusterFinalizer \<in> set (rc_Finalizers rc) then (Inr rc, wd_api w)
                   else rcr_Update r (rc\<lparr>rc_Finalizers := rc_Finalizers rc @ [RemoteClusterFinalizer]\<rparr>) (wd_api w)) of
               (Inl err, api) \<Rightarrow> ((0, Some err), w\<lparr>wd_api := api\<rparr>)
             | (Inr rc, api) \<Rightarrow>
                 (case cluster_report lib r (wd_cache w) rc of (status, after) \<Rightarrow>
                    (case cluster_writeStatus lib r rc status (w\<lparr>wd_api := api\<rparr>) of
                       (err, w) \<Rightarrow> ((after, err), w)))))"

text \<open>A changed Secret: every cluster that reads it loses its connection and is reconciled.\<close>

definition mapSecretToClusters :: "'st RemoteClusterReconciler \<Rightarrow> string \<Rightarrow> 'st World \<Rightarrow> NamespacedName list \<times> 'st World" where
  "mapSecretToClusters r secret w =
     (case rcr_ListBySecret r secret (wd_api w) of
        Inl err \<Rightarrow> ([], w)
      | Inr items \<Rightarrow>
          foldl (\<lambda>(out, w) rc. (out @ [\<lparr>nn_Namespace = [], nn_Name = rc_Name rc\<rparr>],
                   w\<lparr>wd_cache := Invalidate (rc_Name rc) (wd_cache w)\<rparr>)) ([], w) items)"

definition inNamespace :: "string \<Rightarrow> string \<Rightarrow> bool" where
  "inNamespace ns objectNamespace \<longleftrightarrow> objectNamespace = ns"

section \<open>Lemmas\<close>

lemma map_of_Invalidate: "map_of (cs_entries (Invalidate name st)) = (map_of (cs_entries st))(name := None)"
  by (auto simp: Invalidate_def fun_eq_iff split: option.split)

lemma invalidate_fold:
  fixes w :: "'st World"
  shows "map_of (cs_entries (wd_cache (snd (foldl (\<lambda>(out, w) rc. (out @ [\<lparr>nn_Namespace = [], nn_Name = rc_Name rc\<rparr>],
       w\<lparr>wd_cache := Invalidate (rc_Name rc) (wd_cache w)\<rparr>)) (out, w) items)))) n =
     (if n \<in> rc_Name ` set items then None else map_of (cs_entries (wd_cache w)) n)"
    and "fst (foldl (\<lambda>(out, w) rc. (out @ [\<lparr>nn_Namespace = [], nn_Name = rc_Name rc\<rparr>],
       w\<lparr>wd_cache := Invalidate (rc_Name rc) (wd_cache w)\<rparr>)) (out, w) items) =
     out @ map (\<lambda>rc. \<lparr>nn_Namespace = [], nn_Name = rc_Name rc\<rparr>) items"
  by (induction items arbitrary: out w) (auto simp: map_of_Invalidate)

section \<open>Properties\<close>

text \<open>
  A cluster is reported ready exactly when its connection could be built and its server answered the probe, and it is
  then probed again after a positive interval; the number of consumers is the one of the cache.
\<close>

theorem cluster_report_ready:
  "case cluster_report lib r cache rc of (status, after) \<Rightarrow>
     rst_ConsumerCount status = to_int32 (int (Consumers (rc_Name rc) cache)) \<and>
     (\<exists>c. condition_in (rst_Conditions status) ConditionReady = Some c \<and>
        (sc_Status c = ConditionTrue \<longleftrightarrow>
           (\<exists>built v. Builder_Build (clib_auth lib) (rcr_Builder r) rc = Inr built \<and>
              Probe (clib_discovery lib) (br_Config built) = Inr v))) \<and>
     (0 < after \<longleftrightarrow> (\<exists>built. Builder_Build (clib_auth lib) (rcr_Builder r) rc = Inr built))"
proof -
  have counts: "rst_ConsumerCount (cluster_set now ty s re m st) = rst_ConsumerCount st" for now ty s re m st
    by (simp add: cluster_set_def)
  have pos: "0 < probeInterval r" by (simp add: probeInterval_def Minute_def Second_def)
  show ?thesis
    unfolding cluster_report_def Let_def
    by (auto simp: cluster_conditions.lookup_update counts pos split: sum.splits)
qed

text \<open>
  A connection that cannot be built is reported once and not tried again on a timer, whatever the reason: the report
  asks for no requeue and leaves the condition \<^verbatim>\<open>Reachable\<close> as it was.
\<close>

theorem build_failure_not_retried:
  assumes "Builder_Build (clib_auth lib) (rcr_Builder r) rc = Inl err"
  shows "snd (cluster_report lib r cache rc) = 0 \<and>
     condition_in (rst_Conditions (fst (cluster_report lib r cache rc))) ConditionReachable =
       condition_in (rst_Conditions (rc_Status rc)) ConditionReachable"
  using assms by (simp add: cluster_report_def Let_def cluster_conditions.lookup_update)

text \<open>
  A RemoteCluster that is being deleted loses its cached connection before its finalizer is removed, and no other
  cluster's connection is touched; the object is updated only to remove the finalizer.
\<close>

theorem finalize_drops_connection:
  assumes "rcr_Get r name (wd_api w) = Inr rc" and "rc_DeletionTimestamp rc \<noteq> None"
    and "Cluster_Reconcile lib r name w = (res, w')"
  shows "\<not> live (wd_cache w') (rc_Name rc) \<and>
     (\<forall>n. n \<noteq> rc_Name rc \<longrightarrow> map_of (cs_entries (wd_cache w')) n = map_of (cs_entries (wd_cache w)) n) \<and>
     wd_api w' = (if RemoteClusterFinalizer \<in> set (rc_Finalizers rc)
       then snd (rcr_Update r (rc\<lparr>rc_Finalizers := removeAll RemoteClusterFinalizer (rc_Finalizers rc)\<rparr>) (wd_api w))
       else wd_api w)"
  using assms
  by (auto simp: Cluster_Reconcile_def cluster_finalize_def Let_def live_def map_of_Invalidate
      split: if_splits prod.splits sum.splits)

text \<open>
  C39: rotating a Secret reaches every cluster that the index lists for it, and only those: each gets a request, its cached
  connection is gone, and every other cluster keeps its own.
\<close>

theorem secret_rotation_invalidates:
  assumes "rcr_ListBySecret r secret (wd_api w) = Inr items" and "set items = {rc \<in> stored. secret \<in> set (SecretRefs rc)}" and "mapSecretToClusters r secret w = (out, w')"
  shows "set (map nn_Name out) = rc_Name ` {rc \<in> stored. secret \<in> set (SecretRefs rc)} \<and>
     (\<forall>n. map_of (cs_entries (wd_cache w')) n =
        (if n \<in> rc_Name ` {rc \<in> stored. secret \<in> set (SecretRefs rc)} then None else map_of (cs_entries (wd_cache w)) n)) \<and>
     length out = length items"
proof -
  let ?f = "foldl (\<lambda>(out, w) rc. (out @ [\<lparr>nn_Namespace = [], nn_Name = rc_Name rc\<rparr>],
       w\<lparr>wd_cache := Invalidate (rc_Name rc) (wd_cache w)\<rparr>)) ([], w) items"
  have f: "?f = (out, w')" using assms(1,3) by (simp add: mapSecretToClusters_def)
  have "out = map (\<lambda>rc. \<lparr>nn_Namespace = [], nn_Name = rc_Name rc\<rparr>) items"
    using invalidate_fold(2) [of "[]" w items] f by simp
  moreover have "map_of (cs_entries (wd_cache w')) n = (if n \<in> rc_Name ` set items then None else map_of (cs_entries (wd_cache w)) n)" for n
    using invalidate_fold(1) [of "[]" w items n] f by simp
  ultimately show ?thesis using assms(2) by (auto simp: comp_def)
qed


section \<open>Witnesses\<close>

definition demo_cluster_lib :: ClusterLib where
  "demo_cluster_lib = \<lparr>clib_auth = demo_lib, clib_discovery = (\<lambda>cfg. Inr (Inr ''v1.31.0'')), clib_statusEqual = (=)\<rparr>"

definition demo_cluster_reconciler :: "RemoteCluster list \<Rightarrow> RemoteCluster list RemoteClusterReconciler" where
  "demo_cluster_reconciler stored =
     \<lparr>rcr_Get = (\<lambda>n st. case find (\<lambda>rc. rc_Name rc = n) stored of None \<Rightarrow> Inl (NotFoundError []) | Some rc \<Rightarrow> Inr rc),
      rcr_Update = (\<lambda>rc st. (Inr rc, st @ [rc])), rcr_UpdateStatus = (\<lambda>rc st. (None, st)),
      rcr_ListBySecret = (\<lambda>s st. Inr (filter (\<lambda>rc. s \<in> set (SecretRefs rc)) stored)),
      rcr_Builder = demo_builder, rcr_ProbeInterval = 0, rcr_Now = 7\<rparr>"

definition demo_cluster_world :: "RemoteCluster list World" where
  "demo_cluster_world = \<lparr>wd_api = [], wd_cache = demo_held, wd_events = []\<rparr>"

lemma build_failure_not_retried_witness:
  "snd (cluster_report demo_cluster_lib (demo_cluster_reconciler []) demo_held
     (cluster_with ''east'' (zero_access\<lparr>ca_Type := AccessTypeEKS\<rparr>))) = 0"
proof -
  have "Builder_Build (clib_auth demo_cluster_lib) (rcr_Builder (demo_cluster_reconciler []))
      (cluster_with ''east'' (zero_access\<lparr>ca_Type := AccessTypeEKS\<rparr>)) = Inl (ErrAccessTypeNotImplemented AccessTypeEKS)"
    by (simp add: Builder_Build_def cluster_with_def zero_access_def checkTLSPermitted_def build_access_def Let_def bindR_def checkR_def)
  from build_failure_not_retried [OF this] show ?thesis by simp
qed

lemma demo_held_live: "map_of (cs_entries demo_held) ''east'' \<noteq> None"
  by (simp add: demo_held_def)

lemma finalize_drops_connection_witness:
  "let rc = cluster_with ''east'' zero_access\<lparr>rc_DeletionTimestamp := Some 3\<rparr>;
       w' = snd (Cluster_Reconcile demo_cluster_lib (demo_cluster_reconciler [rc]) ''east'' demo_cluster_world)
   in live demo_held ''east'' \<and> \<not> live (wd_cache w') ''east''"
proof -
  let ?rc = "cluster_with ''east'' zero_access\<lparr>rc_DeletionTimestamp := Some 3\<rparr>"
  have "rcr_Get (demo_cluster_reconciler [?rc]) ''east'' (wd_api demo_cluster_world) = Inr ?rc"
    by (simp add: demo_cluster_reconciler_def cluster_with_def)
  moreover have "rc_DeletionTimestamp ?rc \<noteq> None" by simp
  ultimately have "\<not> live (wd_cache (snd (Cluster_Reconcile demo_cluster_lib (demo_cluster_reconciler [?rc]) ''east'' demo_cluster_world)))
      (rc_Name ?rc)"
    using finalize_drops_connection [of "demo_cluster_reconciler [?rc]" "''east''" demo_cluster_world ?rc] prod.collapse by metis
  then show ?thesis using demo_held_live by (simp add: Let_def live_def cluster_with_def)
qed

lemma secret_rotation_invalidates_witness:
  "let w' = snd (mapSecretToClusters (demo_cluster_reconciler [demo_token_cluster]) ''east-token'' demo_cluster_world)
   in live demo_held ''east'' \<and> \<not> live (wd_cache w') ''east''"
proof -
  let ?r = "demo_cluster_reconciler [demo_token_cluster]" and ?s = "''east-token''"
  obtain out w' where run: "mapSecretToClusters ?r ?s demo_cluster_world = (out, w')" by fastforce
  have refs: "?s \<in> set (SecretRefs demo_token_cluster)" by code_simp
  have list: "rcr_ListBySecret ?r ?s (wd_api demo_cluster_world) = Inr [demo_token_cluster]"
    using refs by (simp add: demo_cluster_reconciler_def)
  have one: "{rc \<in> {demo_token_cluster}. ?s \<in> set (SecretRefs rc)} = {demo_token_cluster}" using refs by blast
  have "set [demo_token_cluster] = {rc \<in> {demo_token_cluster}. ?s \<in> set (SecretRefs rc)}" unfolding one by simp
  from secret_rotation_invalidates [OF list this run] have "map_of (cs_entries (wd_cache w')) ''east'' =
      (if ''east'' \<in> rc_Name ` {demo_token_cluster} then None else map_of (cs_entries (wd_cache demo_cluster_world)) ''east'')"
    unfolding one by blast
  then show ?thesis
    using refs run demo_held_live by (simp add: Let_def live_def demo_token_cluster_def cluster_with_def image_iff)
qed

end
