(* ===== verification/Resolver_Nodes.thy ===== *)
theory Resolver_Nodes
  imports Resolver_Pods
begin

text \<open>
  \<^verbatim>\<open>internal/resolver/nodes.go\<close>: Node addresses for a port on the node itself, and the
  selection of nodes that the NodePort exposure of a Service shares.
\<close>

section \<open>Model\<close>

definition excludeFromLBLabel :: string where
  "excludeFromLBLabel = ''node.kubernetes.io/exclude-from-external-load-balancers''"

record nodeSelection =
  nsel_addressType :: string
  nsel_requireReady :: bool
  nsel_excludeUnschedulable :: bool
  nsel_propagateZone :: bool

definition fetchNodes :: "lsas \<Rightarrow> Client \<Rightarrow> LabelSelector option \<Rightarrow> string list \<Rightarrow> Node list result" where
  "fetchNodes lsas cl selector names =
     (case selector of
        Some s \<Rightarrow>
          (case lsas s of
             Inl err \<Rightarrow> Inl (Wrapped [Lit ''invalid node selector: ''] err)
           | Inr sel \<Rightarrow> cl_ListNodes cl (Some sel))
      | None \<Rightarrow>
          if 0 < length names then Inr (found (cl_GetNode cl) names)
          else cl_ListNodes cl None)"

definition nodeExcluded :: "Node \<Rightarrow> bool" where
  "nodeExcluded node \<longleftrightarrow> node_Unschedulable node \<or> node_Labels node excludeFromLBLabel \<noteq> None"

definition nodeReady :: "Node \<Rightarrow> bool" where
  "nodeReady node = condition_true ReadyCondition (node_Conditions node)"

definition addressTypeOrDefault :: "string \<Rightarrow> string" where
  "addressTypeOrDefault at = (if at = [] then NodeAddressTypeInternalIP else at)"

definition firstAddress :: "Node \<Rightarrow> string \<Rightarrow> string" where
  "firstAddress node kind =
     (case find (\<lambda>a. na_Type a = kind) (node_Addresses node) of None \<Rightarrow> [] | Some a \<Rightarrow> na_Address a)"

text \<open>The pair of an address and whether there is one.\<close>

definition nodeAddress :: "Node \<Rightarrow> string \<Rightarrow> string \<times> bool" where
  "nodeAddress node at =
     (let internal = firstAddress node ''InternalIP''; external = firstAddress node ''ExternalIP'';
          t = addressTypeOrDefault at
      in if t = NodeAddressTypeExternalIP then (external, external \<noteq> [])
         else if t = NodeAddressTypePreferExternal then
           (if external \<noteq> [] then (external, True) else (internal, internal \<noteq> []))
         else if t = NodeAddressTypePreferInternal then
           (if internal \<noteq> [] then (internal, True) else (external, external \<noteq> []))
         else (internal, internal \<noteq> []))"

definition node_step ::
    "nodeSelection \<Rightarrow> (string \<rightharpoonup> int32) \<Rightarrow> Endpoint list \<times> msg list \<Rightarrow> Node \<Rightarrow> Endpoint list \<times> msg list" where
  "node_step sel portMap acc node =
     (case acc of (out, warnings) \<Rightarrow>
        if nsel_excludeUnschedulable sel \<and> nodeExcluded node then acc
        else (case nodeAddress node (nsel_addressType sel) of (addrStr, ok) \<Rightarrow>
          if \<not> ok then
            (out, warnings @ [[Lit ''node '', Lit (node_Name node), Lit '' dropped: no '',
               Lit (addressTypeOrDefault (nsel_addressType sel)), Lit '' address'']])
          else (case ParseAddr addrStr of
              None \<Rightarrow> (out, warnings @ [[Lit ''node '', Lit (node_Name node), Lit '' has an unparseable address '',
                         Quoted addrStr]])
            | Some addr \<Rightarrow>
                let ready = (if nsel_requireReady sel then nodeReady node else True);
                    ep = zero_endpoint\<lparr>e_Address := Unmap addr, e_Ready := ready, e_Serving := ready,
                           e_PortMap := portMap\<rparr>;
                    ep = (if nsel_propagateZone sel
                          then ep\<lparr>e_Zone := map_string (node_Labels node) ZoneLabel\<rparr> else ep)
                in (out @ [ep], warnings))))"

definition nodeEndpoints ::
    "Node list \<Rightarrow> nodeSelection \<Rightarrow> (string \<rightharpoonup> int32) \<Rightarrow> Endpoint list \<times> msg list" where
  "nodeEndpoints nodes sel portMap = foldl (node_step sel portMap) ([], []) nodes"

definition Nodes_Resolve ::
    "(IntOrString \<Rightarrow> int) \<Rightarrow> lsas \<Rightarrow> 'st Provider \<Rightarrow> 'st resolver" where
  "Nodes_Resolve intValue lsas provider src ports st =
     (case src_Nodes src of
        None \<Rightarrow> (Inl (Errorf [Lit ''nodes source has no nodes config'']), st)
      | Some cfg \<Rightarrow>
          (case pr_Get provider (SourceCluster src) st of
             (Inl err, st) \<Rightarrow> (Inl err, st)
           | (Inr cl, st) \<Rightarrow>
               (case fetchNodes lsas cl (ns_Selector cfg) (ns_Names cfg) of
                  Inl err \<Rightarrow> (Inl err, st)
                | Inr nodes \<Rightarrow>
                    let sel = \<lparr>nsel_addressType = ns_AddressType cfg,
                               nsel_requireReady = boolOrTrue (ns_RequireReady cfg),
                               nsel_excludeUnschedulable = boolOrTrue (ns_ExcludeUnschedulable cfg),
                               nsel_propagateZone = boolOrTrue (ns_PropagateZone cfg)\<rparr>
                    in (case nodeEndpoints nodes sel (defaultPortMap intValue ports) of
                          (eps, warnings) \<Rightarrow>
                            (Inr \<lparr>r_Endpoints = eps, r_TTL = 0, r_Warnings = warnings\<rparr>, st)))))"

section \<open>Lemmas\<close>

text \<open>The kinds of address that a type asks for, in the order of preference.\<close>

definition wanted_kinds :: "string \<Rightarrow> string list" where
  "wanted_kinds at =
     (if at = NodeAddressTypeExternalIP then [''ExternalIP'']
      else if at = NodeAddressTypePreferExternal then [''ExternalIP'', ''InternalIP'']
      else if at = NodeAddressTypePreferInternal then [''InternalIP'', ''ExternalIP'']
      else [''InternalIP''])"

definition node_address :: "Node \<Rightarrow> string \<Rightarrow> string option" where
  "node_address node at = find (\<lambda>s. s \<noteq> []) (map (firstAddress node) (wanted_kinds at))"

lemma nodeAddress_eq:
  "nodeAddress node at = (case node_address node at of None \<Rightarrow> ([], False) | Some s \<Rightarrow> (s, True))"
  by (auto simp: nodeAddress_def node_address_def wanted_kinds_def addressTypeOrDefault_def Let_def)

definition node_usable :: "nodeSelection \<Rightarrow> Node \<Rightarrow> bool" where
  "node_usable sel node \<longleftrightarrow>
     (case node_address node (nsel_addressType sel) of None \<Rightarrow> False | Some s \<Rightarrow> ParseAddr s \<noteq> None)"

definition node_selected :: "nodeSelection \<Rightarrow> Node \<Rightarrow> bool" where
  "node_selected sel node \<longleftrightarrow> \<not> (nsel_excludeUnschedulable sel \<and> nodeExcluded node)"

definition node_endpoint :: "nodeSelection \<Rightarrow> (string \<rightharpoonup> int32) \<Rightarrow> Node \<Rightarrow> Endpoint" where
  "node_endpoint sel portMap node =
     \<lparr>e_Address = Unmap (the (ParseAddr (the (node_address node (nsel_addressType sel))))),
      e_Ready = (nsel_requireReady sel \<longrightarrow> nodeReady node),
      e_Serving = (nsel_requireReady sel \<longrightarrow> nodeReady node), e_Terminating = False,
      e_Zone = (if nsel_propagateZone sel then map_string (node_Labels node) ZoneLabel else []),
      e_Hostname = [], e_TargetRef = None, e_PortMap = portMap\<rparr>"

lemma node_step_out:
  "fst (node_step sel pm acc node) = fst acc @
     (if node_selected sel node \<and> node_usable sel node then [node_endpoint sel pm node] else [])"
  unfolding node_step_def node_selected_def node_usable_def node_endpoint_def zero_endpoint_def Let_def nodeAddress_eq
  by (cases acc, cases "node_address node (nsel_addressType sel)") (auto split: option.splits)

lemma node_step_warnings:
  "length (snd (node_step sel pm acc node)) = length (snd acc) +
     (if node_selected sel node \<and> \<not> node_usable sel node then 1 else 0)"
  unfolding node_step_def node_selected_def node_usable_def Let_def nodeAddress_eq
  by (cases acc, cases "node_address node (nsel_addressType sel)") (auto split: option.splits)

lemma node_fold_out:
  "fst (foldl (node_step sel pm) acc nodes) = fst acc @
     map (node_endpoint sel pm) (filter (\<lambda>n. node_selected sel n \<and> node_usable sel n) nodes)"
  by (induction nodes arbitrary: acc) (auto simp: node_step_out)

lemma node_fold_warnings:
  "length (snd (foldl (node_step sel pm) acc nodes)) = length (snd acc) +
     length (filter (\<lambda>n. node_selected sel n \<and> \<not> node_usable sel n) nodes)"
  by (induction nodes arbitrary: acc) (auto simp: node_step_warnings)

lemma nodeEndpoints_out:
  "fst (nodeEndpoints nodes sel pm) =
     map (node_endpoint sel pm) (filter (\<lambda>n. node_selected sel n \<and> node_usable sel n) nodes)"
  by (simp add: nodeEndpoints_def node_fold_out)

lemma nodeEndpoints_plain:
  assumes "dom pm = csp_Name ` set ports"
  shows "list_all (plain_endpoint ports) (fst (nodeEndpoints nodes sel pm))"
proof -
  have "plain_endpoint ports (node_endpoint sel pm node)" for node
    using assms unfolding plain_endpoint_def node_endpoint_def by simp
  then show ?thesis by (simp add: nodeEndpoints_out list_all_iff)
qed

interpretation nodes: resolver_contract "Nodes_Resolve intValue lsas provider" for intValue lsas provider
proof unfold_locales
  fix src ports st r st' e
  assume res: "Nodes_Resolve intValue lsas provider src ports st = (Inr r, st')" and e: "e \<in> set (r_Endpoints r)"
  then obtain ns sel where "r_Endpoints r = fst (nodeEndpoints ns sel (defaultPortMap intValue ports))"
    by (auto simp: Nodes_Resolve_def Let_def split: option.splits prod.splits sum.splits) (metis fst_conv)
  then have "list_all (plain_endpoint ports) (r_Endpoints r)"
    using nodeEndpoints_plain [OF dom_defaultPortMap] by metis
  then show "endpoint_ok src ports e" using e by (rule plain_endpoints_ok)
qed

section \<open>Properties\<close>

text \<open>
  C29: of the nodes read, every one that is not excluded gives exactly one endpoint, on the first address it
  has of the wanted kinds in their order of preference, or exactly one warning; the endpoints keep the
  order of the nodes, a node that is not ready is kept as a not-ready endpoint, and no endpoint refers
  to an object.
\<close>

theorem nodeEndpoints_accounts:
  "fst (nodeEndpoints nodes sel portMap) =
     map (node_endpoint sel portMap) (filter (\<lambda>n. node_selected sel n \<and> node_usable sel n) nodes) \<and>
   length (fst (nodeEndpoints nodes sel portMap)) + length (snd (nodeEndpoints nodes sel portMap)) =
     length (filter (node_selected sel) nodes)"
  by (simp add: nodeEndpoints_def node_fold_out node_fold_warnings length_filter_split)

end
