(* ===== verification/Resolver_Service.thy ===== *)
theory Resolver_Service
  imports Resolver_Nodes Resolver_DNS
begin

text \<open>
  \<^verbatim>\<open>internal/resolver/service.go\<close>: a Service of the source cluster, from which both the
  addresses and the ports are derived, reached through its node ports, its load balancer or the
  addresses in its EndpointSlices.
\<close>

section \<open>Model\<close>

record portBinding =
  pb_local :: CrossServicePort
  pb_remote :: ServicePort

definition svc_id :: "Service \<Rightarrow> string" where
  "svc_id svc = svc_Namespace svc @ ''/'' @ svc_Name svc"

definition matchRemotePort :: "(IntOrString \<Rightarrow> int) \<Rightarrow> CrossServicePort \<Rightarrow> Service \<Rightarrow> ServicePort result" where
  "matchRemotePort intValue p svc =
     (let ports = ss_Ports (svc_Spec svc);
          by_name = (\<lambda>want. case find (\<lambda>q. svp_Name q = want) ports of
              Some q \<Rightarrow> Inr q
            | None \<Rightarrow> Inl (Errorf [Lit ''service '', Lit (svc_id svc), Lit '' has no port named '', Quoted want]))
      in if csp_RemotePort p = None \<and> csp_Name p = [] \<and> length ports = 1 then Inr (ports ! 0)
         else (case csp_RemotePort p of
           Some (IntVal n) \<Rightarrow>
             (let want = to_int32 (intValue (IntVal n))
              in case find (\<lambda>q. svp_Port q = want) ports of
                   Some q \<Rightarrow> Inr q
                 | None \<Rightarrow> Inl (Errorf [Lit ''service '', Lit (svc_id svc), Lit '' has no port numbered '',
                             Lit (string_of_int (sint want))]))
         | Some (StrVal s) \<Rightarrow> by_name s
         | None \<Rightarrow> by_name (csp_Name p)))"

fun bind_ports ::
    "(IntOrString \<Rightarrow> int) \<Rightarrow> Service \<Rightarrow> CrossServicePort list \<Rightarrow> portBinding list \<Rightarrow> portBinding list result" where
  "bind_ports intValue svc [] out = Inr out"
| "bind_ports intValue svc (p # ps) out =
     (case matchRemotePort intValue p svc of
        Inl err \<Rightarrow> Inl err
      | Inr match \<Rightarrow> bind_ports intValue svc ps (out @ [\<lparr>pb_local = p, pb_remote = match\<rparr>]))"

definition bindPorts ::
    "(IntOrString \<Rightarrow> int) \<Rightarrow> CrossServicePort list \<Rightarrow> Service \<Rightarrow> portBinding list result" where
  "bindPorts intValue ports svc = bind_ports intValue svc ports []"

subsection \<open>Node ports\<close>

fun node_port_map :: "Service \<Rightarrow> portBinding list \<Rightarrow> (string \<rightharpoonup> int32) \<Rightarrow> (string \<rightharpoonup> int32) result" where
  "node_port_map svc [] out = Inr out"
| "node_port_map svc (b # bs) out =
     (if svp_NodePort (pb_remote b) = 0 then
        Inl (Errorf [Lit ''service '', Lit (svc_id svc), Lit '' port '', Quoted (svp_Name (pb_remote b)),
          Lit '' has no allocated nodePort: it is of type '', Lit (ss_Type (svc_Spec svc))])
      else node_port_map svc bs (out(csp_Name (pb_local b) \<mapsto> svp_NodePort (pb_remote b))))"

definition zero_node_port_exposure :: NodePortExposure where
  "zero_node_port_exposure = \<lparr>npe_Selector = None, npe_Names = [], npe_AddressType = [], npe_RequireReady = None,
     npe_ExcludeUnschedulable = None, npe_PropagateZone = None\<rparr>"

definition viaNodePort ::
    "lsas \<Rightarrow> Client \<Rightarrow> ServiceSource \<Rightarrow> Service \<Rightarrow> portBinding list \<Rightarrow> Result result" where
  "viaNodePort lsas cl cfg svc bindings =
     (case node_port_map svc bindings Map.empty of
        Inl err \<Rightarrow> Inl err
      | Inr portMap \<Rightarrow>
          let exposure = (case svs_NodePort cfg of None \<Rightarrow> zero_node_port_exposure | Some x \<Rightarrow> x)
          in (case fetchNodes lsas cl (npe_Selector exposure) (npe_Names exposure) of
                Inl err \<Rightarrow> Inl err
              | Inr nodes \<Rightarrow>
                  (case nodeEndpoints nodes
                     \<lparr>nsel_addressType = npe_AddressType exposure,
                      nsel_requireReady = boolOrTrue (npe_RequireReady exposure),
                      nsel_excludeUnschedulable = boolOrTrue (npe_ExcludeUnschedulable exposure),
                      nsel_propagateZone = boolOrTrue (npe_PropagateZone exposure)\<rparr> portMap of
                     (eps, warnings) \<Rightarrow> Inr \<lparr>r_Endpoints = eps, r_TTL = 0, r_Warnings = warnings\<rparr>)))"

subsection \<open>Load balancer\<close>

definition zero_resolution :: DNSResolution where
  "zero_resolution = \<lparr>dr_Interval = None, dr_UseTTL = False, dr_MinTTL = None, dr_MaxTTL = None, dr_Nameservers = []\<rparr>"

definition hostname_resolution :: "ServiceSource \<Rightarrow> DNSResolution" where
  "hostname_resolution cfg =
     (case svs_LoadBalancer cfg of
        None \<Rightarrow> zero_resolution
      | Some lb \<Rightarrow> (case lbe_HostnameResolution lb of None \<Rightarrow> zero_resolution | Some r \<Rightarrow> r))"

text \<open>The accumulator: endpoints, warnings and the interval until the next lookup.\<close>

fun ingress_loop ::
    "(string list \<Rightarrow> LookupClient) \<Rightarrow> LookupClient option \<Rightarrow> ServiceSource \<Rightarrow> (string \<rightharpoonup> int32) \<Rightarrow>
     LoadBalancerIngress list \<Rightarrow> Endpoint list \<times> msg list \<times> duration \<Rightarrow>
     (Endpoint list \<times> msg list \<times> duration) result" where
  "ingress_loop system s_Lookup cfg portMap [] acc = Inr acc"
| "ingress_loop system s_Lookup cfg portMap (lbi # rest) (out, warnings, ttl) =
     (if lbi_IP lbi \<noteq> [] then
        (case ParseAddr (lbi_IP lbi) of
           None \<Rightarrow> ingress_loop system s_Lookup cfg portMap rest
             (out, warnings @ [[Lit ''loadBalancer ingress IP '', Quoted (lbi_IP lbi), Lit '' is unparseable'']], ttl)
         | Some addr \<Rightarrow> ingress_loop system s_Lookup cfg portMap rest
             (out @ dns_endpoints portMap [addr], warnings, ttl))
      else if lbi_Hostname lbi \<noteq> [] then
        (let resolution = hostname_resolution cfg;
             ttl = resolutionInterval resolution;
             client = (case s_Lookup of None \<Rightarrow> system (dr_Nameservers resolution) | Some c \<Rightarrow> c)
         in case lk_LookupNetIP client ''ip4'' (FQDN (lbi_Hostname lbi)) of
              Inl err \<Rightarrow> Inl (Wrapped [Lit ''resolving loadBalancer hostname '', Lit (lbi_Hostname lbi), Lit '': ''] err)
            | Inr addrs \<Rightarrow> ingress_loop system s_Lookup cfg portMap rest
                (out @ dns_endpoints portMap addrs, warnings, ttl))
      else ingress_loop system s_Lookup cfg portMap rest (out, warnings, ttl))"

definition viaLoadBalancer ::
    "(string list \<Rightarrow> LookupClient) \<Rightarrow> LookupClient option \<Rightarrow> ServiceSource \<Rightarrow> Service \<Rightarrow> portBinding list \<Rightarrow>
     Result result" where
  "viaLoadBalancer system s_Lookup cfg svc bindings =
     (let portMap = foldl (\<lambda>m b. m(csp_Name (pb_local b) \<mapsto> svp_Port (pb_remote b))) Map.empty bindings;
          ingress = svc_Ingress svc
      in if length ingress = 0 then
           Inl (Errorf [Lit ''service '', Lit (svc_id svc), Lit '' has no loadBalancer ingress yet''])
         else (case ingress_loop system s_Lookup cfg portMap ingress ([], [], 0) of
           Inl err \<Rightarrow> Inl err
         | Inr (out, warnings, ttl) \<Rightarrow>
             if length out = 0 then
               Inl (Errorf [Lit ''service '', Lit (svc_id svc), Lit '' loadBalancer ingress resolved to no addresses''])
             else Inr \<lparr>r_Endpoints = out, r_TTL = ttl, r_Warnings = warnings\<rparr>))"

subsection \<open>EndpointSlices\<close>

definition slice_ports_by_name :: "EndpointSlice \<Rightarrow> (string \<rightharpoonup> int32)" where
  "slice_ports_by_name sl =
     foldl (\<lambda>m p. case epp_Port p of
              None \<Rightarrow> m
            | Some n \<Rightarrow> m((case epp_Name p of None \<Rightarrow> [] | Some name \<Rightarrow> name) \<mapsto> n))
       Map.empty (es_Ports sl)"

fun translate_ports ::
    "(string \<rightharpoonup> int32) \<Rightarrow> portBinding list \<Rightarrow> (string \<rightharpoonup> int32) \<Rightarrow> (string \<rightharpoonup> int32) option" where
  "translate_ports byName [] out = Some out"
| "translate_ports byName (b # bs) out =
     (case byName (svp_Name (pb_remote b)) of
        None \<Rightarrow> None
      | Some num \<Rightarrow> translate_ports byName bs (out(csp_Name (pb_local b) \<mapsto> num)))"

definition slicePortMap :: "EndpointSlice \<Rightarrow> portBinding list \<Rightarrow> (string \<rightharpoonup> int32) option" where
  "slicePortMap sl bindings = translate_ports (slice_ports_by_name sl) bindings Map.empty"

definition zero_pod_ip_exposure :: PodIPExposure where
  "zero_pod_ip_exposure = \<lparr>pie_IncludeTerminating = False, pie_PropagateZone = None\<rparr>"

definition slice_address_step ::
    "bool \<Rightarrow> (string \<rightharpoonup> int32) \<Rightarrow> SliceEndpoint \<Rightarrow> Endpoint list \<times> msg list \<Rightarrow> string \<Rightarrow> Endpoint list \<times> msg list" where
  "slice_address_step propagateZone portMap ep acc raw =
     (case acc of (out, warnings) \<Rightarrow>
       (case ParseAddr raw of
          None \<Rightarrow> (out, warnings @ [[Lit ''endpoint address '', Quoted raw, Lit '' is unparseable'']])
        | Some addr \<Rightarrow>
            let ready = (se_Ready ep = None \<or> se_Ready ep = Some True);
                serving = (se_Serving ep = None \<or> se_Serving ep = Some True);
                terminating = (se_Terminating ep = Some True);
                e = zero_endpoint\<lparr>e_Address := Unmap addr, e_Ready := ready \<and> \<not> terminating, e_Serving := serving,
                      e_Terminating := terminating, e_PortMap := portMap\<rparr>;
                e = (if propagateZone then (case se_Zone ep of None \<Rightarrow> e | Some z \<Rightarrow> e\<lparr>e_Zone := z\<rparr>) else e)
            in (out @ [e], warnings)))"

definition slice_endpoint_step ::
    "PodIPExposure \<Rightarrow> (string \<rightharpoonup> int32) \<Rightarrow> Endpoint list \<times> msg list \<Rightarrow> SliceEndpoint \<Rightarrow> Endpoint list \<times> msg list" where
  "slice_endpoint_step exposure portMap acc ep =
     (if se_Terminating ep = Some True \<and> \<not> pie_IncludeTerminating exposure then acc
      else foldl (slice_address_step (boolOrTrue (pie_PropagateZone exposure)) portMap ep) acc (se_Addresses ep))"

definition slice_step ::
    "PodIPExposure \<Rightarrow> portBinding list \<Rightarrow> Endpoint list \<times> msg list \<Rightarrow> EndpointSlice \<Rightarrow> Endpoint list \<times> msg list" where
  "slice_step exposure bindings acc sl =
     (case slicePortMap sl bindings of
        None \<Rightarrow> (fst acc, snd acc @ [[Lit ''endpointslice '', Lit (es_Namespace sl), Lit ''/'', Lit (es_Name sl),
                  Lit '' skipped: it does not carry every mapped port'']])
      | Some portMap \<Rightarrow> foldl (slice_endpoint_step exposure portMap) acc (es_Endpoints sl))"

definition viaPodIP :: "Client \<Rightarrow> ServiceSource \<Rightarrow> portBinding list \<Rightarrow> Result result" where
  "viaPodIP cl cfg bindings =
     (case cl_ListEndpointSlices cl (svs_Namespace cfg) (svs_Name cfg) of
        Inl err \<Rightarrow> Inl err
      | Inr slices \<Rightarrow>
          let exposure = (case svs_PodIP cfg of None \<Rightarrow> zero_pod_ip_exposure | Some x \<Rightarrow> x)
          in (case foldl (slice_step exposure bindings) ([], []) slices of
                (out, warnings) \<Rightarrow> Inr \<lparr>r_Endpoints = out, r_TTL = 0, r_Warnings = warnings\<rparr>))"

subsection \<open>Dispatch\<close>

definition Service_Resolve ::
    "(IntOrString \<Rightarrow> int) \<Rightarrow> lsas \<Rightarrow> (string list \<Rightarrow> LookupClient) \<Rightarrow> 'st Provider \<Rightarrow> LookupClient option \<Rightarrow>
     'st resolver" where
  "Service_Resolve intValue lsas system provider s_Lookup src ports st =
     (case src_Service src of
        None \<Rightarrow> (Inl (Errorf [Lit ''service source has no service config'']), st)
      | Some cfg \<Rightarrow>
          (case pr_Get provider (SourceCluster src) st of
             (Inl err, st) \<Rightarrow> (Inl err, st)
           | (Inr cl, st) \<Rightarrow>
               (case cl_GetService cl (svs_Namespace cfg) (svs_Name cfg) of
                  Inl err \<Rightarrow> (Inl err, st)
                | Inr svc \<Rightarrow>
                    (case bindPorts intValue ports svc of
                       Inl err \<Rightarrow> (Inl err, st)
                     | Inr bindings \<Rightarrow>
                         (if svs_Via cfg = ServiceExposureNodePort then viaNodePort lsas cl cfg svc bindings
                          else if svs_Via cfg = ServiceExposureLoadBalancer then
                            viaLoadBalancer system s_Lookup cfg svc bindings
                          else if svs_Via cfg = ServiceExposurePodIP then viaPodIP cl cfg bindings
                          else Inl (Errorf [Lit ''unsupported service exposure '', Quoted (svs_Via cfg)]), st)))))"

section \<open>Lemmas: the ports\<close>

definition port_wanted :: "(IntOrString \<Rightarrow> int) \<Rightarrow> Service \<Rightarrow> CrossServicePort \<Rightarrow> ServicePort \<Rightarrow> bool" where
  "port_wanted iv svc p q =
     (case csp_RemotePort p of
        None \<Rightarrow> svp_Name q = csp_Name p \<or> csp_Name p = [] \<and> length (ss_Ports (svc_Spec svc)) = 1
      | Some (IntVal n) \<Rightarrow> svp_Port q = to_int32 (iv (IntVal n))
      | Some (StrVal s) \<Rightarrow> svp_Name q = s)"

lemma matchRemotePort_eq:
  "find (port_wanted iv svc p) (ss_Ports (svc_Spec svc)) =
     (case matchRemotePort iv p svc of Inl err \<Rightarrow> None | Inr q \<Rightarrow> Some q)"
proof (cases "csp_RemotePort p")
  case None
  show ?thesis
  proof (cases "csp_Name p = [] \<and> length (ss_Ports (svc_Spec svc)) = 1")
    case True
    then obtain q where "ss_Ports (svc_Spec svc) = [q]" by (auto simp: length_Suc_conv)
    then show ?thesis using True None by (simp add: matchRemotePort_def port_wanted_def)
  next
    case False
    then have "port_wanted iv svc p = (\<lambda>q. svp_Name q = csp_Name p)"
      using None by (auto simp: port_wanted_def fun_eq_iff)
    then show ?thesis using False None by (auto simp: matchRemotePort_def split: option.split)
  qed
next
  case (Some t)
  then have "port_wanted iv svc p = (case t of IntVal n \<Rightarrow> (\<lambda>q. svp_Port q = to_int32 (iv (IntVal n)))
      | StrVal s \<Rightarrow> (\<lambda>q. svp_Name q = s))"
    by (auto simp: port_wanted_def fun_eq_iff split: IntOrString.split)
  then show ?thesis using Some
    by (cases t) (auto simp: matchRemotePort_def Let_def split: option.split)
qed

lemma bind_ports_Inr:
  "bind_ports iv svc ports acc = Inr bs \<Longrightarrow> \<exists>new. bs = acc @ new \<and> map pb_local new = ports \<and>
     list_all (\<lambda>b. matchRemotePort iv (pb_local b) svc = Inr (pb_remote b)) new"
proof (induction ports arbitrary: acc)
  case (Cons p ps)
  then obtain q where q: "matchRemotePort iv p svc = Inr q" "bind_ports iv svc ps (acc @ [\<lparr>pb_local = p, pb_remote = q\<rparr>]) = Inr bs"
    by (auto split: sum.splits)
  from Cons.IH [OF q(2)] q(1) show ?case by fastforce
qed simp

lemma bind_ports_Inl:
  "bind_ports iv svc ports acc = Inl err \<Longrightarrow> \<exists>p\<in>set ports. matchRemotePort iv p svc = Inl err"
  by (induction ports arbitrary: acc) (auto split: sum.splits)

lemma bindPorts_local: "bindPorts iv ports svc = Inr bs \<Longrightarrow> (\<lambda>b. csp_Name (pb_local b)) ` set bs = csp_Name ` set ports"
  by (auto simp: bindPorts_def image_image dest!: bind_ports_Inr)

lemma dom_upd_step: "dom m = A \<Longrightarrow> dom (m(k \<mapsto> v)) = insert k A"
  by simp

lemma node_port_map_dom:
  "node_port_map svc bs m = Inr m' \<Longrightarrow> dom m' = dom m \<union> (\<lambda>b. csp_Name (pb_local b)) ` set bs"
proof (induction bs arbitrary: m)
  case (Cons b bs)
  then have "node_port_map svc bs (m(csp_Name (pb_local b) \<mapsto> svp_NodePort (pb_remote b))) = Inr m'"
    by (simp split: if_splits)
  from Cons.IH [OF this] show ?case unfolding dom_upd_step [OF refl] by simp
qed simp

lemma translate_ports_dom:
  "translate_ports byName bs m = Some m' \<Longrightarrow> dom m' = dom m \<union> (\<lambda>b. csp_Name (pb_local b)) ` set bs"
proof (induction bs arbitrary: m)
  case (Cons b bs)
  then obtain n where "translate_ports byName bs (m(csp_Name (pb_local b) \<mapsto> n)) = Some m'"
    by (auto split: option.splits)
  from Cons.IH [OF this] show ?case unfolding dom_upd_step [OF refl] by simp
qed simp

lemma lb_port_map_dom:
  "dom (foldl (\<lambda>m b. m(csp_Name (pb_local b) \<mapsto> svp_Port (pb_remote b))) m bs) =
     dom m \<union> (\<lambda>b. csp_Name (pb_local b)) ` set bs"
proof (induction bs arbitrary: m)
  case (Cons b bs)
  show ?case unfolding foldl.simps Cons.IH dom_upd_step [OF refl] by simp
qed simp

section \<open>Lemmas: the endpoints\<close>

lemma dns_endpoints_Nil [simp]: "dns_endpoints pm [] = []"
  by (simp add: dns_endpoints_def)

text \<open>One ingress: some endpoints more, and the loop goes on.\<close>

lemma ingress_loop_step:
  assumes "ingress_loop system lk cfg pm (lbi # rest) (out, warnings, ttl) = Inr acc'"
  shows "\<exists>addrs w. ingress_loop system lk cfg pm rest (out @ dns_endpoints pm addrs, w,
     if lbi_IP lbi = [] \<and> lbi_Hostname lbi \<noteq> [] then resolutionInterval (hostname_resolution cfg) else ttl) = Inr acc'"
proof -
  have "\<exists>addrs w. ingress_loop system lk cfg pm rest (out @ dns_endpoints pm addrs, w, t) = Inr acc'"
    if "ingress_loop system lk cfg pm rest (out, w, t) = Inr acc'" for w t
    using that by (intro exI [of _ "[]"] exI [of _ w]) simp
  then show ?thesis using assms
    by (auto simp: Let_def split: if_splits option.splits sum.splits)
qed

lemma ingress_loop_plain:
  assumes "dom pm = csp_Name ` set ports"
  shows "ingress_loop system lk cfg pm lbs acc = Inr acc' \<Longrightarrow> list_all (plain_endpoint ports) (fst acc) \<Longrightarrow>
     list_all (plain_endpoint ports) (fst acc')"
proof (induction lbs arbitrary: acc)
  case (Cons lbi rest)
  obtain out w t where acc: "acc = (out, w, t)" by (cases acc)
  from ingress_loop_step [OF Cons.prems(1) [unfolded acc]] obtain addrs w' t' where
    "ingress_loop system lk cfg pm rest (out @ dns_endpoints pm addrs, w', t') = Inr acc'" by blast
  from Cons.IH [OF this] show ?case using Cons.prems(2) acc dns_endpoints_plain [OF assms] by simp
qed simp

lemma resolutionInterval_pos: "0 < resolutionInterval r"
  by (simp add: resolutionInterval_def Second_def split: option.split)

definition polled :: "LoadBalancerIngress \<Rightarrow> bool" where
  "polled lbi \<longleftrightarrow> lbi_IP lbi = [] \<and> lbi_Hostname lbi \<noteq> []"

lemma ingress_loop_ttl:
  "ingress_loop system lk cfg pm lbs acc = Inr acc' \<Longrightarrow>
     snd (snd acc') = (if list_ex polled lbs then resolutionInterval (hostname_resolution cfg) else snd (snd acc))"
proof (induction lbs arbitrary: acc)
  case (Cons lbi rest)
  obtain out w t where acc: "acc = (out, w, t)" by (cases acc)
  from ingress_loop_step [OF Cons.prems(1) [unfolded acc]] obtain addrs w' where
    "ingress_loop system lk cfg pm rest (out @ dns_endpoints pm addrs, w',
       if polled lbi then resolutionInterval (hostname_resolution cfg) else t) = Inr acc'"
    unfolding polled_def by blast
  from Cons.IH [OF this] show ?case by (simp add: acc)
qed simp

definition remote_endpoint :: "bool \<Rightarrow> (string \<rightharpoonup> int32) \<Rightarrow> SliceEndpoint \<Rightarrow> addr \<Rightarrow> Endpoint" where
  "remote_endpoint zoned pm ep a =
     \<lparr>e_Address = Unmap a,
      e_Ready = (se_Ready ep \<noteq> Some False \<and> se_Terminating ep \<noteq> Some True), e_Serving = (se_Serving ep \<noteq> Some False),
      e_Terminating = (se_Terminating ep = Some True),
      e_Zone = (if zoned then case_option [] id (se_Zone ep) else []), e_Hostname = [], e_TargetRef = None,
      e_PortMap = pm\<rparr>"

lemma some_bool: "(b = None \<or> b = Some True) \<longleftrightarrow> b \<noteq> Some False"
  by (cases b) auto

lemma slice_address_step_out:
  "fst (slice_address_step zoned pm ep acc raw) = fst acc @
     (case ParseAddr raw of None \<Rightarrow> [] | Some a \<Rightarrow> [remote_endpoint zoned pm ep a])"
  unfolding slice_address_step_def some_bool remote_endpoint_def zero_endpoint_def Let_def
  by (cases acc) (auto split: option.splits)

lemma slice_address_fold_out:
  "fst (foldl (slice_address_step zoned pm ep) acc raws) = fst acc @
     map (remote_endpoint zoned pm ep) (List.map_filter ParseAddr raws)"
  by (induction raws arbitrary: acc) (auto simp: slice_address_step_out List.map_filter_simps split: option.splits)

text \<open>What one slice of the source contributes.\<close>

definition slice_contribution :: "PodIPExposure \<Rightarrow> portBinding list \<Rightarrow> EndpointSlice \<Rightarrow> Endpoint list" where
  "slice_contribution x bs sl =
     (case slicePortMap sl bs of
        None \<Rightarrow> []
      | Some pm \<Rightarrow> concat (map (\<lambda>ep. map (remote_endpoint (boolOrTrue (pie_PropagateZone x)) pm ep)
            (List.map_filter ParseAddr (se_Addresses ep)))
          (filter (\<lambda>ep. se_Terminating ep = Some True \<longrightarrow> pie_IncludeTerminating x) (es_Endpoints sl))))"

lemma slice_endpoint_fold_out:
  "fst (foldl (slice_endpoint_step x pm) acc eps) = fst acc @
     concat (map (\<lambda>ep. map (remote_endpoint (boolOrTrue (pie_PropagateZone x)) pm ep)
         (List.map_filter ParseAddr (se_Addresses ep)))
       (filter (\<lambda>ep. se_Terminating ep = Some True \<longrightarrow> pie_IncludeTerminating x) eps))"
  by (induction eps arbitrary: acc) (auto simp: slice_endpoint_step_def slice_address_fold_out)

lemma slice_fold_out:
  "fst (foldl (slice_step x bs) acc sls) = fst acc @ concat (map (slice_contribution x bs) sls)"
proof (induction sls arbitrary: acc)
  case (Cons sl sls)
  have "fst (slice_step x bs acc sl) = fst acc @ slice_contribution x bs sl"
    by (cases "slicePortMap sl bs") (simp_all add: slice_step_def slice_contribution_def slice_endpoint_fold_out)
  then show ?case using Cons.IH by simp
qed simp

lemma slice_contribution_plain:
  assumes "bindPorts iv ports svc = Inr bs"
  shows "list_all (plain_endpoint ports) (slice_contribution x bs sl)"
proof (cases "slicePortMap sl bs")
  case (Some pm)
  then have "dom pm = csp_Name ` set ports"
    using translate_ports_dom [of "slice_ports_by_name sl" bs Map.empty pm] bindPorts_local [OF assms]
    by (simp add: slicePortMap_def)
  then have "plain_endpoint ports (remote_endpoint z pm ep a)" for z ep a
    unfolding plain_endpoint_def remote_endpoint_def by simp
  then show ?thesis using Some by (simp add: slice_contribution_def list_all_iff)
qed (simp add: slice_contribution_def)

lemma viaNodePort_plain:
  assumes "bindPorts iv ports svc = Inr bs" and "viaNodePort lsas cl cfg svc bs = Inr r"
  shows "list_all (plain_endpoint ports) (r_Endpoints r)"
proof -
  obtain pm nodes sel where pm: "node_port_map svc bs Map.empty = Inr pm"
    and r: "r_Endpoints r = fst (nodeEndpoints nodes sel pm)"
    using assms(2) by (auto simp: viaNodePort_def Let_def split: sum.splits prod.splits) (metis fst_conv)+
  have "dom pm = csp_Name ` set ports"
    using node_port_map_dom [OF pm] bindPorts_local [OF assms(1)] by simp
  then show ?thesis unfolding r by (rule nodeEndpoints_plain)
qed

lemma viaLoadBalancer_Inr:
  assumes "viaLoadBalancer system lk cfg svc bs = Inr r"
  obtains acc where "ingress_loop system lk cfg
      (foldl (\<lambda>m b. m(csp_Name (pb_local b) \<mapsto> svp_Port (pb_remote b))) Map.empty bs) (svc_Ingress svc) ([], [], 0) = Inr acc"
    and "r = \<lparr>r_Endpoints = fst acc, r_TTL = snd (snd acc), r_Warnings = fst (snd acc)\<rparr>" and "fst acc \<noteq> []"
  using assms by (auto simp: viaLoadBalancer_def Let_def split: if_splits sum.splits prod.splits)

lemma viaLoadBalancer_plain:
  assumes "bindPorts iv ports svc = Inr bs" and "viaLoadBalancer system lk cfg svc bs = Inr r"
  shows "list_all (plain_endpoint ports) (r_Endpoints r)"
  using assms(2)
proof (cases rule: viaLoadBalancer_Inr)
  case (1 acc)
  have "dom (foldl (\<lambda>m b. m(csp_Name (pb_local b) \<mapsto> svp_Port (pb_remote b))) Map.empty bs) = csp_Name ` set ports"
    unfolding lb_port_map_dom using bindPorts_local [OF assms(1)] by simp
  from ingress_loop_plain [OF this 1(1)] 1(2) show ?thesis by simp
qed

lemma viaPodIP_out:
  "viaPodIP cl cfg bs = Inr r \<Longrightarrow> \<exists>sls x. r_Endpoints r = concat (map (slice_contribution x bs) sls)"
  by (auto simp: viaPodIP_def Let_def split: sum.splits prod.splits) (metis append_Nil fst_conv slice_fold_out)+

lemma viaPodIP_plain:
  assumes "bindPorts iv ports svc = Inr bs" and "viaPodIP cl cfg bs = Inr r"
  shows "list_all (plain_endpoint ports) (r_Endpoints r)"
  using viaPodIP_out [OF assms(2)] slice_contribution_plain [OF assms(1)] by (fastforce simp: list_all_iff)

lemma Service_Resolve_Inr:
  assumes "Service_Resolve iv lsas system provider lk src ports st = (Inr r, st')"
  obtains cfg cl svc bs where "src_Service src = Some cfg" and "pr_Get provider (SourceCluster src) st = (Inr cl, st')"
    and "bindPorts iv ports svc = Inr bs" and "cl_GetService cl (svs_Namespace cfg) (svs_Name cfg) = Inr svc"
    and "viaNodePort lsas cl cfg svc bs = Inr r \<or> viaLoadBalancer system lk cfg svc bs = Inr r \<or> viaPodIP cl cfg bs = Inr r"
  using assms by (auto simp: Service_Resolve_def split: option.splits prod.splits sum.splits if_splits)

interpretation service: resolver_contract "Service_Resolve intValue lsas system provider lk"
  for intValue lsas system provider lk
proof unfold_locales
  fix src ports st r st' e
  assume res: "Service_Resolve intValue lsas system provider lk src ports st = (Inr r, st')"
    and e: "e \<in> set (r_Endpoints r)"
  from res have "list_all (plain_endpoint ports) (r_Endpoints r)"
    by (cases rule: Service_Resolve_Inr) (blast intro: viaNodePort_plain viaLoadBalancer_plain viaPodIP_plain)
  then show "endpoint_ok src ports e" using e by (rule plain_endpoints_ok)
qed

section \<open>Properties\<close>

text \<open>
  C30: binding the ports either gives every declared port, in order, the first port of the remote Service
  that it asks for (by number, by the remote name, by its own name, or the only one when neither side
  names it), or fails because some declared port asks for a port that the Service does not have.
\<close>

theorem bindPorts_spec:
  "case bindPorts iv ports svc of
     Inl err \<Rightarrow> list_ex (\<lambda>p. find (port_wanted iv svc p) (ss_Ports (svc_Spec svc)) = None) ports
   | Inr bs \<Rightarrow> map pb_local bs = ports \<and>
       list_all (\<lambda>b. find (port_wanted iv svc (pb_local b)) (ss_Ports (svc_Spec svc)) = Some (pb_remote b)) bs"
proof (cases "bindPorts iv ports svc")
  case (Inl err)
  then obtain p where "p \<in> set ports" "matchRemotePort iv p svc = Inl err"
    by (auto simp: bindPorts_def dest!: bind_ports_Inl)
  then show ?thesis using Inl by (force simp: matchRemotePort_eq list_ex_iff)
next
  case (Inr bs)
  then show ?thesis
    by (auto simp: bindPorts_def matchRemotePort_eq list_all_iff split: sum.split dest!: bind_ports_Inr)
qed

text \<open>
  A Service reached through its load balancer resolves to at least one endpoint or not at all, so a load
  balancer that has no usable address is a failure that the failure policy covers; and the result asks to
  be polled exactly when some ingress is a hostname without an address.
\<close>

theorem viaLoadBalancer_nonempty:
  "case viaLoadBalancer system lk cfg svc bs of
     Inl err \<Rightarrow> True
   | Inr r \<Rightarrow> r_Endpoints r \<noteq> [] \<and> (0 < r_TTL r) = list_ex polled (svc_Ingress svc)"
proof (cases "viaLoadBalancer system lk cfg svc bs")
  case (Inr r)
  then show ?thesis
  proof (cases rule: viaLoadBalancer_Inr)
    case (1 acc)
    with ingress_loop_ttl [OF 1(1)] Inr show ?thesis by (simp add: resolutionInterval_pos)
  qed
qed simp


end
