(* ===== verification/Main_Setup.thy ===== *)
theory Main_Setup
  imports Watches RemoteCluster_Controller Resolver_Service
begin

text \<open>
  \<^verbatim>\<open>cmd/main.go\<close> and the registrations of \<^verbatim>\<open>internal/controller\<close>: the flags, the options of the servers and of the
  manager, the objects that are shared between the controllers, the indexes, the watches of both controllers, and the sequence
  in which the program sets them up, each failure ending it.

  The manager is a parameter: a state and the calls on it (\<open>MainEnv\<close>), with the law \<open>manager_ok\<close> that a call that
  succeeds has registered its argument.
\<close>

section \<open>Model: flags and the options of the servers\<close>

record Flags =
  fl_metricsAddr :: string
  fl_metricsCertPath :: string
  fl_metricsCertName :: string
  fl_metricsCertKey :: string
  fl_webhookCertPath :: string
  fl_webhookCertName :: string
  fl_webhookCertKey :: string
  fl_enableLeaderElection :: bool
  fl_probeAddr :: string
  fl_secureMetrics :: bool
  fl_enableHTTP2 :: bool
  fl_maxEndpointsPerSlice :: int
  fl_credentialsNamespace :: string
  fl_allowInsecureTLS :: bool
  fl_allowExecCredentials :: bool

definition default_flags :: Flags where
  "default_flags = \<lparr>fl_metricsAddr = ''0'', fl_metricsCertPath = [], fl_metricsCertName = ''tls.crt'', fl_metricsCertKey = ''tls.key'',
     fl_webhookCertPath = [], fl_webhookCertName = ''tls.crt'', fl_webhookCertKey = ''tls.key'', fl_enableLeaderElection = False,
     fl_probeAddr = '':8081'', fl_secureMetrics = True, fl_enableHTTP2 = False,
     fl_maxEndpointsPerSlice = int DefaultMaxEndpointsPerSlice, fl_credentialsNamespace = [], fl_allowInsecureTLS = False,
     fl_allowExecCredentials = False\<rparr>"

text \<open>Of \<^verbatim>\<open>tls.Config\<close>, the protocols that a server offers.\<close>

record tls_Config =
  tcf_NextProtos :: "string list"

definition disableHTTP2 :: "tls_Config \<Rightarrow> tls_Config" where
  "disableHTTP2 c = c\<lparr>tcf_NextProtos := [''http/1.1'']\<rparr>"

definition tlsOpts :: "Flags \<Rightarrow> (tls_Config \<Rightarrow> tls_Config) list" where
  "tlsOpts fl = (if \<not> fl_enableHTTP2 fl then [disableHTTP2] else [])"

record WebhookOptions =
  wo_TLSOpts :: "(tls_Config \<Rightarrow> tls_Config) list"
  wo_CertDir :: string
  wo_CertName :: string
  wo_KeyName :: string

definition webhookServerOptions :: "Flags \<Rightarrow> WebhookOptions" where
  "webhookServerOptions fl =
     (let opts = \<lparr>wo_TLSOpts = tlsOpts fl, wo_CertDir = [], wo_CertName = [], wo_KeyName = []\<rparr>
      in if 0 < length (fl_webhookCertPath fl)
         then opts\<lparr>wo_CertDir := fl_webhookCertPath fl, wo_CertName := fl_webhookCertName fl, wo_KeyName := fl_webhookCertKey fl\<rparr>
         else opts)"

datatype FilterProvider = WithAuthenticationAndAuthorization

record MetricsOptions =
  mo_BindAddress :: string
  mo_SecureServing :: bool
  mo_TLSOpts :: "(tls_Config \<Rightarrow> tls_Config) list"
  mo_FilterProvider :: "FilterProvider option"
  mo_CertDir :: string
  mo_CertName :: string
  mo_KeyName :: string

definition metricsServerOptions :: "Flags \<Rightarrow> MetricsOptions" where
  "metricsServerOptions fl =
     (let opts = \<lparr>mo_BindAddress = fl_metricsAddr fl, mo_SecureServing = fl_secureMetrics fl, mo_TLSOpts = tlsOpts fl,
            mo_FilterProvider = None, mo_CertDir = [], mo_CertName = [], mo_KeyName = []\<rparr>;
          opts = (if fl_secureMetrics fl then opts\<lparr>mo_FilterProvider := Some WithAuthenticationAndAuthorization\<rparr> else opts)
      in if 0 < length (fl_metricsCertPath fl)
         then opts\<lparr>mo_CertDir := fl_metricsCertPath fl, mo_CertName := fl_metricsCertName fl, mo_KeyName := fl_metricsCertKey fl\<rparr>
         else opts)"

text \<open>
  The options of the manager.  \<open>mgo_ByObject\<close> names the namespaces that objects of a kind are cached from; a kind without an
  entry is cached from all.
\<close>

datatype ApiKind = SourceKind WatchedKind | SecretKind | CrossServiceKind | RemoteClusterKind

record ManagerOptions =
  mgo_Metrics :: MetricsOptions
  mgo_ByObject :: "ApiKind \<rightharpoonup> string list"
  mgo_WebhookServer :: WebhookOptions
  mgo_HealthProbeBindAddress :: string
  mgo_LeaderElection :: bool
  mgo_LeaderElectionID :: string

definition managerOptions :: "Flags \<Rightarrow> string \<Rightarrow> ManagerOptions" where
  "managerOptions fl namespace =
     \<lparr>mgo_Metrics = metricsServerOptions fl, mgo_ByObject = [SecretKind \<mapsto> [namespace]],
      mgo_WebhookServer = webhookServerOptions fl, mgo_HealthProbeBindAddress = fl_probeAddr fl,
      mgo_LeaderElection = fl_enableLeaderElection fl, mgo_LeaderElectionID = ''00193a49.obaydullah.dev''\<rparr>"

section \<open>Model: indexes and registrations\<close>

datatype ApiObject = CrossServiceObject CrossService | RemoteClusterObject RemoteCluster | OtherObject ObjectMeta

record FieldIndex =
  fi_Kind :: ApiKind
  fi_Field :: string
  fi_Keys :: "ApiObject \<Rightarrow> string list"

definition SourceRefIndex :: string where
  "SourceRefIndex = ''spec.source.refs''"

definition SecretRefIndex :: string where
  "SecretRefIndex = ''spec.access.secretRefs''"

definition ClusterRefIndex :: string where
  "ClusterRefIndex = ''spec.source.clusterRef''"

text \<open>
  A watch delivers the events of a kind that pass its predicate to a function from the object to requests; that of the Secrets also
  drops connections, so it changes the world.  A controller is registered with the kinds it reconciles, owns and watches.
\<close>

record 'st Watch =
  wt_Kind :: ApiKind
  wt_Predicate :: "ObjectMeta \<Rightarrow> bool"
  wt_Map :: "ObjectMeta \<Rightarrow> 'st World \<Rightarrow> NamespacedName list \<times> 'st World"

record 'st Controller =
  ctl_Named :: string
  ctl_For :: ApiKind
  ctl_Owns :: "ApiKind list"
  ctl_Watches :: "'st Watch list"
  ctl_Channel :: "(RemoteEvent \<Rightarrow> 'st World \<Rightarrow> NamespacedName list) option"
  ctl_Reconcile :: "NamespacedName \<Rightarrow> 'st World \<Rightarrow> 'st reconciled"

record ('m, 'st) MainEnv =
  env_NewManager :: "ManagerOptions \<Rightarrow> 'm result"
  env_IndexField :: "FieldIndex \<Rightarrow> 'm \<Rightarrow> go_error option \<times> 'm"
  env_Complete :: "'st Controller \<Rightarrow> 'm \<Rightarrow> go_error option \<times> 'm"
  env_AddHealthzCheck :: "string \<Rightarrow> 'm \<Rightarrow> go_error option \<times> 'm"
  env_AddReadyzCheck :: "string \<Rightarrow> 'm \<Rightarrow> go_error option \<times> 'm"
  env_Start :: "'m \<Rightarrow> go_error option"
  env_Client :: "'st CrossServiceReconciler"
  env_ClusterClient :: "'st RemoteClusterReconciler"
  env_ListBy :: "string \<Rightarrow> string \<Rightarrow> 'st \<Rightarrow> CrossService list result"
  env_GetSecret :: "NamespacedName \<Rightarrow> (string \<rightharpoonup> bytes) result"
  env_GetCluster :: "NamespacedName \<Rightarrow> RemoteCluster result"
  env_Reader :: KubeReader
  env_NewCluster :: "RestConfig \<Rightarrow> KubeReader result"
  env_Informers :: "string \<Rightarrow> unit InformerLib"
  env_Sync :: "string \<Rightarrow> bool"
  env_Net :: NetLib
  env_ControllerLib :: ControllerLib
  env_ClusterLib :: ClusterLib

definition source_index :: FieldIndex where
  "source_index = \<lparr>fi_Kind = CrossServiceKind, fi_Field = SourceRefIndex,
     fi_Keys = (\<lambda>ob. case ob of CrossServiceObject xsvc \<Rightarrow> sourceRefKeys xsvc | _ \<Rightarrow> [])\<rparr>"

definition secret_index :: FieldIndex where
  "secret_index = \<lparr>fi_Kind = RemoteClusterKind, fi_Field = SecretRefIndex,
     fi_Keys = (\<lambda>ob. case ob of RemoteClusterObject rc \<Rightarrow> SecretRefs rc | _ \<Rightarrow> [])\<rparr>"

definition cluster_index :: FieldIndex where
  "cluster_index = \<lparr>fi_Kind = CrossServiceKind, fi_Field = ClusterRefIndex,
     fi_Keys = (\<lambda>ob. case ob of CrossServiceObject xsvc \<Rightarrow> clusterRefKeys xsvc | _ \<Rightarrow> [])\<rparr>"

definition SetupIndexes :: "('m, 'st) MainEnv \<Rightarrow> 'm \<Rightarrow> go_error option \<times> 'm" where
  "SetupIndexes env m = env_IndexField env source_index m"

definition SetupRemoteClusterIndexes :: "('m, 'st) MainEnv \<Rightarrow> 'm \<Rightarrow> go_error option \<times> 'm" where
  "SetupRemoteClusterIndexes env m =
     (case env_IndexField env secret_index m of
        (Some err, m) \<Rightarrow> (Some err, m)
      | (None, m) \<Rightarrow> env_IndexField env cluster_index m)"

definition pure_watch ::
    "ApiKind \<Rightarrow> ('st \<Rightarrow> ObjectMeta \<Rightarrow> NamespacedName list) \<Rightarrow> 'st Watch" where
  "pure_watch kind f = \<lparr>wt_Kind = kind, wt_Predicate = (\<lambda>_. True), wt_Map = (\<lambda>ob w. (f (wd_api w) ob, w))\<rparr>"

definition watchLocalSources :: "(string \<Rightarrow> 'st \<Rightarrow> CrossService list result) \<Rightarrow> 'st Controller \<Rightarrow> 'st Controller" where
  "watchLocalSources listByKey b = b\<lparr>ctl_Watches := ctl_Watches b @
     [pure_watch (SourceKind PodKind) (\<lambda>st. mapPod (\<lambda>k. listByKey k st)),
      pure_watch (SourceKind NodeKind) (\<lambda>st. mapNode (\<lambda>k. listByKey k st)),
      pure_watch (SourceKind ServiceKind) (\<lambda>st. mapService (\<lambda>k. listByKey k st)),
      pure_watch (SourceKind EndpointSliceKind) (\<lambda>st. mapEndpointSlice (\<lambda>k. listByKey k st))]\<rparr>"

text \<open>
  \<^verbatim>\<open>SetupWithManager\<close> of both controllers: the controller that is built, and the call that completes it with the operation of the
  reconciler.  The channel of remote events is there or not.
\<close>

definition CrossService_controller ::
    "('m, 'st) MainEnv \<Rightarrow> 'st CrossServiceReconciler \<Rightarrow> EventChannel option \<Rightarrow> 'st Controller" where
  "CrossService_controller env r events =
     (let listByKey = env_ListBy env SourceRefIndex;
          b = \<lparr>ctl_Named = [], ctl_For = CrossServiceKind, ctl_Owns = [SourceKind ServiceKind, SourceKind EndpointSliceKind],
               ctl_Watches = [], ctl_Channel = None, ctl_Reconcile = Reconcile (env_ControllerLib env) r\<rparr>;
          b = watchLocalSources listByKey b;
          b = b\<lparr>ctl_Watches := ctl_Watches b @
                [pure_watch RemoteClusterKind (\<lambda>st ob. mapRemoteCluster (\<lambda>n. env_ListBy env ClusterRefIndex n st) (om_Name ob))]\<rparr>;
          b = (case events of
                 None \<Rightarrow> b
               | Some ch \<Rightarrow> b\<lparr>ctl_Channel := Some (\<lambda>ev w. mapRemote (\<lambda>k. listByKey k (wd_api w)) ev)\<rparr>)
      in b\<lparr>ctl_Named := ''crossservice''\<rparr>)"

definition CrossService_SetupWithManager ::
    "('m, 'st) MainEnv \<Rightarrow> 'st CrossServiceReconciler \<Rightarrow> EventChannel option \<Rightarrow> 'm \<Rightarrow> go_error option \<times> 'm" where
  "CrossService_SetupWithManager env r events m = env_Complete env (CrossService_controller env r events) m"

definition RemoteCluster_controller ::
    "('m, 'st) MainEnv \<Rightarrow> 'st RemoteClusterReconciler \<Rightarrow> string \<Rightarrow> 'st Controller" where
  "RemoteCluster_controller env r namespace =
     \<lparr>ctl_Named = ''remotecluster'', ctl_For = RemoteClusterKind, ctl_Owns = [],
      ctl_Watches = [\<lparr>wt_Kind = SecretKind, wt_Predicate = (\<lambda>ob. inNamespace namespace (om_Namespace ob)),
        wt_Map = (\<lambda>ob w. mapSecretToClusters r (om_Name ob) w)\<rparr>],
      ctl_Channel = None,
      ctl_Reconcile = (\<lambda>req w. Cluster_Reconcile (env_ClusterLib env) r (nn_Name req) w)\<rparr>"

definition RemoteCluster_SetupWithManager ::
    "('m, 'st) MainEnv \<Rightarrow> 'st RemoteClusterReconciler \<Rightarrow> string \<Rightarrow> 'm \<Rightarrow> go_error option \<times> 'm" where
  "RemoteCluster_SetupWithManager env r namespace m = env_Complete env (RemoteCluster_controller env r namespace) m"

section \<open>Model: the objects that the controllers share\<close>

definition sourceProvider :: "AuthLib \<Rightarrow> KubeReader \<Rightarrow> CachingProvider \<Rightarrow> CacheState Provider" where
  "sourceProvider auth reader caching = RoutingProvider (LocalProvider reader) (Some (Caching_Provider auth caching))"

definition source_resolvers ::
    "(IntOrString \<Rightarrow> int) \<Rightarrow> lsas \<Rightarrow> (string list \<Rightarrow> LookupClient) \<Rightarrow> CacheState Provider \<Rightarrow> CacheState registry" where
  "source_resolvers intValue lsas system provider =
     [SourceTypeStatic \<mapsto> Static_Resolve intValue,
      SourceTypeDNS \<mapsto> DNS_Resolve intValue system None,
      SourceTypePods \<mapsto> Pods_Resolve intValue lsas provider,
      SourceTypeNodes \<mapsto> Nodes_Resolve intValue lsas provider,
      SourceTypeService \<mapsto> Service_Resolve intValue lsas system provider None]"

text \<open>
  The namespace of the credentials is the flag or the environment, and without either the program does not start; it is
  the only one that the builder reads Secrets from.
\<close>

definition credentialsNamespace :: "string \<Rightarrow> string \<Rightarrow> string option" where
  "credentialsNamespace flag podNamespace =
     (if flag = [] then (if podNamespace = [] then None else Some podNamespace) else Some flag)"

definition authBuilder :: "(NamespacedName \<Rightarrow> (string \<rightharpoonup> bytes) result) \<Rightarrow> string \<Rightarrow> bool \<Rightarrow> bool \<Rightarrow> Builder" where
  "authBuilder getSecret namespace allowInsecureTLS allowExecCredentials =
     \<lparr>bld_Secrets = \<lparr>sec_Get = getSecret, sec_Namespace = namespace\<rparr>,
      bld_Options = \<lparr>opt_CredentialsNamespace = namespace, opt_AllowInsecureTLS = allowInsecureTLS,
                     opt_AllowExecCredentials = allowExecCredentials, opt_ExecCommandAllowlist = []\<rparr>\<rparr>"

text \<open>
  The reconciler as the program starts it: the operations of the manager's client (\<^verbatim>\<open>mgr\<close>), the table of resolvers,
  the shared cache of remote clients, and no default address policy.
\<close>

definition main_reconciler ::
    "'st CrossServiceReconciler \<Rightarrow> (IntOrString \<Rightarrow> int) \<Rightarrow> lsas \<Rightarrow> (string list \<Rightarrow> LookupClient) \<Rightarrow> CacheState Provider \<Rightarrow> int
     \<Rightarrow> 'st CrossServiceReconciler" where
  "main_reconciler mgr intValue lsas system provider maxEndpointsPerSlice =
     mgr\<lparr>csr_Recorder := True, csr_Resolver := Registry_Resolve (source_resolvers intValue lsas system provider),
         csr_DefaultAddressPolicy := None, csr_MaxEndpointsPerSlice := maxEndpointsPerSlice, csr_Clusters := True\<rparr>"

text \<open>The cache of remote clients, its fetch of a RemoteCluster through the manager's client, and the channel of remote events.\<close>

definition remoteEvents :: EventChannel where
  "remoteEvents = \<lparr>ec_Buffer = [], ec_Capacity = 2048\<rparr>"

definition fetchCluster :: "('m, 'st) MainEnv \<Rightarrow> string \<Rightarrow> RemoteCluster result" where
  "fetchCluster env name =
     (case env_GetCluster env \<lparr>nn_Namespace = [], nn_Name = name\<rparr> of Inl err \<Rightarrow> Inl err | Inr rc \<Rightarrow> Inr rc)"

definition remoteClusters :: "('m, 'st) MainEnv \<Rightarrow> Builder \<Rightarrow> CachingProvider" where
  "remoteClusters env builder =
     \<lparr>cp_Builder = builder, cp_Fetch = fetchCluster env, cp_New = env_NewCluster env,
      cp_OnStart = Some (\<lambda>name. fst (RemoteWatcher (env_Informers env name) name ())), cp_Sync = env_Sync env\<rparr>"

section \<open>Model: the program\<close>

text \<open>A step of the start: an error is logged under a title and ends the program with status 1.\<close>

definition or_exit :: "string \<Rightarrow> go_error option \<times> 'm \<Rightarrow> ('m \<Rightarrow> string + 'b) \<Rightarrow> string + 'b" where
  "or_exit title res k = (case res of (Some err, m) \<Rightarrow> Inl title | (None, m) \<Rightarrow> k m)"

text \<open>The two reconcilers, over the shared builder and cache, and everything before the manager is started, with the manager as it is then.\<close>

definition started_crossservice :: "('m, 'st) MainEnv \<Rightarrow> Flags \<Rightarrow> Builder \<Rightarrow> 'st CrossServiceReconciler" where
  "started_crossservice env fl builder =
     (let provider = sourceProvider (clib_auth (env_ClusterLib env)) (env_Reader env) (remoteClusters env builder);
          lib = env_ControllerLib env
      in main_reconciler (env_Client env) (lib_intValue lib) (lib_lsas lib) (NewSystemLookupClient (env_Net env)) provider (fl_maxEndpointsPerSlice fl))"

definition started_cluster :: "('m, 'st) MainEnv \<Rightarrow> Builder \<Rightarrow> 'st RemoteClusterReconciler" where
  "started_cluster env builder = (env_ClusterClient env)\<lparr>rcr_Builder := builder, rcr_ProbeInterval := 0\<rparr>"

definition prepare :: "('m, 'st) MainEnv \<Rightarrow> Flags \<Rightarrow> string \<Rightarrow> string + 'm" where
  "prepare env fl podNamespace =
     (case credentialsNamespace (fl_credentialsNamespace fl) podNamespace of
        None \<Rightarrow> Inl ''cannot determine the credentials namespace: set --credentials-namespace, or run with POD_NAMESPACE from the downward API''
      | Some namespace \<Rightarrow>
          (case env_NewManager env (managerOptions fl namespace) of
             Inl err \<Rightarrow> Inl ''Failed to start manager''
           | Inr m \<Rightarrow>
               or_exit ''unable to set up field indexes'' (SetupIndexes env m) (\<lambda>m.
               or_exit ''unable to set up remote cluster indexes'' (SetupRemoteClusterIndexes env m) (\<lambda>m.
               let builder = authBuilder (env_GetSecret env) namespace (fl_allowInsecureTLS fl) (fl_allowExecCredentials fl)
               in or_exit ''unable to create controller: CrossService''
                    (CrossService_SetupWithManager env (started_crossservice env fl builder) (Some remoteEvents) m) (\<lambda>m.
                  or_exit ''unable to create controller: RemoteCluster''
                    (RemoteCluster_SetupWithManager env (started_cluster env builder) namespace m) (\<lambda>m.
                  or_exit ''Failed to set up health check'' (env_AddHealthzCheck env ''healthz'' m) (\<lambda>m.
                  or_exit ''Failed to set up ready check'' (env_AddReadyzCheck env ''readyz'' m) (\<lambda>m. Inr m))))))))"

definition main :: "('m, 'st) MainEnv \<Rightarrow> Flags \<Rightarrow> string \<Rightarrow> string + 'm" where
  "main env fl podNamespace =
     (case prepare env fl podNamespace of
        Inl title \<Rightarrow> Inl title
      | Inr m \<Rightarrow> or_exit ''Failed to run manager'' (env_Start env m, m) (\<lambda>m. Inr m))"

interpretation sources: resolver_contract "Registry_Resolve (source_resolvers intValue lsas system provider)"
  for intValue lsas system provider
proof (rule registry_contract)
  fix t res
  assume "source_resolvers intValue lsas system provider t = Some res"
  then consider "res = Static_Resolve intValue" | "res = DNS_Resolve intValue system None"
    | "res = Pods_Resolve intValue lsas provider" | "res = Nodes_Resolve intValue lsas provider"
    | "res = Service_Resolve intValue lsas system provider None"
    by (auto simp: source_resolvers_def split: if_splits)
  then show "resolver_contract res"
    by cases (simp_all add: static.resolver_contract_axioms dns.resolver_contract_axioms pods.resolver_contract_axioms
        nodes.resolver_contract_axioms service.resolver_contract_axioms)
qed

section \<open>Lemmas: what is registered\<close>

definition manager_ok ::
    "('m, 'st) MainEnv \<Rightarrow> ('m \<Rightarrow> ManagerOptions) \<Rightarrow> ('m \<Rightarrow> FieldIndex list) \<Rightarrow> ('m \<Rightarrow> 'st Controller list) \<Rightarrow> bool" where
  "manager_ok env opts indexes controllers \<longleftrightarrow>
     (\<forall>o' m. env_NewManager env o' = Inr m \<longrightarrow> opts m = o' \<and> indexes m = [] \<and> controllers m = []) \<and>
     (\<forall>f m m'. env_IndexField env f m = (None, m') \<longrightarrow>
        opts m' = opts m \<and> indexes m' = indexes m @ [f] \<and> controllers m' = controllers m) \<and>
     (\<forall>c m m'. env_Complete env c m = (None, m') \<longrightarrow>
        opts m' = opts m \<and> indexes m' = indexes m \<and> controllers m' = controllers m @ [c]) \<and>
     (\<forall>n m m'. env_AddHealthzCheck env n m = (None, m') \<longrightarrow>
        opts m' = opts m \<and> indexes m' = indexes m \<and> controllers m' = controllers m) \<and>
     (\<forall>n m m'. env_AddReadyzCheck env n m = (None, m') \<longrightarrow>
        opts m' = opts m \<and> indexes m' = indexes m \<and> controllers m' = controllers m)"

lemma manager_ok_simps:
  assumes "manager_ok env opts indexes controllers"
  shows "env_NewManager env o' = Inr m \<Longrightarrow> opts m = o' \<and> indexes m = [] \<and> controllers m = []"
    and "env_IndexField env f m = (None, m') \<Longrightarrow> opts m' = opts m \<and> indexes m' = indexes m @ [f] \<and> controllers m' = controllers m"
    and "env_Complete env c m = (None, m') \<Longrightarrow> opts m' = opts m \<and> indexes m' = indexes m \<and> controllers m' = controllers m @ [c]"
    and "env_AddHealthzCheck env n m = (None, m') \<Longrightarrow> opts m' = opts m \<and> indexes m' = indexes m \<and> controllers m' = controllers m"
    and "env_AddReadyzCheck env n m = (None, m') \<Longrightarrow> opts m' = opts m \<and> indexes m' = indexes m \<and> controllers m' = controllers m"
  using assms by (auto simp: manager_ok_def)

lemma or_exit_Inr: "or_exit title res k = Inr v \<longleftrightarrow> (\<exists>m. res = (None, m) \<and> k m = Inr v)"
  by (auto simp: or_exit_def split: prod.splits option.splits)

text \<open>A program that gets to the start of its manager has registered three indexes and, after them, two controllers.\<close>

lemma prepare_registers:
  assumes "manager_ok env opts indexes controllers" and "prepare env fl pod = Inr m"
  obtains ns where "credentialsNamespace (fl_credentialsNamespace fl) pod = Some ns"
    and "opts m = managerOptions fl ns" and "indexes m = [source_index, secret_index, cluster_index]"
    and "controllers m =
      (let b = authBuilder (env_GetSecret env) ns (fl_allowInsecureTLS fl) (fl_allowExecCredentials fl)
       in [CrossService_controller env (started_crossservice env fl b) (Some remoteEvents),
           RemoteCluster_controller env (started_cluster env b) ns])"
proof -
  note laws = manager_ok_simps [OF assms(1)]
  from assms(2) obtain ns m0 m1 m2 m3 m4 m5 where ns: "credentialsNamespace (fl_credentialsNamespace fl) pod = Some ns"
    and m0: "env_NewManager env (managerOptions fl ns) = Inr m0" and m1: "SetupIndexes env m0 = (None, m1)"
    and m2: "SetupRemoteClusterIndexes env m1 = (None, m2)"
    and m3: "CrossService_SetupWithManager env (started_crossservice env fl (authBuilder (env_GetSecret env) ns
        (fl_allowInsecureTLS fl) (fl_allowExecCredentials fl))) (Some remoteEvents) m2 = (None, m3)"
    and m4: "RemoteCluster_SetupWithManager env (started_cluster env (authBuilder (env_GetSecret env) ns
        (fl_allowInsecureTLS fl) (fl_allowExecCredentials fl))) ns m3 = (None, m4)"
    and m5: "env_AddHealthzCheck env ''healthz'' m4 = (None, m5)" and m: "env_AddReadyzCheck env ''readyz'' m5 = (None, m)"
    unfolding prepare_def Let_def by (auto simp: or_exit_Inr split: option.splits sum.splits)
  from m2 obtain m' where "env_IndexField env secret_index m1 = (None, m')" "env_IndexField env cluster_index m' = (None, m2)"
    by (auto simp: SetupRemoteClusterIndexes_def split: prod.splits option.splits)
  note i2 = laws(2) [OF this(1)] laws(2) [OF this(2)]
  note i1 = laws(1) [OF m0] laws(2) [OF m1 [unfolded SetupIndexes_def]]
  note cs = laws(3) [OF m3 [unfolded CrossService_SetupWithManager_def]] laws(3) [OF m4 [unfolded RemoteCluster_SetupWithManager_def]]
  show thesis
    by (rule that [OF ns]) (simp_all add: Let_def laws(5) [OF m] laws(4) [OF m5] cs i2 i1)
qed

section \<open>Lemmas: events of the local cluster\<close>

text \<open>The requests that an event of a kind gives a controller through its watches.\<close>

definition watch_requests :: "'st Controller \<Rightarrow> ApiKind \<Rightarrow> ObjectMeta \<Rightarrow> 'st World \<Rightarrow> NamespacedName list" where
  "watch_requests c kind ob w =
     concat (map (\<lambda>wt. fst (wt_Map wt ob w)) (filter (\<lambda>wt. wt_Kind wt = kind \<and> wt_Predicate wt ob) (ctl_Watches c)))"

text \<open>
  The law of a list by a field through the manager's cache, once it has synced: it is served for the fields that are indexed, and
  gives the stored objects for which the index function yields the value.
\<close>

definition cached_list_ok :: "('m, 'st) MainEnv \<Rightarrow> FieldIndex list \<Rightarrow> CrossService set \<Rightarrow> 'st \<Rightarrow> bool" where
  "cached_list_ok env indexes stored st \<longleftrightarrow>
     (\<forall>f\<in>set indexes. fi_Kind f = CrossServiceKind \<longrightarrow>
        (\<forall>key. \<exists>items. env_ListBy env (fi_Field f) key st = Inr items \<and>
           set items = {x \<in> stored. key \<in> set (fi_Keys f (CrossServiceObject x))}))"

lemma cached_lists:
  assumes "cached_list_ok env [source_index, secret_index, cluster_index] stored st"
  shows "index_ok sourceRefKeys stored (\<lambda>k. env_ListBy env SourceRefIndex k st)"
    and "\<forall>key. \<exists>items. env_ListBy env SourceRefIndex key st = Inr items"
    and "\<exists>items. env_ListBy env ClusterRefIndex n st = Inr items \<and> set items = {x \<in> stored. n \<in> set (clusterRefKeys x)}"
  using assms by (auto simp: cached_list_ok_def source_index_def cluster_index_def index_ok_def)
    (metis (no_types, lifting) Inr_inject mem_Collect_eq)+

lemma clusterRef_iff: "n \<in> set (clusterRefKeys x) \<longleftrightarrow> map_option cr_Name (src_ClusterRef (spec_Source (xs_Spec x))) = Some n"
  by (cases "src_ClusterRef (spec_Source (xs_Spec x))") (auto simp: clusterRefKeys_def)

lemma source_watches:
  "watch_requests (CrossService_controller env r events) (SourceKind k) ob w =
     local_map k (\<lambda>key. env_ListBy env SourceRefIndex key (wd_api w)) ob"
  by (cases k; cases events) (simp_all add: watch_requests_def CrossService_controller_def watchLocalSources_def pure_watch_def Let_def)

lemma cluster_watch:
  "watch_requests (CrossService_controller env r events) RemoteClusterKind ob w =
     mapRemoteCluster (\<lambda>n. env_ListBy env ClusterRefIndex n (wd_api w)) (om_Name ob)"
  by (cases events) (simp_all add: watch_requests_def CrossService_controller_def watchLocalSources_def pure_watch_def Let_def)

section \<open>Lemmas: builders that build the same\<close>

lemma remoteClusters_fields:
  "cp_Builder (remoteClusters env b) = b" "cp_Fetch (remoteClusters env b) = fetchCluster env"
  "cp_New (remoteClusters env b) = env_NewCluster env" "cp_Sync (remoteClusters env b) = env_Sync env"
  "cp_OnStart (remoteClusters env b) = Some (\<lambda>name. fst (RemoteWatcher (env_Informers env name) name ()))"
  by (simp_all add: remoteClusters_def)

lemma started_cluster_fields:
  "rcr_Get (started_cluster env b) = rcr_Get (env_ClusterClient env)" "rcr_Update (started_cluster env b) = rcr_Update (env_ClusterClient env)"
  "rcr_UpdateStatus (started_cluster env b) = rcr_UpdateStatus (env_ClusterClient env)"
  "rcr_ListBySecret (started_cluster env b) = rcr_ListBySecret (env_ClusterClient env)" "rcr_Builder (started_cluster env b) = b"
  "rcr_ProbeInterval (started_cluster env b) = 0" "rcr_Now (started_cluster env b) = rcr_Now (env_ClusterClient env)"
  by (simp_all add: started_cluster_def)

text \<open>Where the read of a Secret is used: in the builder, and nowhere else.\<close>

lemma secret_fields:
  "env_NewManager (env\<lparr>env_GetSecret := g\<rparr>) = env_NewManager env" "env_IndexField (env\<lparr>env_GetSecret := g\<rparr>) = env_IndexField env"
  "env_Complete (env\<lparr>env_GetSecret := g\<rparr>) = env_Complete env" "env_ListBy (env\<lparr>env_GetSecret := g\<rparr>) = env_ListBy env"
  "env_AddHealthzCheck (env\<lparr>env_GetSecret := g\<rparr>) = env_AddHealthzCheck env" "env_Client (env\<lparr>env_GetSecret := g\<rparr>) = env_Client env"
  "env_AddReadyzCheck (env\<lparr>env_GetSecret := g\<rparr>) = env_AddReadyzCheck env" "env_Reader (env\<lparr>env_GetSecret := g\<rparr>) = env_Reader env"
  "env_ClusterClient (env\<lparr>env_GetSecret := g\<rparr>) = env_ClusterClient env" "env_GetCluster (env\<lparr>env_GetSecret := g\<rparr>) = env_GetCluster env"
  "env_NewCluster (env\<lparr>env_GetSecret := g\<rparr>) = env_NewCluster env" "env_Informers (env\<lparr>env_GetSecret := g\<rparr>) = env_Informers env"
  "env_Sync (env\<lparr>env_GetSecret := g\<rparr>) = env_Sync env" "env_Net (env\<lparr>env_GetSecret := g\<rparr>) = env_Net env"
  "env_ControllerLib (env\<lparr>env_GetSecret := g\<rparr>) = env_ControllerLib env" "env_ClusterLib (env\<lparr>env_GetSecret := g\<rparr>) = env_ClusterLib env"
  "env_GetSecret (env\<lparr>env_GetSecret := g\<rparr>) = g"
  by simp_all

lemma secret_irrelevant:
  "fetchCluster (env\<lparr>env_GetSecret := g\<rparr>) = fetchCluster env"
  "remoteClusters (env\<lparr>env_GetSecret := g\<rparr>) b = remoteClusters env b"
  "CrossService_controller (env\<lparr>env_GetSecret := g\<rparr>) r ch = CrossService_controller env r ch"
  "RemoteCluster_controller (env\<lparr>env_GetSecret := g\<rparr>) k ns = RemoteCluster_controller env k ns"
  "SetupIndexes (env\<lparr>env_GetSecret := g\<rparr>) = SetupIndexes env"
  "SetupRemoteClusterIndexes (env\<lparr>env_GetSecret := g\<rparr>) = SetupRemoteClusterIndexes env"
  "started_crossservice (env\<lparr>env_GetSecret := g\<rparr>) fl b = started_crossservice env fl b"
  "started_cluster (env\<lparr>env_GetSecret := g\<rparr>) b = started_cluster env b"
  unfolding fetchCluster_def remoteClusters_def CrossService_controller_def RemoteCluster_controller_def SetupIndexes_def
    SetupRemoteClusterIndexes_def started_crossservice_def started_cluster_def secret_fields fun_eq_iff
  by simp_all

lemma started_same:
  assumes "Builder_Build (clib_auth (env_ClusterLib env)) b = Builder_Build (clib_auth (env_ClusterLib env)) b'"
  shows "started_crossservice env fl b = started_crossservice env fl b'"
    and "RemoteCluster_controller env (started_cluster env b) ns = RemoteCluster_controller env (started_cluster env b') ns"
proof -
  have "start_and_put (remoteClusters env b) = start_and_put (remoteClusters env b')"
    by (intro ext) (unfold start_and_put_def start_def remoteClusters_fields, rule refl)
  then have "Cache_Get (clib_auth (env_ClusterLib env)) (remoteClusters env b) = Cache_Get (clib_auth (env_ClusterLib env)) (remoteClusters env b')"
    by (intro ext) (unfold Cache_Get_def remoteClusters_fields assms, simp only:)
  then show "started_crossservice env fl b = started_crossservice env fl b'"
    by (simp add: started_crossservice_def sourceProvider_def Caching_Provider_def Let_def)
  have "Cluster_Reconcile (env_ClusterLib env) (started_cluster env b) = Cluster_Reconcile (env_ClusterLib env) (started_cluster env b')"
    by (intro ext) (unfold Cluster_Reconcile_def cluster_report_def cluster_finalize_def cluster_writeStatus_def probeInterval_def
        started_cluster_fields assms, rule refl)
  moreover have "mapSecretToClusters (started_cluster env b) = mapSecretToClusters (started_cluster env b')"
    by (intro ext) (unfold mapSecretToClusters_def started_cluster_fields, rule refl)
  ultimately show "RemoteCluster_controller env (started_cluster env b) ns = RemoteCluster_controller env (started_cluster env b') ns"
    by (simp add: RemoteCluster_controller_def)
qed

section \<open>Properties\<close>


text \<open>
  C14: the credentials namespace is the only one.  Without one the program does not start; with one, the manager caches Secrets from it
  alone, and nothing that the program registers and runs depends on a Secret of another namespace, whatever a RemoteCluster
  says (9.1): two servers that agree on the Secrets of that namespace are told apart neither by the start nor by a reconciliation.
\<close>

theorem main_reads_one_namespace:
  assumes "manager_ok env opts indexes controllers" and "prepare env fl pod = Inr m"
  shows "\<exists>ns. ns \<noteq> [] \<and> credentialsNamespace (fl_credentialsNamespace fl) pod = Some ns \<and>
     mgo_ByObject (opts m) SecretKind = Some [ns] \<and>
     (\<forall>getSecret. (\<forall>n. getSecret \<lparr>nn_Namespace = ns, nn_Name = n\<rparr> = env_GetSecret env \<lparr>nn_Namespace = ns, nn_Name = n\<rparr>) \<longrightarrow>
        prepare (env\<lparr>env_GetSecret := getSecret\<rparr>) fl pod = prepare env fl pod)"
proof -
  from prepare_registers [OF assms] obtain ns where ns: "credentialsNamespace (fl_credentialsNamespace fl) pod = Some ns"
    and opts: "opts m = managerOptions fl ns" by metis
  have "prepare (env\<lparr>env_GetSecret := g\<rparr>) fl pod = prepare env fl pod"
    if agree: "\<forall>n. g \<lparr>nn_Namespace = ns, nn_Name = n\<rparr> = env_GetSecret env \<lparr>nn_Namespace = ns, nn_Name = n\<rparr>" for g
  proof -
    let ?b = "\<lambda>g. authBuilder g ns (fl_allowInsecureTLS fl) (fl_allowExecCredentials fl)"
    have "Secrets_Value \<lparr>sec_Get = g, sec_Namespace = ns\<rparr> = Secrets_Value \<lparr>sec_Get = env_GetSecret env, sec_Namespace = ns\<rparr>"
      using agree by (intro Value_namespace) simp_all
    then have "Builder_Build lib (?b g) = Builder_Build lib (?b (env_GetSecret env))" for lib
      by (intro Build_reads_values) (simp_all add: authBuilder_def)
    note same = started_same [OF this]
    show ?thesis
      unfolding prepare_def ns Let_def option.case CrossService_SetupWithManager_def RemoteCluster_SetupWithManager_def secret_fields
        secret_irrelevant same ..
  qed
  moreover have "ns \<noteq> []" using ns by (auto simp: credentialsNamespace_def split: if_splits)
  ultimately show ?thesis using ns opts by (auto simp: managerOptions_def)
qed

text \<open>
  With the flag for HTTP/2 unset, as it is by default, both servers of the program offer HTTP/1.1 alone; metrics that are served
  over TLS are behind authentication and authorization.
\<close>

theorem main_serves_http1:
  assumes "manager_ok env opts indexes controllers" and "prepare env fl pod = Inr m" and "\<not> fl_enableHTTP2 fl"
  shows "tcf_NextProtos (fold (\<lambda>f. f) (mo_TLSOpts (mgo_Metrics (opts m))) cfg) = [''http/1.1''] \<and>
     tcf_NextProtos (fold (\<lambda>f. f) (wo_TLSOpts (mgo_WebhookServer (opts m))) cfg) = [''http/1.1''] \<and>
     (mo_SecureServing (mgo_Metrics (opts m)) \<longrightarrow> mo_FilterProvider (mgo_Metrics (opts m)) = Some WithAuthenticationAndAuthorization)"
proof -
  from prepare_registers [OF assms(1,2)] obtain ns where "opts m = managerOptions fl ns" by metis
  then show ?thesis using assms(3)
    by (simp add: managerOptions_def metricsServerOptions_def webhookServerOptions_def tlsOpts_def disableHTTP2_def Let_def)
qed

section \<open>Witnesses\<close>

text \<open>A manager that keeps what is registered, over the stored CrossServices of the events above.\<close>

type_synonym demo_api = "(NamespacedName \<rightharpoonup> Service) \<times> EndpointSlice list"

type_synonym demo_manager = "ManagerOptions \<times> FieldIndex list \<times> demo_api Controller list"

definition demo_lookup :: LookupClient where
  "demo_lookup = \<lparr>lk_LookupNetIP = (\<lambda>network name. Inl (Errorf [Lit ''no such host''])), lk_LookupSRV = (\<lambda>name. Inl (Errorf []))\<rparr>"

definition demo_net :: NetLib where
  "demo_net = \<lparr>net_DefaultResolver = \<lparr>nr_LookupNetIP = lk_LookupNetIP demo_lookup, nr_LookupSRV = (\<lambda>_ _ name. Inl (Errorf []))\<rparr>,
     net_Dialing = (\<lambda>dial. \<lparr>nr_LookupNetIP = lk_LookupNetIP demo_lookup, nr_LookupSRV = (\<lambda>_ _ name. Inl (Errorf []))\<rparr>)\<rparr>"

definition demo_cluster_client :: "demo_api RemoteClusterReconciler" where
  "demo_cluster_client =
     \<lparr>rcr_Get = (\<lambda>n st. Inr demo_token_cluster), rcr_Update = (\<lambda>rc st. (Inr rc, st)), rcr_UpdateStatus = (\<lambda>rc st. (None, st)),
      rcr_ListBySecret = (\<lambda>s st. Inr []), rcr_Builder = demo_builder, rcr_ProbeInterval = 0, rcr_Now = 7\<rparr>"

definition demo_env :: "(demo_manager, demo_api) MainEnv" where
  "demo_env =
     \<lparr>env_NewManager = (\<lambda>o'. Inr (o', [], [])), env_IndexField = (\<lambda>f (o', is, cs). (None, (o', is @ [f], cs))),
      env_Complete = (\<lambda>c (o', is, cs). (None, (o', is, cs @ [c]))), env_AddHealthzCheck = (\<lambda>n m. (None, m)),
      env_AddReadyzCheck = (\<lambda>n m. (None, m)), env_Start = (\<lambda>m. None), env_Client = demo_reconciler (Inr demo_admitted) (\<lambda>src ports st. (Inl (Errorf []), st)),
      env_ClusterClient = demo_cluster_client,
      env_ListBy = (\<lambda>field key st. if field = SourceRefIndex then demo_list key
        else Inr (filter (\<lambda>x. key \<in> set (clusterRefKeys x)) demo_stored)),
      env_GetSecret = (\<lambda>k. Inr [''token'' \<mapsto> ''abc'']), env_GetCluster = (\<lambda>k. Inr demo_token_cluster), env_Reader = empty_reader,
      env_NewCluster = (\<lambda>_. Inr empty_reader),
      env_Informers = (\<lambda>_. \<lparr>inf_GetInformer = (\<lambda>k st. (None, st)), inf_AddEventHandler = (\<lambda>k h st. (None, st))\<rparr>),
      env_Sync = (\<lambda>_. True), env_Net = demo_net, env_ControllerLib = demo_controller_lib, env_ClusterLib = demo_cluster_lib\<rparr>"

lemma demo_manager_ok: "manager_ok demo_env fst (\<lambda>m. fst (snd m)) (\<lambda>m. snd (snd m))"
  by (auto simp: manager_ok_def demo_env_def)

lemma demo_prepare: "\<exists>m. prepare demo_env default_flags ''system'' = Inr m"
  by (simp add: prepare_def credentialsNamespace_def default_flags_def demo_env_def or_exit_def SetupIndexes_def SetupRemoteClusterIndexes_def
      CrossService_SetupWithManager_def RemoteCluster_SetupWithManager_def Let_def)

lemma demo_cached_list: "cached_list_ok demo_env [source_index, secret_index, cluster_index] (set demo_stored) st"
  by (simp add: cached_list_ok_def source_index_def secret_index_def cluster_index_def demo_env_def demo_list_def SourceRefIndex_def
      ClusterRefIndex_def)


text \<open>A server that holds other values behind the Secrets of another namespace.\<close>

lemma main_reads_one_namespace_witness:
  "prepare (demo_env\<lparr>env_GetSecret := (\<lambda>k. Inr [''token'' \<mapsto> if nn_Namespace k = ''other'' then ''xyz'' else ''abc''])\<rparr>) default_flags ''system'' =
     prepare demo_env default_flags ''system''"
proof -
  obtain m where m: "prepare demo_env default_flags ''system'' = Inr m" using demo_prepare by blast
  have ns: "credentialsNamespace (fl_credentialsNamespace default_flags) ''system'' = Some ''system''"
    by (simp add: credentialsNamespace_def default_flags_def)
  have "env_GetSecret demo_env = (\<lambda>k. Inr [''token'' \<mapsto> ''abc''])" by (simp add: demo_env_def)
  moreover have "\<forall>getSecret. (\<forall>n. getSecret \<lparr>nn_Namespace = ''system'', nn_Name = n\<rparr> = env_GetSecret demo_env \<lparr>nn_Namespace = ''system'', nn_Name = n\<rparr>) \<longrightarrow>
      prepare (demo_env\<lparr>env_GetSecret := getSecret\<rparr>) default_flags ''system'' = prepare demo_env default_flags ''system''"
    using main_reads_one_namespace [OF demo_manager_ok m] unfolding ns by (metis option.inject)
  ultimately show ?thesis by simp
qed

lemma main_serves_http1_witness:
  "\<exists>m. prepare demo_env default_flags ''system'' = Inr m \<and>
     tcf_NextProtos (fold (\<lambda>f. f) (mo_TLSOpts (mgo_Metrics (fst m))) \<lparr>tcf_NextProtos = [''h2'']\<rparr>) = [''http/1.1'']"
proof -
  obtain m where m: "prepare demo_env default_flags ''system'' = Inr m" using demo_prepare by blast
  moreover have "\<not> fl_enableHTTP2 default_flags" by (simp add: default_flags_def)
  ultimately show ?thesis using main_serves_http1 [OF demo_manager_ok m] by blast
qed

end
