(* ===== verification/Auth_Token.thy ===== *)
theory Auth_Token
  imports Auth
begin

text \<open>
  The two ends of \<^verbatim>\<open>internal/clusters/auth\<close> where secret material could escape: the exchange of an ambient token for one
  of another service account (\<^verbatim>\<open>impersonatedTokenSource.Token\<close> in \<^verbatim>\<open>google.go\<close>), and the errors of a build, which
  end up in conditions, events and the log.

  The HTTP client, the parser of dates and the clock are the record \<open>TokenLib\<close>.
\<close>

section \<open>Model: the request body\<close>

text \<open>
  \<^verbatim>\<open>encoding/json\<close> on the one value that is marshalled: a map, written in the order of its keys, of a list of
  strings and a string.  Characters that JSON or HTML gives a meaning are escaped.
\<close>

definition hex_digit :: "nat \<Rightarrow> char" where
  "hex_digit n = ''0123456789abcdef'' ! (n mod 16)"

definition json_char :: "char \<Rightarrow> string" where
  "json_char c =
     (if c = CHR 0x22 then [CHR 0x5C, CHR 0x22]
      else if c = CHR 0x5C then [CHR 0x5C, CHR 0x5C]
      else if c = CHR 0x08 then [CHR 0x5C, CHR ''b'']
      else if c = CHR 0x0C then [CHR 0x5C, CHR ''f'']
      else if c = CHR 0x0A then [CHR 0x5C, CHR ''n'']
      else if c = CHR 0x0D then [CHR 0x5C, CHR ''r'']
      else if c = CHR 0x09 then [CHR 0x5C, CHR ''t'']
      else if of_char c < (32 :: nat) \<or> c \<in> {CHR ''<'', CHR ''>'', CHR ''&''} then
        [CHR 0x5C, CHR ''u'', CHR ''0'', CHR ''0'', hex_digit (of_char c div 16), hex_digit (of_char c)]
      else [c])"

definition json_string :: "string \<Rightarrow> string" where
  "json_string s = [CHR 0x22] @ concat (map json_char s) @ [CHR 0x22]"

definition json_strings :: "string list \<Rightarrow> string" where
  "json_strings ss = ''['' @ join '','' (map json_string ss) @ '']''"

definition token_request_body :: "string list \<Rightarrow> string" where
  "token_request_body scopes =
     ''{'' @ json_string ''lifetime'' @ '':'' @ json_string ''3600s'' @ '','' @
     json_string ''scope'' @ '':'' @ json_strings scopes @ ''}''"

section \<open>Model: the exchange\<close>

record oauth2_Token =
  tok_AccessToken :: string
  tok_Expiry :: time

record IAMResponse =
  iam_AccessToken :: string
  iam_ExpireTime :: string

record IAMReply =
  iam_StatusCode :: int
  iam_Status :: string
  iam_Decoded :: "IAMResponse result"

record TokenLib =
  tl_NewRequest :: "string \<Rightarrow> bytes \<Rightarrow> go_error option"
  tl_Do :: "token_source \<Rightarrow> string \<Rightarrow> bytes \<Rightarrow> IAMReply result"
  tl_ParseRFC3339 :: "string \<Rightarrow> time result"
  tl_Now :: time

definition token_endpoint :: "string \<Rightarrow> string" where
  "token_endpoint target =
     ''https://iamcredentials.googleapis.com/v1/projects/-/serviceAccounts/'' @ target @ '':generateAccessToken''"

definition Impersonated_Token :: "TokenLib \<Rightarrow> token_source \<Rightarrow> string \<Rightarrow> string list \<Rightarrow> oauth2_Token result" where
  "Impersonated_Token lib base target scopes =
     (let body = token_request_body scopes;
          endpoint = token_endpoint target
      in bindR (case tl_NewRequest lib endpoint body of Some err \<Rightarrow> Inl err | None \<Rightarrow> Inr ()) (\<lambda>_.
         bindR (case tl_Do lib base endpoint body of
                  Inl err \<Rightarrow> Inl (Wrapped [Lit ''impersonating '', Lit target, Lit '': ''] err)
                | Inr resp \<Rightarrow> Inr resp) (\<lambda>resp.
           if iam_StatusCode resp \<noteq> 200 then
             Inl (Errorf [Lit ''impersonating '', Lit target, Lit '': iamcredentials returned '', Lit (iam_Status resp)])
           else bindR (case iam_Decoded resp of
                  Inl err \<Rightarrow> Inl (Wrapped [Lit ''decoding impersonation response: ''] err)
                | Inr out \<Rightarrow> Inr out) (\<lambda>out.
             let expiry = (case tl_ParseRFC3339 lib (iam_ExpireTime out) of
                   Inl err \<Rightarrow> tl_Now lib + 55 * Minute
                 | Inr t \<Rightarrow> t)
             in Inr \<lparr>tok_AccessToken = iam_AccessToken out, tok_Expiry = expiry\<rparr>))))"

section \<open>Lemmas: errors under a change of secret values\<close>

text \<open>
  Two runs that fail with the same error or both succeed.  The relation is kept by calls in sequence, as a security type is
  kept by the composition of commands: it is enough that each continuation keeps it.
\<close>

definition same_errors :: "'a result \<Rightarrow> 'b result \<Rightarrow> bool" where
  "same_errors r r' \<longleftrightarrow> (case r of Inl err \<Rightarrow> r' = Inl err | Inr v \<Rightarrow> \<exists>v'. r' = Inr v')"

lemma same_errors_simps [simp]:
  "same_errors (Inl e) r' \<longleftrightarrow> r' = Inl e" "same_errors (Inr v) (Inr v')" "same_errors r r"
  by (auto simp: same_errors_def split: sum.split)

lemma same_errors_bind:
  assumes "same_errors r r'" and "\<And>v v'. r = Inr v \<Longrightarrow> r' = Inr v' \<Longrightarrow> same_errors (f v) (f' v')"
  shows "same_errors (bindR r f) (bindR r' f')"
  using assms by (cases r; cases r') (auto simp: same_errors_def)

lemma same_errors_seq:
  assumes "\<And>v. same_errors (f v) (f' v)"
  shows "same_errors (bindR r f) (bindR r f')"
  using assms by (intro same_errors_bind) auto

text \<open>Secrets with other values behind the same keys.\<close>

definition usable :: "(string \<rightharpoonup> bytes) \<Rightarrow> string \<Rightarrow> bool" where
  "usable data k \<longleftrightarrow> (case data k of None \<Rightarrow> False | Some v \<Rightarrow> 0 < length v)"

definition same_shape :: "Builder \<Rightarrow> Builder \<Rightarrow> bool" where
  "same_shape b b' \<longleftrightarrow>
     bld_Options b = bld_Options b' \<and> sec_Namespace (bld_Secrets b) = sec_Namespace (bld_Secrets b') \<and>
     (\<forall>k. map_sum id usable (sec_Get (bld_Secrets b) k) = map_sum id usable (sec_Get (bld_Secrets b') k))"

lemma Value_same_errors:
  assumes "same_shape b b'"
  shows "same_errors (Secrets_Value (bld_Secrets b) ref keys) (Secrets_Value (bld_Secrets b') ref keys)"
proof -
  let ?ns = "sec_Namespace (bld_Secrets b')"
  let ?k = "\<lparr>nn_Namespace = ?ns, nn_Name = skr_Name ref\<rparr>"
  have ns: "sec_Namespace (bld_Secrets b) = ?ns" using assms by (simp add: same_shape_def)
  have shape: "map_sum id usable (sec_Get (bld_Secrets b) ?k) = map_sum id usable (sec_Get (bld_Secrets b') ?k)"
    using assms by (simp add: same_shape_def)
  have find: "find (\<lambda>k. case d k of None \<Rightarrow> False | Some v \<Rightarrow> 0 < length v) ks =
      find (\<lambda>k. case d' k of None \<Rightarrow> False | Some v \<Rightarrow> 0 < length v) ks" if "usable d = usable d'" for d d' ks
    using that unfolding usable_def by metis
  show ?thesis
  proof (cases "sec_Get (bld_Secrets b) ?k")
    case (Inl err)
    then have "sec_Get (bld_Secrets b') ?k = Inl err" using shape by (cases "sec_Get (bld_Secrets b') ?k") auto
    with Inl show ?thesis by (simp add: Secrets_Value_def ns)
  next
    case (Inr d)
    then obtain d' where d': "sec_Get (bld_Secrets b') ?k = Inr d'" "usable d = usable d'"
      using shape by (cases "sec_Get (bld_Secrets b') ?k") auto
    then show ?thesis using Inr find [OF d'(2)]
      by (simp add: Secrets_Value_def ns Let_def split: option.split)
  qed
qed

lemma tlsFrom_same_errors:
  assumes "same_shape b b'"
  shows "same_errors (tlsFrom b access own fp) (tlsFrom b' access own fp')"
  unfolding tlsFrom_def Let_def
  by (intro same_errors_bind)
     (auto intro!: same_errors_bind Value_same_errors [OF assms] split: option.splits prod.splits)

text \<open>The access types whose build hands no Secret to a parser or to a cloud API.\<close>

definition opaque_types :: "string list" where
  "opaque_types = [AccessTypeInCluster, AccessTypeToken, AccessTypeWorkloadIdentity, AccessTypeClientCertificate, AccessTypeAKS]"

lemma build_access_same_errors:
  assumes "same_shape b b'" and "ca_Type access \<in> set opaque_types"
  shows "same_errors (build_access lib b access fp) (build_access lib b' access fp)"
proof -
  note steps = same_errors_seq same_errors_bind [OF tlsFrom_same_errors [OF assms(1)]]
    same_errors_bind [OF Value_same_errors [OF assms(1)]]
  have "same_errors (buildToken b access fp) (buildToken b' access fp)"
    unfolding buildToken_def by (intro steps) auto
  moreover have "same_errors (buildWorkloadIdentity lib b access fp) (buildWorkloadIdentity lib b' access fp)"
    unfolding buildWorkloadIdentity_def Let_def
    by (intro steps) (auto intro!: same_errors_seq split: prod.splits)
  moreover have "same_errors (buildClientCertificate b access fp) (buildClientCertificate b' access fp)"
    unfolding buildClientCertificate_def Let_def by (intro steps) auto
  moreover have "same_errors (buildAKS b access fp) (buildAKS b' access fp)"
    unfolding buildAKS_def Let_def by (intro steps) (auto intro!: steps split: option.split)
  ultimately show ?thesis using assms(2) by (auto simp: build_access_def opaque_types_def)
qed

lemma applyProxy_same_errors: "same_errors (applyProxy lib cfg access fp) (applyProxy lib cfg' access fp')"
  by (cases "ca_Proxy access") (auto simp: applyProxy_def intro!: same_errors_seq)

section \<open>Properties\<close>

text \<open>
  C15: errors never carry secret material.  For the access types that hand no Secret to a parser or a cloud API, two sets of Secrets
  that hold other values behind the same keys give the same error, or both give a connection: whatever a condition, an
  event or a log line shows of a failed build, it says nothing about a value.
\<close>

theorem Build_errors_hide_secrets:
  assumes "same_shape b b'" and "ca_Type (rcs_Access (rc_Spec rc)) \<in> set opaque_types"
  shows "same_errors (Builder_Build lib b rc) (Builder_Build lib b' rc)"
proof -
  have "bld_Options b = bld_Options b'" using assms(1) by (simp add: same_shape_def)
  then have tls: "checkTLSPermitted b = checkTLSPermitted b'" by (intro ext) (simp only: checkTLSPermitted_def)
  show ?thesis
    unfolding Builder_Build_def Let_def tls
    by (intro same_errors_seq same_errors_bind [OF build_access_same_errors [OF assms]])
       (auto intro!: same_errors_bind [OF applyProxy_same_errors])
qed

text \<open>
  A refused exchange is reported with the status line alone, whatever the body holds; a token is handed out only for the
  status 200, and then expires when the reply says, or in 55 minutes when that cannot be read.
\<close>

theorem Impersonated_Token_spec:
  assumes "tl_NewRequest lib (token_endpoint target) (token_request_body scopes) = None"
    and "tl_Do lib base (token_endpoint target) (token_request_body scopes) = Inr resp"
  shows "(iam_StatusCode resp \<noteq> 200 \<longrightarrow> Impersonated_Token lib base target scopes =
       Inl (Errorf [Lit ''impersonating '', Lit target, Lit '': iamcredentials returned '', Lit (iam_Status resp)])) \<and>
     (\<forall>tok. Impersonated_Token lib base target scopes = Inr tok \<longleftrightarrow>
        iam_StatusCode resp = 200 \<and> (\<exists>out. iam_Decoded resp = Inr out \<and> tok_AccessToken tok = iam_AccessToken out \<and>
          tok_Expiry tok = (case tl_ParseRFC3339 lib (iam_ExpireTime out) of Inl err \<Rightarrow> tl_Now lib + 55 * Minute | Inr t \<Rightarrow> t)))"
  using assms
  by (cases "iam_Decoded resp") (auto simp: Impersonated_Token_def Let_def intro: oauth2_Token.equality split: sum.splits)

section \<open>Witnesses\<close>

lemma token_request_example:
  "token_request_body [defaultGoogleScope] =
     [CHR ''{'', CHR 0x22] @ ''lifetime'' @ [CHR 0x22, CHR '':'', CHR 0x22] @ ''3600s'' @ [CHR 0x22, CHR '','', CHR 0x22] @ ''scope'' @
     [CHR 0x22] @ '':['' @ [CHR 0x22] @ defaultGoogleScope @ [CHR 0x22] @ '']}''"
  by code_simp

definition demo_rotated :: Builder where
  "demo_rotated = demo_builder\<lparr>bld_Secrets := (bld_Secrets demo_builder)\<lparr>sec_Get :=
     (\<lambda>_. Inr [''token'' \<mapsto> ''other'', ''clientSecret'' \<mapsto> ''values''])\<rparr>\<rparr>"

lemma Build_errors_hide_secrets_witness:
  "same_errors (Builder_Build demo_lib demo_builder demo_token_cluster) (Builder_Build demo_lib demo_rotated demo_token_cluster)"
proof (rule Build_errors_hide_secrets)
  show "same_shape demo_builder demo_rotated"
    by (auto simp: same_shape_def demo_rotated_def demo_builder_def usable_def fun_eq_iff)
qed (simp add: demo_token_cluster_def cluster_with_def opaque_types_def)

definition demo_token_lib :: TokenLib where
  "demo_token_lib = \<lparr>tl_NewRequest = (\<lambda>_ _. None),
     tl_Do = (\<lambda>_ _ _. Inr \<lparr>iam_StatusCode = 403, iam_Status = ''403 Forbidden'', iam_Decoded = Inl (Errorf [Lit ''body''])\<rparr>),
     tl_ParseRFC3339 = (\<lambda>_. Inl (Errorf [])), tl_Now = 0\<rparr>"

lemma Impersonated_Token_spec_witness:
  "Impersonated_Token demo_token_lib (DefaultCredentials []) ''robot'' [] =
     Inl (Errorf [Lit ''impersonating '', Lit ''robot'', Lit '': iamcredentials returned '', Lit ''403 Forbidden''])"
  using Impersonated_Token_spec [of demo_token_lib "''robot''" "[]" "DefaultCredentials []"
      "\<lparr>iam_StatusCode = 403, iam_Status = ''403 Forbidden'', iam_Decoded = Inl (Errorf [Lit ''body''])\<rparr>"]
  by (simp add: demo_token_lib_def)

end
