(* ===== verification/Convergence.thy ===== *)
theory Convergence
  imports CrossService_Controller
begin

text \<open>
  Convergence of a whole reconciliation (\<^verbatim>\<open>internal/controller/crossservice_controller.go\<close>, over
  \<^verbatim>\<open>internal/service\<close> and \<^verbatim>\<open>internal/endpoints/slice.go\<close>): where one has succeeded, the next one with the same
  endpoints makes no call that writes a Service or a slice.  That no such call is made is stated as independence:
  the calls may be replaced by anything.
\<close>

section \<open>The writes, replaced\<close>

definition with_writes ::
    "(Service \<Rightarrow> 'st \<Rightarrow> Service result \<times> 'st) \<Rightarrow> (Service \<Rightarrow> 'st \<Rightarrow> Service result \<times> 'st)
     \<Rightarrow> (EndpointSlice \<Rightarrow> 'st \<Rightarrow> go_error option \<times> 'st) \<Rightarrow> (EndpointSlice \<Rightarrow> 'st \<Rightarrow> go_error option \<times> 'st)
     \<Rightarrow> (EndpointSlice \<Rightarrow> 'st \<Rightarrow> go_error option \<times> 'st) \<Rightarrow> 'st CrossServiceReconciler \<Rightarrow> 'st CrossServiceReconciler" where
  "with_writes createService updateService create update delete r =
     r\<lparr>csr_Services := (csr_Services r)\<lparr>svcc_Create := createService, svcc_Update := updateService\<rparr>,
       csr_Slices := (csr_Slices r)\<lparr>slc_Create := create, slc_Update := update, slc_Delete := delete\<rparr>\<rparr>"

text \<open>
  Objects of different kinds are stored apart: a call on slices or on the status of a CrossService leaves the Services
  alone.  The owner reference depends on the metadata of the owner, not on its status.
\<close>

definition objects_apart :: "'st CrossServiceReconciler \<Rightarrow> ('st \<Rightarrow> NamespacedName \<rightharpoonup> Service) \<Rightarrow> bool" where
  "objects_apart r services \<longleftrightarrow>
     (\<forall>ns sel st. services (snd (slc_List (csr_Slices r) ns sel st)) = services st) \<and>
     (\<forall>s st. services (snd (slc_Create (csr_Slices r) s st)) = services st) \<and>
     (\<forall>s st. services (snd (slc_Update (csr_Slices r) s st)) = services st) \<and>
     (\<forall>s st. services (snd (slc_Delete (csr_Slices r) s st)) = services st) \<and>
     (\<forall>x st. services (snd (csr_UpdateStatus r x st)) = services st) \<and>
     (\<forall>x s. csr_ServiceOwner r (x\<lparr>xs_Status := s\<rparr>) = csr_ServiceOwner r x) \<and>
     (\<forall>x s. csr_SliceOwner r (x\<lparr>xs_Status := s\<rparr>) = csr_SliceOwner r x)"

section \<open>Lemmas: the first run\<close>

lemma apart_slices:
  assumes "objects_apart r services"
  shows "slc_List (csr_Slices r) ns sel st = (items, st') \<Longrightarrow> services st' = services st"
    and "slc_Create (csr_Slices r) s st = (err, st') \<Longrightarrow> services st' = services st"
    and "slc_Update (csr_Slices r) s st = (err, st') \<Longrightarrow> services st' = services st"
    and "slc_Delete (csr_Slices r) s st = (err, st') \<Longrightarrow> services st' = services st"
    and "csr_UpdateStatus r x st = (err, st') \<Longrightarrow> services st' = services st"
  using assms unfolding objects_apart_def by (metis snd_conv)+

lemma write_plans_services:
  assumes "objects_apart r services" and "w_Client w = csr_Slices r"
  shows "services (snd (write_plans w deq owner xsvc sn plans out st)) = services st"
  using assms(2)
proof (induction plans arbitrary: out st)
  case (Cons p plans)
  note apart = apart_slices [OF assms(1)]
  show ?case using Cons by (auto simp: Let_def dest: apart split: sum.split option.split prod.split)
qed simp

lemma delete_orphans_services:
  assumes "objects_apart r services" and "w_Client w = csr_Slices r"
  shows "services (snd (delete_orphans w orphans out st)) = services st"
  using assms(2)
proof (induction orphans arbitrary: out st)
  case (Cons p orphans)
  note apart = apart_slices [OF assms(1)]
  show ?case using Cons by (auto simp: Let_def dest: apart split: option.split prod.split)
qed simp

lemma Writer_services:
  assumes apart: "objects_apart r services" and w: "w_Client w = csr_Slices r"
    and run: "Writer_Reconcile w deq owner xsvc sn groups st = ((out, None), st')"
  shows "services st' = services st"
  using run
proof (cases rule: Reconcile_ok_cases)
  case (1 existing st1 plan orphans)
  then obtain out1 st2 out2 where list: "Writer_list w (xs_Namespace xsvc) sn st = (Inr existing, st1)"
    and steps: "write_plans w deq owner xsvc sn plan zero_outcome st1 = ((out1, None), st2)"
      "delete_orphans w orphans out1 st2 = ((out2, None), st')"
    unfolding run_steps_def by blast
  have "services st1 = services st"
    using list by (auto simp: Writer_list_def w dest: apart_slices(1) [OF apart] split: prod.splits sum.splits)
  moreover have "services st2 = services st1" "services st' = services st2"
    using write_plans_services [OF apart w, of deq owner xsvc sn plan zero_outcome st1]
      delete_orphans_services [OF apart w, of orphans out1 st2] steps by simp_all
  ultimately show ?thesis by simp
qed

lemma writeStatus_services:
  "objects_apart r services \<Longrightarrow> writeStatus lib r xsvc status w = (err, w') \<Longrightarrow> services (wd_api w') = services (wd_api w)"
  by (auto simp: writeStatus_def Let_def dest: apart_slices(5) split: if_splits prod.splits option.splits)

text \<open>What a run leaves in the store.\<close>

lemma write_endpoints_leaves:
  assumes env: "environment_ok lib r admit services slices" and apart: "objects_apart r services"
    and run: "write_endpoints lib r xsvc status rc kept n ttl None w = ((d, None), w')"
  obtains ref svc api1 outcome api2 where "service_owner_ok ref (csr_ServiceOwner r xsvc)"
    and "services (wd_api w') (svc_key (declared ref xsvc)) = Some svc" and "meets (declared ref xsvc) svc"
    and "Writer_Reconcile \<lparr>w_Client = csr_Slices r, w_MaxEndpointsPerSlice = csr_MaxEndpointsPerSlice r\<rparr> (lib_sliceEqual lib)
        (csr_SliceOwner r xsvc) xsvc (NameFor xsvc)
        (GroupEndpoints kept (spec_Ports (xs_Spec xsvc)) (spec_IPFamilyPolicy (xs_Spec xsvc))) api1 = ((outcome, None), api2)"
    and "slices (wd_api w') = slices api2"
proof -
  have es: "kept = fs_Endpoints (ApplyFailurePolicy (spec_FailurePolicy (xs_Spec xsvc)) (css_Source (xs_Status xsvc)) kept None (csr_Now r))"
    by (simp add: ApplyFailurePolicy_ok)
  from run es env show ?thesis
  proof (cases rule: write_endpoints_ok)
    case (1 ref svc written api1 outcome api2 st)
    have "services (wd_api w') = services api1"
      using writeStatus_services [OF apart 1(6)] Writer_services [OF apart _ 1(5)] by simp
    moreover have "slices (wd_api w') = slices api2"
      using writeStatus_slices [OF _ 1(6), of slices] env unfolding environment_ok_def by simp
    ultimately show ?thesis using that 1 by simp
  qed
qed

section \<open>Lemmas: the second run\<close>

lemma Writer_again:
  assumes store: "slice_store_ok view (w_Client w)" and ok: "owner_ok owner" "deep_equal_ok deq" and groups: "groups_ok groups"
    and run: "Writer_Reconcile w deq owner xsvc sn groups st = ((out, None), st')" and v: "view t = view st'"
    and list: "slc_List (w_Client w') = slc_List (w_Client w)" and "max": "w_MaxEndpointsPerSlice w' = w_MaxEndpointsPerSlice w"
  shows "Writer_Reconcile w' deq owner (xsvc\<lparr>xs_Status := s\<rparr>) sn groups t = Writer_Reconcile w deq owner (xsvc\<lparr>xs_Status := s\<rparr>) sn groups t"
proof -
  let ?x = "xsvc\<lparr>xs_Status := s\<rparr>"
  have same: "Writer_list w' = Writer_list w" "max_per w' = max_per w"
    by (simp_all add: Writer_list_def max_per_def list "max" fun_eq_iff)
  have desired: "desired_of owner ?x sn p = desired_of owner xsvc sn p" for p
    by (simp add: desired_of_def buildSlice_def)
  show ?thesis
  proof (cases "Writer_list w (xs_Namespace xsvc) sn t")
    case (Pair r t')
    show ?thesis
    proof (cases r)
      case (Inl err)
      then show ?thesis using Pair by (simp add: Writer_Reconcile_def same)
    next
      case (Inr existing)
      obtain plan where plan: "planSlices existing groups sn (max_per w) = (plan, [])"
        and unchanged: "\<forall>p\<in>set plan. \<exists>s. sp_Existing p = Some s \<and> sliceEqual deq s (desired_of owner ?x sn p)"
        unfolding desired using second_run [OF store ok groups run v] Pair Inr by metis
      show ?thesis
        using Pair Inr plan by (simp add: Writer_Reconcile_def same write_plans_unchanged [OF ok(1) unchanged])
    qed
  qed
qed

lemma with_writes_fields [simp]:
  "csr_Get (with_writes a b c d e r) = csr_Get r" "csr_GetCluster (with_writes a b c d e r) = csr_GetCluster r"
  "csr_GetNamespace (with_writes a b c d e r) = csr_GetNamespace r" "csr_UpdateStatus (with_writes a b c d e r) = csr_UpdateStatus r"
  "csr_ServiceOwner (with_writes a b c d e r) = csr_ServiceOwner r" "csr_SliceOwner (with_writes a b c d e r) = csr_SliceOwner r"
  "csr_Recorder (with_writes a b c d e r) = csr_Recorder r" "csr_Resolver (with_writes a b c d e r) = csr_Resolver r"
  "csr_DefaultAddressPolicy (with_writes a b c d e r) = csr_DefaultAddressPolicy r"
  "csr_MaxEndpointsPerSlice (with_writes a b c d e r) = csr_MaxEndpointsPerSlice r" "csr_Clusters (with_writes a b c d e r) = csr_Clusters r"
  "csr_Now (with_writes a b c d e r) = csr_Now r"
  "svcc_Get (csr_Services (with_writes a b c d e r)) = svcc_Get (csr_Services r)"
  "slc_List (csr_Slices (with_writes a b c d e r)) = slc_List (csr_Slices r)"
  by (simp_all add: with_writes_def)

lemma with_writes_warning: "warning (with_writes a b c d e r) = warning r"
  by (intro ext) (simp only: warning_def with_writes_fields)

lemma with_writes_same:
  "report_rejected (with_writes a b c d e r) = report_rejected r"
  "writeStatus lib (with_writes a b c d e r) = writeStatus lib r"
  "resolve_source (with_writes a b c d e r) = resolve_source r"
  by (intro ext, simp only: report_rejected_def writeStatus_def resolve_source_def with_writes_warning with_writes_fields)+

lemmas with_writes_simps = with_writes_fields with_writes_warning with_writes_same

lemma write_endpoints_again:
  assumes env: "environment_ok lib r admit services slices" and apart: "objects_apart r services"
    and iv: "lib_intValue lib (IntVal 0) = 0" and ports: "valid_port_names (spec_Ports (xs_Spec xsvc))"
    and run: "write_endpoints lib r xsvc status rc kept n ttl None w = ((d, None), w1)"
    and dist: "distinct (map e_Address kept)" and kept: "mset kept2 = mset kept"
    and world: "services (wd_api w2) = services (wd_api w1)" "slices (wd_api w2) = slices (wd_api w1)"
  shows "write_endpoints lib (with_writes a b c u e r) (xsvc\<lparr>xs_Status := s\<rparr>) status2 rc2 kept2 n2 ttl2 None w2 =
     write_endpoints lib r (xsvc\<lparr>xs_Status := s\<rparr>) status2 rc2 kept2 n2 ttl2 None w2"
proof -
  let ?spec = "xs_Spec xsvc" and ?x = "xsvc\<lparr>xs_Status := s\<rparr>" and ?r = "with_writes a b c u e r"
  let ?writer = "\<lambda>r. \<lparr>w_Client = csr_Slices r, w_MaxEndpointsPerSlice = csr_MaxEndpointsPerSlice r\<rparr>"
    and ?groups = "\<lambda>es. GroupEndpoints es (spec_Ports ?spec) (spec_IPFamilyPolicy ?spec)"
  obtain ref svc api1 outcome api2 where ref: "service_owner_ok ref (csr_ServiceOwner r xsvc)"
    and svc: "services (wd_api w1) (svc_key (declared ref xsvc)) = Some svc" "meets (declared ref xsvc) svc"
    and wr: "Writer_Reconcile (?writer r) (lib_sliceEqual lib) (csr_SliceOwner r xsvc) xsvc (NameFor xsvc) (?groups kept) api1
        = ((outcome, None), api2)"
    and leaves: "slices (wd_api w1) = slices api2"
    using write_endpoints_leaves [OF env apart run] by metis
  have stored: "services (wd_api w2) (svc_key (declared ref xsvc)) = Some svc" using svc(1) world(1) by simp
  have slices: "slices (wd_api w2) = slices api2" using leaves world(2) by simp
  have "distinct (map e_Address kept2)" using dist kept by (metis mset_eq_imp_distinct_iff mset_map)
  then have groups: "?groups kept2 = ?groups kept"
    using groups_perm [OF ports kept] by (simp add: GroupEndpoints_unindexed)
  have spec: "xs_Spec ?x = ?spec" by simp
  have declared: "declared ref ?x = declared ref xsvc" by (simp add: declared_def Build_def Let_def NameFor_def split: option.split)
  have owners: "csr_ServiceOwner r ?x = csr_ServiceOwner r xsvc" "csr_SliceOwner r ?x = csr_SliceOwner r xsvc"
    using apart unfolding objects_apart_def by blast+
  have laws: "service_store_ok admit services (csr_Services r)" "service_equal_ok (lib_serviceEqual lib)"
    "slice_store_ok slices (csr_Slices r)" "owner_ok (csr_SliceOwner r xsvc)" "deep_equal_ok (lib_sliceEqual lib)"
    using env by (simp_all add: environment_ok_def)
  have names: "distinct (map csp_Name (spec_Ports (xs_Spec ?x)))" using ports by (simp add: valid_port_names_def)
  have service: "Service_Reconcile (lib_intValue lib) (lib_serviceEqual lib) client ?x (csr_ServiceOwner r ?x) (wd_api w2) =
      (Inr (svc, False), wd_api w2)" if client: "svcc_Get client = svcc_Get (csr_Services r)" for client
  proof (rule Reconcile_met [where ref = ref, OF laws(2) _ _ names])
    show "svcc_Get client (svc_key (declared ref ?x)) (wd_api w2) = (Inr svc, wd_api w2)"
      unfolding client declared by (rule store_get [OF laws(1) stored])
  qed (simp_all only: declared svc(2) owners ref iv)
  have name: "svc_Name svc = NameFor xsvc"
    using svc(2) by (simp add: meets_def svc_key_def declared_def Build_def Let_def)
  have "Writer_Reconcile (?writer ?r) (lib_sliceEqual lib) (csr_SliceOwner r ?x) ?x (NameFor xsvc) (?groups kept2) (wd_api w2) =
      Writer_Reconcile (?writer r) (lib_sliceEqual lib) (csr_SliceOwner r ?x) ?x (NameFor xsvc) (?groups kept2) (wd_api w2)"
    unfolding groups owners
    by (rule Writer_again [OF _ laws(4,5) GroupEndpoints_groups_ok [OF dist] wr slices]) (simp_all add: laws(3))
  then show ?thesis
    unfolding write_endpoints_def Let_def
    by (simp only: ApplyFailurePolicy_ok service with_writes_simps spec name FailureState.simps prod.case sum.case)
qed

end
