(* ===== verification/Isolation.thy ===== *)
theory Isolation
  imports Convergence
begin

text \<open>
  Isolation of CrossServices from each other (\<^verbatim>\<open>internal/controller/crossservice_controller.go\<close>, over
  \<^verbatim>\<open>internal/service\<close> and \<^verbatim>\<open>internal/endpoints/slice.go\<close>): a reconciliation touches the Service of its own name and the
  slices that carry that name, and nothing else; so the reconciliations of others, in any number and order, leave
  what a CrossService has written.
\<close>

section \<open>What the API promises\<close>

text \<open>
  Reading a Service changes nothing, calls on Services leave the slices alone, and creating an object under a name that is
  taken fails.
\<close>

definition calls_apart ::
    "'st CrossServiceReconciler \<Rightarrow> ('st \<Rightarrow> NamespacedName \<rightharpoonup> Service) \<Rightarrow> ('st \<Rightarrow> (string \<times> string) \<rightharpoonup> EndpointSlice) \<Rightarrow> bool" where
  "calls_apart r services slices \<longleftrightarrow>
     (\<forall>k st. services (snd (svcc_Get (csr_Services r) k st)) = services st \<and>
        slices (snd (svcc_Get (csr_Services r) k st)) = slices st) \<and>
     (\<forall>s st. slices (snd (svcc_Create (csr_Services r) s st)) = slices st) \<and>
     (\<forall>s st. slices (snd (svcc_Update (csr_Services r) s st)) = slices st) \<and>
     (\<forall>s st st'. slc_Create (csr_Slices r) s st = (None, st') \<longrightarrow> slices st (slice_obj_key s) = None)"

lemma calls_apart_simps:
  assumes "calls_apart r services slices"
  shows "svcc_Get (csr_Services r) k st = (res, st') \<Longrightarrow> services st' = services st \<and> slices st' = slices st"
    and "svcc_Create (csr_Services r) s st = (res, st') \<Longrightarrow> slices st' = slices st"
    and "svcc_Update (csr_Services r) s st = (res, st') \<Longrightarrow> slices st' = slices st"
    and "slc_Create (csr_Slices r) sl st = (None, st') \<Longrightarrow> slices st (slice_obj_key sl) = None"
  using assms unfolding calls_apart_def by (metis snd_conv)+

section \<open>Lemmas: slices\<close>

lemma selector_name:
  assumes "service_selector sn \<subseteq>\<^sub>m m" and "service_selector sn' \<subseteq>\<^sub>m m"
  shows "sn = sn'"
proof -
  have "service_selector x ServiceNameLabel = Some x" for x by (simp add: service_selector_def label_defs)
  then show ?thesis using assms by (metis domI map_le_def option.inject)
qed

lemma managed_name: "s \<in> managed v ns sn \<Longrightarrow> s \<in> managed v' ns' sn' \<Longrightarrow> (ns, sn) = (ns', sn')"
  using selector_name by (auto simp: managed_def)

text \<open>The names of the slices that a run creates are free before it.\<close>

lemma write_plans_fresh:
  assumes store: "slice_store_ok view (w_Client w)" and owner: "owner_ok owner"
    and free: "\<And>s st st'. slc_Create (w_Client w) s st = (None, st') \<Longrightarrow> view st (slice_obj_key s) = None"
    and "distinct (map sp_Name plans)"
    and "\<And>p s. p \<in> set plans \<Longrightarrow> sp_Existing p = Some s \<Longrightarrow> es_Name s = sp_Name p \<and> es_Namespace s = xs_Namespace xsvc"
    and "write_plans w deq owner xsvc sn plans out st = ((out', None), st')"
    and "p \<in> set plans" and "sp_Existing p = None"
  shows "view st (xs_Namespace xsvc, sp_Name p) = None"
  using assms(4-8)
proof (induction plans arbitrary: out st)
  case (Cons q plans)
  note d = desired_fields [OF owner, of xsvc sn q]
  obtain out1 st1 where rest: "write_plans w deq owner xsvc sn plans out1 st1 = ((out', None), st')"
    and st1: "\<And>k. k \<noteq> (xs_Namespace xsvc, sp_Name q) \<Longrightarrow> view st1 k = view st k"
    and q: "sp_Existing q = None \<Longrightarrow> view st (xs_Namespace xsvc, sp_Name q) = None"
  proof (cases "sp_Existing q")
    case None
    with Cons.prems(3) d(1) obtain st1 where c: "slc_Create (w_Client w) (desired_of owner xsvc sn q) st = (None, st1)"
      and rest: "write_plans w deq owner xsvc sn plans (out\<lparr>out_Created := out_Created out @ [es_Name (desired_of owner xsvc sn q)]\<rparr>) st1
        = ((out', None), st')"
      by (auto split: prod.splits option.splits)
    show ?thesis by (rule that [OF rest]) (use store_create [OF store c] free [OF c] d in \<open>simp_all add: slice_obj_key_def\<close>)
  next
    case (Some s)
    then have s: "es_Name s = sp_Name q" "es_Namespace s = xs_Namespace xsvc" using Cons.prems(2) [of q s] by auto
    show ?thesis
    proof (cases "sliceEqual deq s (desired_of owner xsvc sn q)")
      case True
      with Cons.prems(3) d(1) Some show ?thesis by (intro that) auto
    next
      case False
      with Cons.prems(3) d(1) Some obtain out1 st1 where
        c: "slc_Update (w_Client w) (merge_slice s (desired_of owner xsvc sn q)) st = (None, st1)"
        and rest: "write_plans w deq owner xsvc sn plans out1 st1 = ((out', None), st')"
        by (auto simp: Let_def split: prod.splits option.splits)
      show ?thesis
        by (rule that [OF rest]) (use store_update [OF store c] s Some in \<open>simp_all add: slice_obj_key_def merge_slice_def\<close>)
    qed
  qed
  show ?case
  proof (cases "p = q")
    case True
    then show ?thesis using q Cons.prems(5) by simp
  next
    case False
    then have p: "p \<in> set plans" and "sp_Name p \<noteq> sp_Name q" using Cons.prems(1,4) by (auto simp: image_iff)
    have "view st1 (xs_Namespace xsvc, sp_Name p) = None"
      by (rule Cons.IH [OF _ _ rest p Cons.prems(5)]) (use Cons.prems(1,2) in auto)
    then show ?thesis using st1 \<open>sp_Name p \<noteq> sp_Name q\<close> by simp
  qed
qed simp

lemma Writer_isolated:
  assumes store: "slice_store_ok view (w_Client w)" and owner: "owner_ok owner" and groups: "groups_ok groups"
    and free: "\<And>s st st'. slc_Create (w_Client w) s st = (None, st') \<Longrightarrow> view st (slice_obj_key s) = None"
    and run: "Writer_Reconcile w deq owner xsvc sn groups st = ((out, None), st')"
    and other: "(ns', sn') \<noteq> (xs_Namespace xsvc, sn)"
  shows "managed (view st') ns' sn' = managed (view st) ns' sn'"
  using run
proof (cases rule: Reconcile_ok_cases)
  case (1 existing st1 plan orphans)
  let ?ns = "xs_Namespace xsvc" and ?final = "final_of deq owner xsvc sn"
  note run = run_view [OF store owner groups 1]
  have orphan: "s \<in> managed (view st) ?ns sn" if "s \<in> set orphans" for s
    using planned_slices(1) [OF run(1,2)] that run(4) by blast
  have taken: "t \<in> managed (view st) ?ns sn" if p: "p \<in> set plan" and t: "view st (?ns, sp_Name p) = Some t" for p t
  proof (cases "sp_Existing p")
    case None
    obtain out1 st2 where wp: "write_plans w deq owner xsvc sn plan zero_outcome st1 = ((out1, None), st2)"
      using 1 unfolding run_steps_def by blast
    have "view st1 (?ns, sp_Name p) = None"
    proof (rule write_plans_fresh [OF store owner _ planSlices_spec(4) [OF run(1,2)] _ wp p None])
      show "es_Name s = sp_Name q \<and> es_Namespace s = ?ns" if "q \<in> set plan" "sp_Existing q = Some s" for q s
        using run(5) [OF that] by simp
    qed (rule free)
    then show ?thesis using t run(3) by simp
  next
    case (Some s)
    then show ?thesis using run(5) [OF p Some] t by (auto simp: managed_def slice_obj_key_def)
  qed
  show ?thesis
  proof (intro set_eqI iffI)
    fix s assume s: "s \<in> managed (view st) ns' sn'"
    then have key: "view st (slice_obj_key s) = Some s" by (simp add: managed_def)
    have foreign: "s \<notin> managed (view st) ?ns sn" using s managed_name other by blast
    have "slice_obj_key t \<noteq> slice_obj_key s" if "t \<in> set orphans" for t
      using orphan [OF that] key foreign by (auto simp: managed_def)
    then have "slice_obj_key s \<notin> slice_obj_key ` set orphans" by fastforce
    moreover have "find (\<lambda>p. (?ns, sp_Name p) = slice_obj_key s) plan = None"
      unfolding find_None_iff using taken key foreign by metis
    ultimately have "view st' (slice_obj_key s) = Some s" using key by (simp add: run(8))
    then show "s \<in> managed (view st') ns' sn'" using s by (simp add: managed_def)
  next
    fix s assume s: "s \<in> managed (view st') ns' sn'"
    then have key: "view st' (slice_obj_key s) = Some s" by (simp add: managed_def)
    have "find (\<lambda>p. (?ns, sp_Name p) = slice_obj_key s) plan \<noteq> Some p" for p
    proof
      assume f: "find (\<lambda>p. (?ns, sp_Name p) = slice_obj_key s) plan = Some p"
      have p: "s = ?final p" "p \<in> set plan"
        using f key by (simp_all add: run(8) split: if_splits) (auto simp: find_Some_iff)
      then have "s \<in> managed (view st') ?ns sn"
        using run(6,7) [OF p(2)] key by (simp add: managed_def slice_obj_key_def)
      then show False using s managed_name other by blast
    qed
    then have "view st (slice_obj_key s) = Some s" using key by (auto simp: run(8) split: if_splits option.splits)
    then show "s \<in> managed (view st) ns' sn'" using s by (simp add: managed_def)
  qed
qed

section \<open>Lemmas: a whole reconciliation\<close>

lemma Service_isolated:
  assumes store: "service_store_ok admit services (csr_Services r)" and own: "service_owner_ok ref owner"
    and apart: "calls_apart r services slices"
    and run: "Service_Reconcile iv deq (csr_Services r) xsvc owner st = (Inr (s, written), st')"
  shows "slices st' = slices st"
    and "k \<noteq> \<lparr>nn_Namespace = xs_Namespace xsvc, nn_Name = NameFor xsvc\<rparr> \<Longrightarrow> services st' k = services st k"
proof -
  let ?d = "declared ref xsvc" and ?client = "csr_Services r"
  note calls = calls_apart_simps [OF apart]
  obtain res st1 where get: "svcc_Get ?client \<lparr>nn_Namespace = svc_Namespace ?d, nn_Name = svc_Name ?d\<rparr> st = (res, st1)" by fastforce
  have "slices st' = slices st \<and> (\<exists>v. services st' = services st \<or> services st' = (services st)(svc_key ?d \<mapsto> v))"
  proof (cases res)
    case (Inl err)
    with run get obtain s' where c: "svcc_Create ?client ?d st1 = (Inr s', st')"
      by (auto simp: Service_Reconcile_def owner_Build [OF own] split: if_splits prod.splits sum.splits)
    then have "services st' = (services st1)(svc_key ?d \<mapsto> admit ?d)" using store_written [OF store] by blast
    then show ?thesis using calls(1) [OF get] calls(2) [OF c] by auto
  next
    case (Inr current)
    let ?m = "merge_service iv current ?d"
    have "svc_key current = svc_key ?d" using store_get_hit [OF store] get Inr by (auto simp: svc_key_def)
    then have key: "svc_key ?m = svc_key ?d" using merge_meets [of current ?d iv] by (simp add: meets_def)
    show ?thesis
    proof (cases "same_service deq current ?m")
      case True
      then have "st' = st1" using run get Inr by (simp add: Service_Reconcile_def owner_Build [OF own])
      then show ?thesis using calls(1) [OF get] by simp
    next
      case False
      with run get Inr obtain s' where c: "svcc_Update ?client ?m st1 = (Inr s', st')"
        by (auto simp: Service_Reconcile_def owner_Build [OF own] Let_def split: prod.splits sum.splits)
      then have "services st' = (services st1)(svc_key ?d \<mapsto> admit ?m)" using store_written [OF store] key by metis
      then show ?thesis using calls(1) [OF get] calls(3) [OF c] by auto
    qed
  qed
  then show "slices st' = slices st"
    and "k \<noteq> \<lparr>nn_Namespace = xs_Namespace xsvc, nn_Name = NameFor xsvc\<rparr> \<Longrightarrow> services st' k = services st k"
    by (auto simp: declared_fields)
qed

text \<open>Two stores that agree on everything but the Service and the slices of one name.\<close>

definition agree_elsewhere ::
    "('st \<Rightarrow> NamespacedName \<rightharpoonup> Service) \<Rightarrow> ('st \<Rightarrow> (string \<times> string) \<rightharpoonup> EndpointSlice) \<Rightarrow> string \<Rightarrow> string \<Rightarrow> 'st \<Rightarrow> 'st \<Rightarrow> bool" where
  "agree_elsewhere services slices ns sn st st' \<longleftrightarrow>
     (\<forall>k. k \<noteq> \<lparr>nn_Namespace = ns, nn_Name = sn\<rparr> \<longrightarrow> services st' k = services st k) \<and>
     (\<forall>ns' sn'. (ns', sn') \<noteq> (ns, sn) \<longrightarrow> managed (slices st') ns' sn' = managed (slices st) ns' sn')"

lemma agree_elsewhere_refl: "services st' = services st \<Longrightarrow> slices st' = slices st \<Longrightarrow> agree_elsewhere services slices ns sn st st'"
  by (simp add: agree_elsewhere_def)

lemma writeStatus_isolated:
  assumes "environment_ok lib r admit services slices" and "objects_apart r services" and "writeStatus lib r xsvc status w = (err, w')"
  shows "agree_elsewhere services slices ns sn (wd_api w) (wd_api w')"
proof (rule agree_elsewhere_refl)
  show "services (wd_api w') = services (wd_api w)" by (rule writeStatus_services [OF assms(2,3)])
  show "slices (wd_api w') = slices (wd_api w)"
    using writeStatus_slices [OF _ assms(3), of slices] assms(1) by (simp add: environment_ok_def)
qed

lemma write_endpoints_isolated:
  assumes env: "environment_ok lib r admit services slices" and apart: "objects_apart r services" "calls_apart r services slices"
    and run: "write_endpoints lib r xsvc status rc kept n ttl resolveErr w = ((d, None), w')"
    and es: "es = fs_Endpoints (ApplyFailurePolicy (spec_FailurePolicy (xs_Spec xsvc)) (css_Source (xs_Status xsvc)) kept resolveErr (csr_Now r))"
    and dist: "distinct (map e_Address es)"
  shows "agree_elsewhere services slices (xs_Namespace xsvc) (NameFor xsvc) (wd_api w) (wd_api w')"
  using run es env
proof (cases rule: write_endpoints_ok)
  case (1 ref svc written api1 outcome api2 st)
  have laws: "service_store_ok admit services (csr_Services r)" "slice_store_ok slices (csr_Slices r)" "owner_ok (csr_SliceOwner r xsvc)"
    using env by (simp_all add: environment_ok_def)
  note service = Service_isolated [OF laws(1) 1(1) apart(2) 1(2)]
  have "services api2 = services api1" by (rule Writer_services [OF apart(1) _ 1(5)]) simp
  moreover have "managed (slices api2) ns' sn' = managed (slices api1) ns' sn'" if "(ns', sn') \<noteq> (xs_Namespace xsvc, NameFor xsvc)" for ns' sn'
    by (rule Writer_isolated [OF _ laws(3) GroupEndpoints_groups_ok [OF dist] _ 1(5) that])
      (simp_all add: laws(2) calls_apart_simps(4) [OF apart(2)])
  moreover have "agree_elsewhere services slices (xs_Namespace xsvc) (NameFor xsvc) api2 (wd_api w')"
    using writeStatus_isolated [OF env apart(1) 1(6)] by simp
  ultimately show ?thesis using service by (simp add: agree_elsewhere_def)
qed

lemma failure_endpoints_distinct:
  assumes "distinct (map e_Address kept)" and "distinct (map e_Address (endpointsFromStatus prev))"
  shows "distinct (map e_Address (fs_Endpoints (ApplyFailurePolicy policy prev kept resolveErr now)))"
  using assms by (simp add: ApplyFailurePolicy_def Let_def comp_def split: prod.split)

lemma filterAddresses_distinct:
  assumes "filterAddresses dflt rc es = Inr (kept, rejected)" and "distinct (map e_Address es)"
  shows "distinct (map e_Address kept)"
  using filterAddresses_Inr [OF assms(1)] distinct_map_filter [OF assms(2)] by blast

lemma resolve_source_fresh:
  assumes "resolve_source r req xsvc w = ((fresh, ttl, err), w')"
  shows "wd_api w' = wd_api w" and "distinct (map e_Address fresh)"
  using assms by (auto simp: resolve_source_def Let_def Dedupe_distinct split: prod.splits sum.splits)

lemma Reconcile_isolated:
  assumes env: "environment_ok lib r admit services slices" and apart: "objects_apart r services" "calls_apart r services slices"
    and get: "csr_Get r req (wd_api w) = Inr xsvc"
    and known: "distinct (map e_Address (endpointsFromStatus (css_Source (xs_Status xsvc))))"
    and run: "Reconcile lib r req w = ((d, None), w')"
  shows "agree_elsewhere services slices (xs_Namespace xsvc) (NameFor xsvc) (wd_api w) (wd_api w')"
proof -
  note status = writeStatus_isolated [OF env apart(1)]
  have finish: "finish_with lib r xsvc st w0 = ((d, None), w') \<Longrightarrow> wd_api w0 = wd_api w \<Longrightarrow> ?thesis" for st w0
    using status [of xsvc st w0] by (auto simp: finish_with_def split: prod.splits)
  have writing: "write_endpoints lib r xsvc st rc kept n ttl resolveErr w0 = ((d, None), w') \<Longrightarrow> wd_api w0 = wd_api w \<Longrightarrow>
      distinct (map e_Address kept) \<Longrightarrow> ?thesis" for st rc kept n ttl resolveErr w0
    using write_endpoints_isolated [OF env apart _ refl] failure_endpoints_distinct [OF _ known] by metis
  show ?thesis
  proof (cases "validateSpec xsvc")
    case (Some err)
    from run have "\<exists>st w0. finish_with lib r xsvc st w0 = ((d, None), w') \<and> wd_api w0 = wd_api w"
      by (auto simp: Reconcile_def get Let_def Some intro!: exI)
    then show ?thesis using finish by blast
  next
    case None
    note valid = this
    show ?thesis
    proof (cases "resolveCluster (lib_lsas lib) (\<lambda>n. csr_GetNamespace r n (wd_api w)) (\<lambda>n. csr_GetCluster r n (wd_api w)) xsvc")
      case (Inl err)
      from run have "\<exists>st w0. finish_with lib r xsvc st w0 = ((d, None), w') \<and> wd_api w0 = wd_api w"
        by (auto simp: Reconcile_def get Let_def valid Inl intro!: exI)
      then show ?thesis using finish by blast
    next
      case (Inr rc)
      obtain fresh ttl resolveErr w1 where src: "resolve_source r req xsvc w = ((fresh, ttl, resolveErr), w1)" by (metis prod.exhaust)
      from run obtain kept rejected where f: "filterAddresses (csr_DefaultAddressPolicy r) rc fresh = Inr (kept, rejected)"
        and w: "write_endpoints lib r xsvc ((xs_Status xsvc)\<lparr>css_ObservedGeneration := xs_Generation xsvc\<rparr>) rc kept (length rejected) ttl
          resolveErr (report_rejected r rejected w1) = ((d, None), w')"
        by (auto simp: Reconcile_def get Let_def valid Inr src split: sum.splits)
      show ?thesis
        by (rule writing [OF w]) (use resolve_source_fresh [OF src] filterAddresses_distinct [OF f] in simp_all)
    qed
  qed
qed

section \<open>Reconciliations of others\<close>

text \<open>
  One reconciliation, at any time and with any answer of its source, of a CrossService other than the one whose Service is
  \<^verbatim>\<open>sn\<close> in the namespace \<^verbatim>\<open>ns\<close>, or of one that is gone.
\<close>

inductive others_step :: "ControllerLib \<Rightarrow> 'st CrossServiceReconciler \<Rightarrow> string \<Rightarrow> string \<Rightarrow> 'st World \<Rightarrow> 'st World \<Rightarrow> bool"
  for lib r ns sn where
  reconcile: "csr_Get r req (wd_api w) = Inr xsvc \<Longrightarrow> (xs_Namespace xsvc, NameFor xsvc) \<noteq> (ns, sn) \<Longrightarrow>
     distinct (map e_Address (endpointsFromStatus (css_Source (xs_Status xsvc)))) \<Longrightarrow>
     Reconcile lib (r\<lparr>csr_Now := now, csr_Resolver := resolve\<rparr>) req w = ((d, None), w') \<Longrightarrow> others_step lib r ns sn w w'"
| deleted: "csr_Get r req (wd_api w) = Inl err \<Longrightarrow> Reconcile lib (r\<lparr>csr_Now := now, csr_Resolver := resolve\<rparr>) req w = (res, w') \<Longrightarrow>
     others_step lib r ns sn w w'"

definition own_objects ::
    "('st \<Rightarrow> NamespacedName \<rightharpoonup> Service) \<Rightarrow> ('st \<Rightarrow> (string \<times> string) \<rightharpoonup> EndpointSlice) \<Rightarrow> string \<Rightarrow> string \<Rightarrow> 'st \<Rightarrow> Service option \<times> EndpointSlice set" where
  "own_objects services slices ns sn st = (services st \<lparr>nn_Namespace = ns, nn_Name = sn\<rparr>, managed (slices st) ns sn)"

lemma others_step_keeps:
  assumes env: "environment_ok lib r admit services slices" and apart: "objects_apart r services" "calls_apart r services slices"
    and step: "others_step lib r ns sn w w'"
  shows "own_objects services slices ns sn (wd_api w') = own_objects services slices ns sn (wd_api w)"
  using step
proof cases
  case (reconcile req xsvc resolve now d)
  let ?r = "r\<lparr>csr_Now := now, csr_Resolver := resolve\<rparr>"
  have "environment_ok lib ?r admit services slices" "objects_apart ?r services" "calls_apart ?r services slices"
    using env apart by (simp_all add: environment_ok_def objects_apart_def calls_apart_def)
  then have "agree_elsewhere services slices (xs_Namespace xsvc) (NameFor xsvc) (wd_api w) (wd_api w')"
    by (rule Reconcile_isolated [OF _ _ _ _ reconcile(3,4)]) (simp add: reconcile(1))
  then show ?thesis using reconcile(2) by (auto simp: agree_elsewhere_def own_objects_def)
next
  case (deleted req err resolve now res)
  then show ?thesis by (auto simp: Reconcile_def)
qed

section \<open>A store that refuses to create an object twice\<close>

lemma write_plans_strict:
  assumes store: "slice_store_ok view (w_Client w)" and owner: "owner_ok owner"
    and same: "\<And>s st. view st (slice_obj_key s) = None \<Longrightarrow> slc_Create (w_Client w') s st = slc_Create (w_Client w) s st"
    and "\<forall>p\<in>set plans. sp_Existing p = None \<and> view st (xs_Namespace xsvc, sp_Name p) = None" and "distinct (map sp_Name plans)"
  shows "write_plans w' deq owner xsvc sn plans out st = write_plans w deq owner xsvc sn plans out st"
  using assms(4,5)
proof (induction plans arbitrary: out st)
  case (Cons p plans)
  note d = desired_fields [OF owner, of xsvc sn p]
  have key: "slice_obj_key (desired_of owner xsvc sn p) = (xs_Namespace xsvc, sp_Name p)" using d by (simp add: slice_obj_key_def)
  obtain err st1 where c: "slc_Create (w_Client w) (desired_of owner xsvc sn p) st = (err, st1)" by fastforce
  have c': "slc_Create (w_Client w') (desired_of owner xsvc sn p) st = (err, st1)" using same key Cons.prems(1) c by simp
  have "write_plans w' deq owner xsvc sn plans out1 st1 = write_plans w deq owner xsvc sn plans out1 st1" if "err = None" for out1
  proof (rule Cons.IH)
    have "view st1 = (view st)((xs_Namespace xsvc, sp_Name p) \<mapsto> desired_of owner xsvc sn p)"
      using store_create [OF store] c that key by metis
    then show "\<forall>q\<in>set plans. sp_Existing q = None \<and> view st1 (xs_Namespace xsvc, sp_Name q) = None"
      using Cons.prems by (auto simp: image_iff)
  qed (use Cons.prems(2) in simp)
  then show ?case using Cons.prems(1) d(1) c c' by (cases err) simp_all
qed simp

lemma Writer_strict:
  assumes store: "slice_store_ok view (w_Client w)" and owner: "owner_ok owner" and groups: "groups_ok groups"
    and same: "\<And>s st. view st (slice_obj_key s) = None \<Longrightarrow> slc_Create (w_Client w') s st = slc_Create (w_Client w) s st"
    and "slc_List (w_Client w') = slc_List (w_Client w)" and "w_MaxEndpointsPerSlice w' = w_MaxEndpointsPerSlice w"
    and empty: "view st = Map.empty"
  shows "Writer_Reconcile w' deq owner xsvc sn groups st = Writer_Reconcile w deq owner xsvc sn groups st"
proof -
  have eq: "Writer_list w' = Writer_list w" "max_per w' = max_per w"
    using assms(5,6) by (simp_all add: Writer_list_def max_per_def fun_eq_iff)
  obtain res st1 where list: "Writer_list w (xs_Namespace xsvc) sn st = (res, st1)" by fastforce
  show ?thesis
  proof (cases res)
    case (Inl err)
    then show ?thesis by (simp add: Writer_Reconcile_def eq list)
  next
    case (Inr existing)
    note ls = Writer_list_spec [OF store list [unfolded Inr]]
    have "existing = []" using ls(4) by (simp add: managed_def empty)
    obtain plan orphans where plan: "planSlices existing groups sn (max_per w) = (plan, orphans)" by fastforce
    note input = groups_input_ok [OF groups ls(2), of w]
    have "orphans = []" using planned_slices(1) [OF input plan] \<open>existing = []\<close> by simp
    moreover have "sp_Existing p = None" if "p \<in> set plan" for p
      using planned_existing(2) [OF input plan that] \<open>existing = []\<close> by (cases "sp_Existing p") auto
    then have "write_plans w' deq owner xsvc sn plan zero_outcome st1 = write_plans w deq owner xsvc sn plan zero_outcome st1"
      using planSlices_spec(4) [OF input plan] by (intro write_plans_strict [OF store owner same]) (simp_all add: ls(1) empty)
    ultimately show ?thesis by (simp add: Writer_Reconcile_def eq list Inr plan)
  qed
qed

section \<open>Properties\<close>


section \<open>Witness\<close>

text \<open>The environment of the examples, with a client that refuses to create an object twice.\<close>

lemma demo_no_cluster:
  "src_ClusterRef (spec_Source (xs_Spec xsvc)) = None \<Longrightarrow> resolveCluster lsas gn gc xsvc = Inr None"
  by (simp add: resolveCluster_def)

lemma demo_Reconcile_ok:
  assumes "validateSpec xsvc = None" and "src_ClusterRef (spec_Source (xs_Spec xsvc)) = None"
  shows "\<exists>d w'. Reconcile demo_controller_lib (demo_reconciler (Inr xsvc) resolve) demo_req w = ((d, None), w')"
proof -
  let ?r = "demo_reconciler (Inr xsvc) resolve"
  obtain fresh ttl err w1 where w1: "resolve_source ?r demo_req xsvc w = ((fresh, ttl, err), w1)" by (metis prod.exhaust)
  have get: "csr_Get ?r demo_req (wd_api w) = Inr xsvc" and dflt: "csr_DefaultAddressPolicy ?r = None"
    by (simp_all add: demo_reconciler_def)
  obtain kept rejected where "Filter \<lparr>pol_allowed = [], pol_denied = [], pol_denySpecialPurpose = True\<rparr> fresh = (kept, rejected)"
    by fastforce
  then have f: "filterAddresses None None fresh = Inr (kept, rejected)"
    by (simp add: filterAddresses_def NewPolicy_def)
  show ?thesis
    using demo_write_endpoints_ok by (simp add: Reconcile_def get Let_def assms(1) demo_no_cluster [OF assms(2)] w1 dflt f)
qed

lemma demo_parsed:
  "ParseAddr ''203.0.113.7'' = Some (Addr4 0xCB007107)"
  "ParseAddr ''2001:db8::7'' = Some (Addr6 0x20010DB8000000000000000000000007 [])"
  by code_simp+

lemma demo_admitted_valid: "validateSpec demo_admitted = None"
  by (simp add: validateSpec_def validatePortNames_def demo_admitted_def zero_source_def zero_port_def demo_parsed lower_def less_eq_char_def
      HasPrefix_def)

definition strict_create ::
    "EndpointSlice \<Rightarrow> (NamespacedName \<rightharpoonup> Service) \<times> EndpointSlice list \<Rightarrow> go_error option \<times> ((NamespacedName \<rightharpoonup> Service) \<times> EndpointSlice list)" where
  "strict_create s st =
     (if mem_view (snd st) (slice_obj_key s) = None then slc_Create (beside_services mem_client) s st
      else (Some (Errorf [Lit ''already exists'']), st))"

definition demo_strict :: "CacheState resolver \<Rightarrow> ((NamespacedName \<rightharpoonup> Service) \<times> EndpointSlice list) CrossServiceReconciler" where
  "demo_strict resolve = (let r = demo_reconciler (Inr demo_admitted) resolve
     in with_writes (svcc_Create (csr_Services r)) (svcc_Update (csr_Services r)) strict_create (slc_Update (csr_Slices r))
          (slc_Delete (csr_Slices r)) r)"

lemma demo_strict_fields:
  "csr_Services (demo_strict resolve) = csr_Services (demo_reconciler (Inr demo_admitted) resolve)"
  "csr_Slices (demo_strict resolve) = (beside_services mem_client)\<lparr>slc_Create := strict_create\<rparr>"
  by (simp_all add: demo_strict_def with_writes_def demo_reconciler_def Let_def beside_slices_def beside_services_def)

lemma demo_strict_same:
  "csr_Get (demo_strict resolve) = csr_Get (demo_reconciler (Inr demo_admitted) resolve)"
  "csr_GetCluster (demo_strict resolve) = csr_GetCluster (demo_reconciler (Inr demo_admitted) resolve)"
  "csr_GetNamespace (demo_strict resolve) = csr_GetNamespace (demo_reconciler (Inr demo_admitted) resolve)"
  "csr_ServiceOwner (demo_strict resolve) = csr_ServiceOwner (demo_reconciler (Inr demo_admitted) resolve)"
  "csr_SliceOwner (demo_strict resolve) = csr_SliceOwner (demo_reconciler (Inr demo_admitted) resolve)"
  "csr_MaxEndpointsPerSlice (demo_strict resolve) = csr_MaxEndpointsPerSlice (demo_reconciler (Inr demo_admitted) resolve)"
  "csr_DefaultAddressPolicy (demo_strict resolve) = csr_DefaultAddressPolicy (demo_reconciler (Inr demo_admitted) resolve)"
  "csr_Now (demo_strict resolve) = csr_Now (demo_reconciler (Inr demo_admitted) resolve)"
  "writeStatus lib (demo_strict resolve) = writeStatus lib (demo_reconciler (Inr demo_admitted) resolve)"
  "report_rejected (demo_strict resolve) = report_rejected (demo_reconciler (Inr demo_admitted) resolve)"
  "resolve_source (demo_strict resolve) = resolve_source (demo_reconciler (Inr demo_admitted) resolve)"
  by (simp_all add: demo_strict_def Let_def with_writes_simps)

lemma strict_create_free:
  assumes "strict_create s st = (None, st')"
  shows "mem_view (snd st) (slice_obj_key s) = None" and "slc_Create (beside_services mem_client) s st = (None, st')"
  using assms by (simp_all add: strict_create_def split: if_splits)

lemma demo_strict_ok:
  "environment_ok demo_controller_lib (demo_strict resolve) demo_admit (\<lambda>st. services_view (fst st)) (\<lambda>st. mem_view (snd st))"
  "objects_apart (demo_strict resolve) (\<lambda>st. services_view (fst st))"
  "calls_apart (demo_strict resolve) (\<lambda>st. services_view (fst st)) (\<lambda>st. mem_view (snd st))"
proof -
  let ?r = "demo_reconciler (Inr demo_admitted) resolve"
  have "slice_store_ok (\<lambda>st. mem_view (snd st)) (csr_Slices ?r)"
    using demo_environment_ok [of "Inr demo_admitted" resolve] by (simp add: environment_ok_def)
  then have "slice_store_ok (\<lambda>st. mem_view (snd st)) ((beside_services mem_client)\<lparr>slc_Create := strict_create\<rparr>)"
    unfolding slice_store_ok_def by (simp add: demo_reconciler_def) (meson strict_create_free(2))
  then show "environment_ok demo_controller_lib (demo_strict resolve) demo_admit (\<lambda>st. services_view (fst st)) (\<lambda>st. mem_view (snd st))"
    using demo_environment_ok [of "Inr demo_admitted" resolve]
    by (simp add: environment_ok_def demo_strict_fields) (simp add: demo_strict_def Let_def)
  show "objects_apart (demo_strict resolve) (\<lambda>st. services_view (fst st))"
    by (simp add: objects_apart_def demo_strict_fields strict_create_def beside_services_def split: prod.split)
      (simp add: demo_strict_def Let_def demo_reconciler_def)
  have "mem_view (snd st) (slice_obj_key s) = None" if "strict_create s st = (None, st')" for s st st'
    by (rule strict_create_free(1) [OF that])
  then show "calls_apart (demo_strict resolve) (\<lambda>st. services_view (fst st)) (\<lambda>st. mem_view (snd st))"
    by (simp add: calls_apart_def demo_strict_fields demo_reconciler_def beside_slices_def mem_services_def)
qed

lemma demo_strict_write:
  assumes "snd (wd_api w) = []" and "distinct (map e_Address kept)"
  shows "write_endpoints demo_controller_lib (demo_strict resolve) xsvc status rc kept n ttl None w =
     write_endpoints demo_controller_lib (demo_reconciler (Inr demo_admitted) resolve) xsvc status rc kept n ttl None w"
proof -
  let ?r = "demo_reconciler (Inr demo_admitted) resolve" and ?lib = demo_controller_lib
  let ?groups = "GroupEndpoints kept (spec_Ports (xs_Spec xsvc)) (spec_IPFamilyPolicy (xs_Spec xsvc))"
  have env: "environment_ok ?lib ?r demo_admit (\<lambda>st. services_view (fst st)) (\<lambda>st. mem_view (snd st))" by (rule demo_environment_ok)
  obtain ref where ref: "service_owner_ok ref (csr_ServiceOwner ?r xsvc)" using env unfolding environment_ok_def by blast
  have store: "service_store_ok demo_admit (\<lambda>st. services_view (fst st)) (csr_Services (demo_strict resolve))"
    using demo_strict_ok(1) by (simp add: environment_ok_def)
  have "Writer_Reconcile \<lparr>w_Client = csr_Slices (demo_strict resolve), w_MaxEndpointsPerSlice = m\<rparr> deq (csr_SliceOwner ?r xsvc) xsvc sn ?groups api1 =
      Writer_Reconcile \<lparr>w_Client = csr_Slices ?r, w_MaxEndpointsPerSlice = m\<rparr> deq (csr_SliceOwner ?r xsvc) xsvc sn ?groups api1"
    if "mem_view (snd api1) = Map.empty" for m deq sn api1
    by (rule Writer_strict [where view = "\<lambda>st. mem_view (snd st)", OF _ _ GroupEndpoints_groups_ok [OF assms(2)]])
      (use env that in \<open>auto simp: environment_ok_def demo_strict_fields strict_create_def demo_reconciler_def\<close>)
  moreover have "mem_view (snd api1) = Map.empty"
    if "Service_Reconcile (lib_intValue ?lib) (lib_serviceEqual ?lib) (csr_Services ?r) xsvc (csr_ServiceOwner ?r xsvc) (wd_api w) = (Inr (svc, b), api1)"
    for svc b api1
  proof -
    have "mem_view (snd api1) = mem_view (snd (wd_api w))"
      using Service_isolated(1) [OF store ref demo_strict_ok(3) that [folded demo_strict_fields(1)]] .
    then show ?thesis using assms(1) by (simp add: mem_view_def fun_eq_iff)
  qed
  ultimately show ?thesis
    by (cases "Service_Reconcile (lib_intValue ?lib) (lib_serviceEqual ?lib) (csr_Services ?r) xsvc (csr_ServiceOwner ?r xsvc) (wd_api w)")
      (auto simp: write_endpoints_def Let_def ApplyFailurePolicy_ok demo_strict_fields(1) demo_strict_same split: sum.split)
qed

lemma demo_strict_run:
  "\<exists>d w'. Reconcile demo_controller_lib (demo_strict (\<lambda>src ports st. (Inr \<lparr>r_Endpoints = es, r_TTL = 0, r_Warnings = []\<rparr>, st))) demo_req demo_world
     = ((d, None), w')"
proof -
  let ?resolve = "\<lambda>src ports st. (Inr \<lparr>r_Endpoints = es, r_TTL = 0, r_Warnings = []\<rparr>, st) :: Result result \<times> CacheState"
  let ?r = "demo_reconciler (Inr demo_admitted) ?resolve"
  have src: "src_ClusterRef (spec_Source (xs_Spec demo_admitted)) = None" by (simp add: demo_admitted_def zero_source_def)
  obtain kept rejected where "Filter \<lparr>pol_allowed = [], pol_denied = [], pol_denySpecialPurpose = True\<rparr> (Dedupe es) = (kept, rejected)"
    by fastforce
  then have f: "filterAddresses None None (Dedupe es) = Inr (kept, rejected)"
    by (simp add: filterAddresses_def NewPolicy_def)
  have get: "csr_Get ?r demo_req st = Inr demo_admitted" and dflt: "csr_DefaultAddressPolicy ?r = None" for st
    by (simp_all add: demo_reconciler_def)
  have source: "resolve_source ?r demo_req demo_admitted demo_world = ((Dedupe es, 0, None), demo_world)"
    by (simp add: resolve_source_def demo_reconciler_def demo_world_def demo_admitted_def zero_source_def)
  have "Reconcile demo_controller_lib (demo_strict ?resolve) demo_req demo_world = Reconcile demo_controller_lib ?r demo_req demo_world"
    using demo_strict_write [OF _ filterAddresses_distinct [OF f Dedupe_distinct]]
    by (simp add: Reconcile_def demo_strict_same get dflt Let_def demo_admitted_valid demo_no_cluster [OF src] source f)
      (simp add: demo_world_def)
  then show ?thesis using demo_Reconcile_ok [OF demo_admitted_valid src] by metis
qed


end
