(* ===== verification/Spec2Isabelle.thy ===== *)
theory Spec2Isabelle
  imports Main_Setup Auth_Token Isolation
begin

text \<open>
  A verification of the cross-cluster service controller.

  \<^bold>\<open>The program.\<close>  A \<^verbatim>\<open>CrossService\<close> names ports and one source of endpoints: literal addresses, DNS names,
  Pods, Nodes, or a Service, the last three in the local cluster or in one that a \<^verbatim>\<open>RemoteCluster\<close> describes.
  The controller resolves the source, filters the addresses, applies a failure policy when the source does not
  answer, keeps a Service without a selector in front, and writes the endpoints to \<^verbatim>\<open>EndpointSlice\<close>s.  A second
  controller keeps the health of the remote clusters.  \<^verbatim>\<open>cmd/main.go\<close> wires them over one shared cache of remote
  clients, whose informers feed events back to the first controller.

  \<^bold>\<open>The theories\<close>, in the order of their imports, with the files under \<^verbatim>\<open>src/\<close> that they model:

  \<^item> \<^verbatim>\<open>Prelude\<close>: durations, messages and errors as values, text operations, the lemma collections, and facts on
    lists and sorting that several components use.
  \<^item> \<^verbatim>\<open>Netip\<close>, \<^verbatim>\<open>Netip_Text\<close>: the part of Go's \<^verbatim>\<open>net/netip\<close> that the sources call, on words of 32 and 128
    bits; an address's text is read back by \<^verbatim>\<open>ParseAddr\<close>, so the texts in a slice identify addresses.
  \<^item> \<^verbatim>\<open>API_Types\<close>, \<^verbatim>\<open>Remote_Types\<close>: \<^verbatim>\<open>api/v1alpha1\<close>, every field of the specifications and statuses.
  \<^item> \<^verbatim>\<open>Policy\<close>, \<^verbatim>\<open>Endpoint_Group\<close>, \<^verbatim>\<open>Failure\<close>, \<^verbatim>\<open>Slice_Plan\<close>, \<^verbatim>\<open>Slice_Writer\<close>: \<^verbatim>\<open>internal/endpoints\<close>.  A policy
    is characterised by ranges of address values; groups are a partition with one family and one port tuple each,
    whatever the order of the input; the failure policy serves what was persisted, for exactly the documented
    conditions; the planner places every endpoint once and keeps it where it was; the writer brings the managed
    slices to the plan, and a second run writes nothing.
  \<^item> \<^verbatim>\<open>Resolver_Core\<close>, \<^verbatim>\<open>Resolver_DNS\<close>, \<^verbatim>\<open>Resolver_Pods\<close>, \<^verbatim>\<open>Resolver_Nodes\<close>, \<^verbatim>\<open>Resolver_Service\<close>:
    \<^verbatim>\<open>internal/resolver\<close>.  The locale \<^verbatim>\<open>resolver_contract\<close> says what the controller relies on (a port for every
    declared one, addresses unmapped, no reference into another cluster); it is interpreted for each of the five
    resolvers, and in \<^verbatim>\<open>Main_Setup\<close> for the table that the program builds from them.
  \<^item> \<^verbatim>\<open>Clusters\<close>, \<^verbatim>\<open>Auth\<close>, \<^verbatim>\<open>Auth_Token\<close>, \<^verbatim>\<open>Cluster_Cache\<close>: \<^verbatim>\<open>internal/clusters\<close>.  The locale \<^verbatim>\<open>cluster_provider\<close> is the routing of
    sources to clients.  Credentials are built behind the two gates, from Secrets of one namespace, and an error of a build
    does not depend on the value of a Secret, for the access types that hand none to a parser or a cloud API; the exchange of a token for that of another account is modelled, too.  The cache is a
    transition system: \<^verbatim>\<open>cache_step\<close> is one call of a public operation, and on every reachable state the
    informers that run are those of the entries.  The locale \<^verbatim>\<open>counted_references\<close> is the contract of its
    reference counts.
  \<^item> \<^verbatim>\<open>Service_Reconcile\<close>: \<^verbatim>\<open>internal/service\<close>, the Service as it must be after a reconciliation, whatever was there.
  \<^item> \<^verbatim>\<open>Validation\<close>, \<^verbatim>\<open>Conditions\<close>, \<^verbatim>\<open>Access\<close>, \<^verbatim>\<open>CrossService_Controller\<close>, \<^verbatim>\<open>Watches\<close>, \<^verbatim>\<open>RemoteCluster_Controller\<close>:
    \<^verbatim>\<open>internal/controller\<close>.  The admission rules of the API and what the controller checks again; conditions of both
    controllers under one locale (\<^verbatim>\<open>condition_status\<close>); access that fails closed; the reconciliation, its
    status and its timer; the indexes and mappers, which deliver an event to every CrossService
    whose source names the object; the health of a cluster, its finalizer and the rotation of its Secrets.
  \<^item> \<^verbatim>\<open>Convergence\<close>: what a whole reconciliation leaves in the store, and that the next one makes no call that writes.
  \<^item> \<^verbatim>\<open>Isolation\<close>: a reconciliation changes its own Service and slices only, so those of a CrossService outlive every
    sequence of reconciliations of others (the step relation \<^verbatim>\<open>others_step\<close>).
  \<^item> \<^verbatim>\<open>Main_Setup\<close>: \<^verbatim>\<open>cmd/main.go\<close> with the \<^verbatim>\<open>SetupWithManager\<close> and index registrations of \<^verbatim>\<open>internal/controller\<close>: flags, options of
    the servers and the manager, the shared objects, and the start (\<^verbatim>\<open>prepare\<close>, then \<^verbatim>\<open>main\<close>).  What is registered routes every
    event to exactly the CrossServices that depend on it, and depends on the Secrets of one namespace only.
  \<^item> This theory: the properties of a whole reconciliation: what is in the slices when the source answered, that none of it is
    special-purpose, what is there when the source did not answer, and that the next run writes nothing.

  \<^bold>\<open>State and environment.\<close>  A reconciliation is a function of a \<^verbatim>\<open>World\<close>: the state of the API server, whose type
  is a parameter, the cache of remote clients, and the events that were recorded.  The API server, the informers,
  the discovery client, DNS, the Secrets, \<^verbatim>\<open>controllerutil\<close>, \<^verbatim>\<open>labels.Selector\<close> and the deep comparisons of the
  library are arguments.  What the proofs need of them is stated by the predicates \<^verbatim>\<open>slice_store_ok\<close>,
  \<^verbatim>\<open>service_store_ok\<close>, \<^verbatim>\<open>admit_ok\<close>, \<^verbatim>\<open>owner_ok\<close>, \<^verbatim>\<open>service_owner_ok\<close>, \<^verbatim>\<open>deep_equal_ok\<close>, \<^verbatim>\<open>service_equal_ok\<close> (together
  \<^verbatim>\<open>environment_ok\<close>), \<^verbatim>\<open>objects_apart\<close>, \<^verbatim>\<open>calls_apart\<close>, \<^verbatim>\<open>index_ok\<close>,
  \<^verbatim>\<open>manager_ok\<close> and \<^verbatim>\<open>cached_list_ok\<close>, and each has an in-memory instance on which the witnesses run.
  An operation of a controller runs without another writer in between; the cache, which is shared by
  goroutines, is modelled per critical section, so that its steps interleave.

  \<^bold>\<open>Bounds.\<close>  No definition has fuel: every loop of the sources that is modelled ends, \<^verbatim>\<open>nextSliceName\<close>'s unbounded
  one because only finitely many names are in use.  Counters of failures are 32-bit words, durations
  and times are integers of nanoseconds without the wrap at 292 years.  Go's map iteration is a list whose order no
  property depends on, or is followed by the sort that the code has.

  \<^bold>\<open>Not modelled.\<close>  \<^verbatim>\<open>zz_generated.deepcopy.go\<close> and \<^verbatim>\<open>groupversion_info.go\<close> (generated or registration only); the parsing of flags,
  the logger and the manager that \<^verbatim>\<open>cmd/main.go\<close> calls, which are the library's; the DNS resolver of the standard library, of
  which the adapter and the choice of servers are modelled; the HTTP client, the credential discovery and the processes that exec plugins start, which
  are parameters of the credential builder; logging.
\<close>

section \<open>Lemmas\<close>

lemma source_supported:
  assumes "source_admitted src"
  shows "source_resolvers intValue lsas system provider (src_Type src) \<noteq> None"
  using assms by (auto simp: source_admitted_def source_resolvers_def)

text \<open>An endpoint that satisfies the contract has a port for every declared one, so only its family can keep it out.\<close>

lemma contract_placeable:
  assumes "endpoint_ok src ports e" and "ports \<noteq> []"
  shows "placeable ports fam e \<longleftrightarrow> Allows fam (AddressTypeOf e)"
proof -
  have "\<exists>n. e_PortMap e (csp_Name (hd ports)) = Some n" using endpoint_ok_port [OF assms(1)] assms(2) by simp
  then have "0 < length (portTupleFor e ports)"
    using assms(2) by (cases ports) (auto simp: portTupleFor_def List.map_filter_def)
  then show ?thesis by (simp add: placeable_def)
qed

lemma Reconcile_resolved:
  assumes "csr_Get r req (wd_api w) = Inr xsvc" and "Reconcile lib r req w = ((d, None), w')" and "validateSpec xsvc = None"
    and "resolveCluster (lib_lsas lib) (\<lambda>n. csr_GetNamespace r n (wd_api w)) (\<lambda>n. csr_GetCluster r n (wd_api w)) xsvc = Inr rc"
    and "csr_Resolver r (spec_Source (xs_Spec xsvc)) (spec_Ports (xs_Spec xsvc)) (wd_cache w) = (result, cache)"
  obtains kept rejected status n ttl w1 where
    "filterAddresses (csr_DefaultAddressPolicy r) rc (case result of Inl err \<Rightarrow> [] | Inr res \<Rightarrow> Dedupe (r_Endpoints res)) = Inr (kept, rejected)"
    "write_endpoints lib r xsvc status rc kept n ttl (case result of Inl err \<Rightarrow> Some err | Inr res \<Rightarrow> None) w1 = ((d, None), w')"
proof (cases result)
  case (Inl err)
  then obtain w1 where "resolve_source r req xsvc w = (([], 0, Some err), w1)"
    by (simp add: resolve_source_def assms(5) Let_def)
  with assms(2) show ?thesis
    using that by (auto simp: Reconcile_def Let_def assms(1,3,4) Inl split: sum.splits prod.splits)
next
  case (Inr res)
  then obtain w1 where "resolve_source r req xsvc w = ((Dedupe (r_Endpoints res), r_TTL res, None), w1)"
    by (simp add: resolve_source_def assms(5) Let_def)
  with assms(2) show ?thesis
    using that by (auto simp: Reconcile_def Let_def assms(1,3,4) Inr split: sum.splits prod.splits)
qed

lemma Allow_None_not_special: "pol_denySpecialPurpose p \<Longrightarrow> Allow p a = None \<Longrightarrow> \<not> special_addr (Unmap a)"
  by (auto simp: Allow_def Let_def isSpecialPurpose_Unmap split: if_splits)

lemma Reconcile_written:
  assumes "environment_ok lib r admit services slices"
    and "csr_Resolver r = Registry_Resolve (source_resolvers intValue lsas system provider)"
    and "csr_Get r req (wd_api w) = Inr xsvc" and "spec_admitted (xs_Spec xsvc)" and "validateSpec xsvc = None"
    and "resolveCluster (lib_lsas lib) (\<lambda>n. csr_GetNamespace r n (wd_api w)) (\<lambda>n. csr_GetCluster r n (wd_api w)) xsvc = Inr rc"
    and "csr_Resolver r (spec_Source (xs_Spec xsvc)) (spec_Ports (xs_Spec xsvc)) (wd_cache w) = (Inr res, cache)"
    and "Reconcile lib r req w = ((d, None), w')"
  shows "\<exists>p. NewPolicy (csr_DefaultAddressPolicy r) = Inr p \<and>
     written_addresses (managed (slices (wd_api w')) (xs_Namespace xsvc) (NameFor xsvc)) =
       {String (e_Address e) | e. e \<in> set (Dedupe (r_Endpoints res)) \<and> cluster_permits rc (e_Address e) \<and>
          Allow p (e_Address e) = None \<and> Allows (spec_IPFamilyPolicy (xs_Spec xsvc)) (AddressTypeOf e)}"
proof -
  let ?spec = "xs_Spec xsvc"
  obtain kept rejected status n ttl w1 where
    f: "filterAddresses (csr_DefaultAddressPolicy r) rc (Dedupe (r_Endpoints res)) = Inr (kept, rejected)"
    and run: "write_endpoints lib r xsvc status rc kept n ttl None w1 = ((d, None), w')"
    using Reconcile_resolved [OF assms(3,8,5,6,7)] unfolding sum.case by metis
  obtain p where p: "NewPolicy (csr_DefaultAddressPolicy r) = Inr p"
    and kept: "kept = filter (\<lambda>e. cluster_permits rc (e_Address e) \<and> Allow p (e_Address e) = None) (Dedupe (r_Endpoints res))"
    using filterAddresses_Inr [OF f] by blast
  have state: "kept = fs_Endpoints (ApplyFailurePolicy (spec_FailurePolicy ?spec) (css_Source (xs_Status xsvc)) kept None (csr_Now r))"
    by (simp add: ApplyFailurePolicy_ok)
  have dist: "distinct (map e_Address kept)"
    unfolding kept using Dedupe_distinct by (rule distinct_map_filter)
  have placed: "placeable (spec_Ports ?spec) (spec_IPFamilyPolicy ?spec) e \<longleftrightarrow> Allows (spec_IPFamilyPolicy ?spec) (AddressTypeOf e)"
    if "e \<in> set kept" for e
  proof (rule contract_placeable)
    have "e \<in> set (r_Endpoints res)" using that Dedupe_subset kept by auto
    then show "endpoint_ok (spec_Source ?spec) (spec_Ports ?spec) e"
      using sources.resolve_ok assms(2,7) by metis
    show "spec_Ports ?spec \<noteq> []" using assms(4) by (auto simp: spec_admitted_def Let_def)
  qed
  have "written_addresses (managed (slices (wd_api w')) (xs_Namespace xsvc) (NameFor xsvc)) =
      (\<lambda>e. String (e_Address e)) ` {e \<in> set kept. Allows (spec_IPFamilyPolicy ?spec) (AddressTypeOf e)}"
    using write_endpoints_written [OF assms(1) run state dist] placed by (auto intro!: arg_cong [where f = "image _"])
  also have "\<dots> = {String (e_Address e) | e. e \<in> set (Dedupe (r_Endpoints res)) \<and> cluster_permits rc (e_Address e) \<and>
          Allow p (e_Address e) = None \<and> Allows (spec_IPFamilyPolicy ?spec) (AddressTypeOf e)}"
    by (auto simp: kept)
  finally show ?thesis using p by blast
qed

lemma status_ignored:
  "validateSpec (xsvc\<lparr>xs_Status := s\<rparr>) = validateSpec xsvc"
  "resolveCluster lsas getNamespace getCluster (xsvc\<lparr>xs_Status := s\<rparr>) = resolveCluster lsas getNamespace getCluster xsvc"
  by (simp add: validateSpec_def) (simp add: resolveCluster_def split: option.split sum.split)

text \<open>Filtering the same endpoints in another order keeps the same ones.\<close>

lemma filterAddresses_perm:
  assumes "filterAddresses dflt rc es = Inr (kept, rejected)" and "filterAddresses dflt rc es' = Inr (kept', rejected')"
    and "mset es' = mset es"
  shows "mset kept' = mset kept"
proof -
  obtain p where p: "NewPolicy dflt = Inr p"
    and kept: "kept = filter (\<lambda>e. cluster_permits rc (e_Address e) \<and> Allow p (e_Address e) = None) es"
    using filterAddresses_Inr [OF assms(1)] by blast
  have "kept' = filter (\<lambda>e. cluster_permits rc (e_Address e) \<and> Allow p (e_Address e) = None) es'"
    using filterAddresses_Inr [OF assms(2)] unfolding p by blast
  then show ?thesis by (simp add: kept assms(3))
qed

section \<open>Properties\<close>

text \<open>
  C1: end to end, on success.  After a reconciliation that returns no error and whose source resolved, the slices that the
  controller manages for the Service hold exactly the addresses that were resolved, that the policy of the source's
  cluster and the default policy let through, and whose family the specification asks for: none is lost, and no
  other address is ever written.
\<close>

theorem Reconcile_writes_resolved:
  assumes "environment_ok lib r admit services slices"
    and "csr_Resolver r = Registry_Resolve (source_resolvers intValue lsas system provider)"
    and "csr_Get r req (wd_api w) = Inr xsvc" and "spec_admitted (xs_Spec xsvc)" and "validateSpec xsvc = None"
    and "resolveCluster (lib_lsas lib) (\<lambda>n. csr_GetNamespace r n (wd_api w)) (\<lambda>n. csr_GetCluster r n (wd_api w)) xsvc = Inr rc"
    and "csr_Resolver r (spec_Source (xs_Spec xsvc)) (spec_Ports (xs_Spec xsvc)) (wd_cache w) = (Inr res, cache)"
    and "Reconcile lib r req w = ((d, None), w')"
  shows "\<exists>p. NewPolicy (csr_DefaultAddressPolicy r) = Inr p \<and>
     written_addresses (managed (slices (wd_api w')) (xs_Namespace xsvc) (NameFor xsvc)) =
       {String (e_Address e) | e. e \<in> set (Dedupe (r_Endpoints res)) \<and> cluster_permits rc (e_Address e) \<and>
          Allow p (e_Address e) = None \<and> Allows (spec_IPFamilyPolicy (xs_Spec xsvc)) (AddressTypeOf e)}"
  using Reconcile_written [OF assms] .

text \<open>
  C3: end to end, on failure (I9).  When the source does not resolve, and unless the policy asks for removal and the
  failure is past both the threshold and the stale window, a reconciliation that returns no error leaves the managed
  slices with the addresses of the last known good endpoints.
\<close>

theorem Reconcile_keeps_last_known_good:
  assumes "environment_ok lib r admit services slices"
    and "csr_Get r req (wd_api w) = Inr xsvc" and "validateSpec xsvc = None"
    and "resolveCluster (lib_lsas lib) (\<lambda>n. csr_GetNamespace r n (wd_api w)) (\<lambda>n. csr_GetCluster r n (wd_api w)) xsvc = Inr rc"
    and "csr_Resolver r (spec_Source (xs_Spec xsvc)) (spec_Ports (xs_Spec xsvc)) (wd_cache w) = (Inl err, cache)"
    and "distinct (map e_Address (endpointsFromStatus (css_Source (xs_Status xsvc))))"
    and "case FailurePolicyDefaults (spec_FailurePolicy (xs_Spec xsvc)) of (threshold, staleAfter, onStale) \<Rightarrow>
       \<not> (onStale = StaleActionRemove \<and> sint threshold \<le> sint (consecutive_errors (css_Source (xs_Status xsvc))) \<and>
          \<not> withinStaleWindow (css_Source (xs_Status xsvc)) (csr_Now r) staleAfter)"
    and "Reconcile lib r req w = ((d, None), w')"
  shows "written_addresses (managed (slices (wd_api w')) (xs_Namespace xsvc) (NameFor xsvc)) =
     {String (e_Address e) | e. e \<in> set (endpointsFromStatus (css_Source (xs_Status xsvc))) \<and>
        placeable (spec_Ports (xs_Spec xsvc)) (spec_IPFamilyPolicy (xs_Spec xsvc)) e}"
proof -
  let ?prev = "css_Source (xs_Status xsvc)" and ?pol = "spec_FailurePolicy (xs_Spec xsvc)"
  let ?fam = "placeable (spec_Ports (xs_Spec xsvc)) (spec_IPFamilyPolicy (xs_Spec xsvc))"
  obtain kept status n ttl w1 where
    run: "write_endpoints lib r xsvc status rc kept n ttl (Some err) w1 = ((d, None), w')"
    using Reconcile_resolved [OF assms(2,8,3,4,5)] unfolding sum.case by metis
  let ?es = "fs_Endpoints (ApplyFailurePolicy ?pol ?prev kept (Some err) (csr_Now r))"
  have "?es = endpointsFromStatus ?prev \<or> ?es = map (\<lambda>e. e\<lparr>e_Ready := False, e_Serving := False\<rparr>) (endpointsFromStatus ?prev)"
    using assms(7) by (auto simp: ApplyFailurePolicy_def Let_def split: prod.splits)
  then obtain f where f: "?es = map f (endpointsFromStatus ?prev)" "\<And>e. e_Address (f e) = e_Address e" "\<And>e. ?fam (f e) = ?fam e"
  proof
    assume "?es = endpointsFromStatus ?prev"
    then show ?thesis using that [of "\<lambda>e. e"] by simp
  next
    assume "?es = map (\<lambda>e. e\<lparr>e_Ready := False, e_Serving := False\<rparr>) (endpointsFromStatus ?prev)"
    then show ?thesis
      using that [of "\<lambda>e. e\<lparr>e_Ready := False, e_Serving := False\<rparr>"]
      by (simp add: placeable_def AddressTypeOf_def portTupleFor_def)
  qed
  have "distinct (map e_Address ?es)" using assms(6) by (simp add: f comp_def)
  from write_endpoints_written [OF assms(1) run refl this] show ?thesis
    by (auto simp: f image_iff) (metis f(2,3))
qed


text \<open>
  C2: as the program is wired, and whatever policy a cluster or a specification declares, a reconciliation whose source
  resolved never leaves a special-purpose address (loopback, link-local with the metadata servers, multicast,
  unspecified, reserved) in a slice that it manages, not even written as an IPv4-mapped IPv6 address.
\<close>

theorem main_never_writes_special:
  assumes "environment_ok lib (main_reconciler mgr intValue lsas system provider limit) admit services slices"
    and "csr_Get mgr req (wd_api w) = Inr xsvc" and "spec_admitted (xs_Spec xsvc)" and "validateSpec xsvc = None"
    and "resolveCluster (lib_lsas lib) (\<lambda>n. csr_GetNamespace mgr n (wd_api w)) (\<lambda>n. csr_GetCluster mgr n (wd_api w)) xsvc = Inr rc"
    and "Registry_Resolve (source_resolvers intValue lsas system provider) (spec_Source (xs_Spec xsvc)) (spec_Ports (xs_Spec xsvc))
        (wd_cache w) = (Inr res, cache)"
    and "Reconcile lib (main_reconciler mgr intValue lsas system provider limit) req w = ((d, None), w')"
    and "s \<in> written_addresses (managed (slices (wd_api w')) (xs_Namespace xsvc) (NameFor xsvc))"
  shows "\<exists>a. s = String a \<and> \<not> special_addr (Unmap a)"
proof -
  let ?r = "main_reconciler mgr intValue lsas system provider limit"
  have "\<exists>p. NewPolicy (csr_DefaultAddressPolicy ?r) = Inr p \<and>
     written_addresses (managed (slices (wd_api w')) (xs_Namespace xsvc) (NameFor xsvc)) =
       {String (e_Address e) | e. e \<in> set (Dedupe (r_Endpoints res)) \<and> cluster_permits rc (e_Address e) \<and>
          Allow p (e_Address e) = None \<and> Allows (spec_IPFamilyPolicy (xs_Spec xsvc)) (AddressTypeOf e)}"
    by (rule Reconcile_written [OF assms(1) _ _ assms(3,4) _ _ assms(7)])
      (simp_all add: main_reconciler_def assms(2,5,6))
  then obtain p where p: "NewPolicy (csr_DefaultAddressPolicy ?r) = Inr p"
    and "s \<in> {String (e_Address e) | e. e \<in> set (Dedupe (r_Endpoints res)) \<and> cluster_permits rc (e_Address e) \<and>
          Allow p (e_Address e) = None \<and> Allows (spec_IPFamilyPolicy (xs_Spec xsvc)) (AddressTypeOf e)}"
    using assms(8) by blast
  then obtain e :: Endpoint where "s = String (e_Address e)" "Allow p (e_Address e) = None" by blast
  moreover have "pol_denySpecialPurpose p" using p by (auto simp: NewPolicy_def main_reconciler_def)
  ultimately show ?thesis using Allow_None_not_special by blast
qed

text \<open>
  C4: a reconciliation converges (I7, I12).  After one that returned no error on a source that resolved, the next one that
  finds the Services and slices as they were left and the same endpoints, in any order, writes no Service and no
  slice: it does exactly the same when creating, updating and deleting them is replaced by anything.
\<close>

theorem Reconcile_converges:
  assumes env: "environment_ok lib r admit services slices" and apart: "objects_apart r services"
    and iv: "lib_intValue lib (IntVal 0) = 0"
    and get: "csr_Get r req (wd_api w) = Inr xsvc" and adm: "spec_admitted (xs_Spec xsvc)" and valid: "validateSpec xsvc = None"
    and rc: "resolveCluster (lib_lsas lib) (\<lambda>n. csr_GetNamespace r n (wd_api w)) (\<lambda>n. csr_GetCluster r n (wd_api w)) xsvc = Inr rc"
    and res: "csr_Resolver r (spec_Source (xs_Spec xsvc)) (spec_Ports (xs_Spec xsvc)) (wd_cache w) = (Inr res, cache)"
    and run: "Reconcile lib r req w = ((d, None), w1)"
    and world: "services (wd_api w2) = services (wd_api w1)" "slices (wd_api w2) = slices (wd_api w1)"
    and get2: "csr_Get r req (wd_api w2) = Inr (xsvc\<lparr>xs_Status := s\<rparr>)"
    and rc2: "resolveCluster (lib_lsas lib) (\<lambda>n. csr_GetNamespace r n (wd_api w2)) (\<lambda>n. csr_GetCluster r n (wd_api w2)) xsvc = Inr rc"
    and res2: "csr_Resolver r (spec_Source (xs_Spec xsvc)) (spec_Ports (xs_Spec xsvc)) (wd_cache w2) = (Inr res2, cache2)"
    and same: "mset (Dedupe (r_Endpoints res2)) = mset (Dedupe (r_Endpoints res))"
  shows "Reconcile lib (with_writes createService updateService create update delete r) req w2 = Reconcile lib r req w2"
proof -
  let ?x = "xsvc\<lparr>xs_Status := s\<rparr>" and ?r = "with_writes createService updateService create update delete r"
  obtain kept rejected status n ttl w0 where
    f: "filterAddresses (csr_DefaultAddressPolicy r) rc (Dedupe (r_Endpoints res)) = Inr (kept, rejected)"
    and first: "write_endpoints lib r xsvc status rc kept n ttl None w0 = ((d, None), w1)"
    using Reconcile_resolved [OF get run valid rc res] unfolding sum.case by metis
  have again: "write_endpoints lib ?r ?x status2 rc kept2 n2 ttl2 None w3 = write_endpoints lib r ?x status2 rc kept2 n2 ttl2 None w3"
    if "filterAddresses (csr_DefaultAddressPolicy r) rc (Dedupe (r_Endpoints res2)) = Inr (kept2, rejected2)" "wd_api w3 = wd_api w2"
    for kept2 rejected2 status2 n2 ttl2 w3
    using filterAddresses_perm [OF f that(1) same]
    by (intro write_endpoints_again [where services = services and slices = slices, OF env apart iv admitted_port_names [OF adm] first
          filterAddresses_distinct [OF f Dedupe_distinct]]) (simp_all add: that(2) world)
  obtain w3 where source: "resolve_source r req ?x w2 = ((Dedupe (r_Endpoints res2), r_TTL res2, None), w3)" "wd_api w3 = wd_api w2"
    using res2 by (simp add: resolve_source_def Let_def)
  show ?thesis
  proof (cases "filterAddresses (csr_DefaultAddressPolicy r) rc (Dedupe (r_Endpoints res2))")
    case (Inl err)
    then show ?thesis by (simp add: Reconcile_def with_writes_simps get2 Let_def status_ignored valid rc2 source)
  next
    case (Inr kr)
    obtain kept2 rejected2 where kr: "kr = (kept2, rejected2)" by fastforce
    show ?thesis
      using again [OF Inr [unfolded kr]] by (simp add: Reconcile_def with_writes_simps get2 Let_def status_ignored valid rc2 source Inr kr)
  qed
qed

section \<open>Witnesses\<close>

definition demo_sources :: "CacheState resolver" where
  "demo_sources = Registry_Resolve (source_resolvers demo_int_value (lib_lsas demo_controller_lib) (\<lambda>_. demo_lookup)
     (sourceProvider demo_lib empty_reader (demo_provider demo_token_cluster)))"

text \<open>Two static addresses under a policy of one family: the IPv4 one is written.\<close>

definition demo_v4 :: Endpoint where
  "demo_v4 = zero_endpoint\<lparr>e_Address := Addr4 0xCB007107, e_Ready := True, e_Serving := True, e_PortMap := [''pg'' \<mapsto> 5432]\<rparr>"

definition demo_v6 :: Endpoint where
  "demo_v6 = zero_endpoint\<lparr>e_Address := Addr6 0x20010DB8000000000000000000000007 [], e_Ready := True, e_Serving := True,
     e_PortMap := [''pg'' \<mapsto> 5432]\<rparr>"

lemma demo_unmapped:
  "Unmap (Addr4 0xCB007107) = Addr4 0xCB007107"
  "Unmap (Addr6 0x20010DB8000000000000000000000007 []) = Addr6 0x20010DB8000000000000000000000007 []"
  by code_simp+

lemma demo_resolved:
  "demo_sources (spec_Source (xs_Spec demo_admitted)) (spec_Ports (xs_Spec demo_admitted)) st =
     (Inr \<lparr>r_Endpoints = [demo_v4, demo_v6], r_TTL = 0, r_Warnings = []\<rparr>, st)"
  by (simp add: demo_sources_def Registry_Resolve_def source_resolvers_def Static_Resolve_def demo_admitted_def zero_source_def
      demo_parsed defaultPortMap_def resolvedPort_def zero_port_def demo_v4_def demo_v6_def demo_unmapped zero_endpoint_def)

lemma Reconcile_writes_resolved_witness:
  "\<exists>d w'. Reconcile demo_controller_lib (demo_reconciler (Inr demo_admitted) demo_sources) demo_req demo_world = ((d, None), w') \<and>
     written_addresses (managed (mem_view (snd (wd_api w'))) ''app'' ''db'') = {''203.0.113.7''}"
proof -
  let ?r = "demo_reconciler (Inr demo_admitted) demo_sources"
  have src: "src_ClusterRef (spec_Source (xs_Spec demo_admitted)) = None" by (simp add: demo_admitted_def zero_source_def)
  note valid = demo_admitted_valid
  obtain d w' where run: "Reconcile demo_controller_lib ?r demo_req demo_world = ((d, None), w')"
    using demo_Reconcile_ok [OF valid src] by blast
  have resolver: "csr_Resolver ?r = Registry_Resolve (source_resolvers demo_int_value (lib_lsas demo_controller_lib) (\<lambda>_. demo_lookup)
      (sourceProvider demo_lib empty_reader (demo_provider demo_token_cluster)))"
    by (simp add: demo_reconciler_def demo_sources_def)
  have resolved: "csr_Resolver ?r (spec_Source (xs_Spec demo_admitted)) (spec_Ports (xs_Spec demo_admitted)) (wd_cache demo_world) =
      (Inr \<lparr>r_Endpoints = [demo_v4, demo_v6], r_TTL = 0, r_Warnings = []\<rparr>, wd_cache demo_world)"
    using demo_resolved by (simp add: demo_reconciler_def)
  have get: "csr_Get ?r demo_req (wd_api demo_world) = Inr demo_admitted" by (simp add: demo_reconciler_def)
  obtain p where p: "NewPolicy None = Inr p"
    and written: "written_addresses (managed (mem_view (snd (wd_api w'))) (xs_Namespace demo_admitted) (NameFor demo_admitted)) =
       {String (e_Address e) | e. e \<in> set (Dedupe [demo_v4, demo_v6]) \<and> cluster_permits None (e_Address e) \<and>
          Allow p (e_Address e) = None \<and> Allows (spec_IPFamilyPolicy (xs_Spec demo_admitted)) (AddressTypeOf e)}"
    using Reconcile_writes_resolved [OF demo_environment_ok resolver get demo_admitted_ok valid demo_no_cluster [OF src] resolved run]
    by (auto simp: demo_reconciler_def)
  have "set (Dedupe [demo_v4, demo_v6]) = {demo_v4, demo_v6}"
    by (simp add: Dedupe_def dedupe_step_def demo_v4_def demo_v6_def zero_endpoint_def)
  moreover have "Allow p (e_Address demo_v4) = None"
  proof -
    have "p = \<lparr>pol_allowed = [], pol_denied = [], pol_denySpecialPurpose = True\<rparr>" using p by (simp add: NewPolicy_def)
    moreover have "Allow \<lparr>pol_allowed = [], pol_denied = [], pol_denySpecialPurpose = True\<rparr> (Addr4 0xCB007107) = None" by code_simp
    ultimately show ?thesis by (simp add: demo_v4_def)
  qed
  moreover have "Allows IPFamilyPolicyIPv4 (AddressTypeOf demo_v4)" "\<not> Allows IPFamilyPolicyIPv4 (AddressTypeOf demo_v6)"
    by code_simp+
  moreover have "String (e_Address demo_v4) = ''203.0.113.7''" by code_simp
  ultimately have "written_addresses (managed (mem_view (snd (wd_api w'))) ''app'' ''db'') = {''203.0.113.7''}"
    using written by (auto simp: demo_admitted_def NameFor_def cluster_permits_def intro!: exI [of _ demo_v4])
  with run show ?thesis by blast
qed

text \<open>The wired reconciler, on the same specification: every address that it leaves is an ordinary one.\<close>

definition demo_main :: "((NamespacedName \<rightharpoonup> Service) \<times> EndpointSlice list) CrossServiceReconciler" where
  "demo_main = main_reconciler (demo_reconciler (Inr demo_admitted) demo_sources) demo_int_value (lib_lsas demo_controller_lib)
     (\<lambda>_. demo_lookup) (sourceProvider demo_lib empty_reader (demo_provider demo_token_cluster)) 100"

lemma demo_main_eq: "demo_main = demo_reconciler (Inr demo_admitted) demo_sources"
  by (simp add: demo_main_def main_reconciler_def demo_reconciler_def demo_sources_def)

lemma main_never_writes_special_witness:
  "\<exists>d w'. Reconcile demo_controller_lib demo_main demo_req demo_world = ((d, None), w') \<and>
     (\<forall>s \<in> written_addresses (managed (mem_view (snd (wd_api w'))) ''app'' ''db''). \<exists>a. s = String a \<and> \<not> special_addr (Unmap a))"
proof -
  let ?mgr = "demo_reconciler (Inr demo_admitted) demo_sources"
  have src: "src_ClusterRef (spec_Source (xs_Spec demo_admitted)) = None" by (simp add: demo_admitted_def zero_source_def)
  obtain d w' where run: "Reconcile demo_controller_lib demo_main demo_req demo_world = ((d, None), w')"
    using demo_Reconcile_ok [OF demo_admitted_valid src] unfolding demo_main_eq by blast
  have env: "environment_ok demo_controller_lib demo_main demo_admit (\<lambda>st. services_view (fst st)) (\<lambda>st. mem_view (snd st))"
    unfolding demo_main_eq by (rule demo_environment_ok)
  have get: "csr_Get ?mgr demo_req (wd_api demo_world) = Inr demo_admitted" by (simp add: demo_reconciler_def)
  have names: "xs_Namespace demo_admitted = ''app''" "NameFor demo_admitted = ''db''"
    by (simp_all add: demo_admitted_def NameFor_def)
  have "\<exists>a. s = String a \<and> \<not> special_addr (Unmap a)"
    if "s \<in> written_addresses (managed (mem_view (snd (wd_api w'))) (xs_Namespace demo_admitted) (NameFor demo_admitted))" for s
    using main_never_writes_special [OF env [unfolded demo_main_def] get demo_admitted_ok demo_admitted_valid demo_no_cluster [OF src]
        demo_resolved [unfolded demo_sources_def] run [unfolded demo_main_def] that] .
  with run show ?thesis unfolding names by blast
qed

text \<open>The first reconciliation of the specification above, and a second one that reports no error even where every write fails.\<close>

lemma demo_objects_apart: "objects_apart (demo_reconciler x resolve) (\<lambda>st. services_view (fst st))"
  by (auto simp: objects_apart_def demo_reconciler_def beside_services_def split: prod.split)

lemma Reconcile_converges_witness:
  "\<exists>d w1. Reconcile demo_controller_lib (demo_reconciler (Inr demo_admitted) demo_sources) demo_req demo_world = ((d, None), w1) \<and>
     (\<exists>d w2. Reconcile demo_controller_lib
        (with_writes (\<lambda>s st. (Inl (Errorf []), st)) (\<lambda>s st. (Inl (Errorf []), st)) (\<lambda>s st. (Some (Errorf []), st))
           (\<lambda>s st. (Some (Errorf []), st)) (\<lambda>s st. (Some (Errorf []), st)) (demo_reconciler (Inr demo_admitted) demo_sources))
        demo_req w1 = ((d, None), w2))"
proof -
  let ?r = "demo_reconciler (Inr demo_admitted) demo_sources"
  have src: "src_ClusterRef (spec_Source (xs_Spec demo_admitted)) = None" by (simp add: demo_admitted_def zero_source_def)
  obtain d w1 where run: "Reconcile demo_controller_lib ?r demo_req demo_world = ((d, None), w1)"
    using demo_Reconcile_ok [OF demo_admitted_valid src] by blast
  obtain d2 w2 where run2: "Reconcile demo_controller_lib ?r demo_req w1 = ((d2, None), w2)"
    using demo_Reconcile_ok [OF demo_admitted_valid src] by blast
  have get: "csr_Get ?r demo_req st = Inr demo_admitted" for st by (simp add: demo_reconciler_def)
  then have get2: "csr_Get ?r demo_req (wd_api w1) = Inr (demo_admitted\<lparr>xs_Status := xs_Status demo_admitted\<rparr>)" by simp
  have res: "csr_Resolver ?r (spec_Source (xs_Spec demo_admitted)) (spec_Ports (xs_Spec demo_admitted)) st =
      (Inr \<lparr>r_Endpoints = [demo_v4, demo_v6], r_TTL = 0, r_Warnings = []\<rparr>, st)" for st
    using demo_resolved by (simp add: demo_reconciler_def)
  have iv: "lib_intValue demo_controller_lib (IntVal 0) = 0" by (simp add: demo_controller_lib_def demo_int_value_def)
  have "Reconcile demo_controller_lib (with_writes a b c u e ?r) demo_req w1 = Reconcile demo_controller_lib ?r demo_req w1" for a b c u e
    by (rule Reconcile_converges [OF demo_environment_ok demo_objects_apart iv get demo_admitted_ok demo_admitted_valid
          demo_no_cluster [OF src] res run refl refl get2 demo_no_cluster [OF src] res refl])
  then show ?thesis using run run2 by metis
qed

text \<open>An outage of a source that had resolved to one address: the address stays.\<close>

definition demo_outage :: CrossService where
  "demo_outage = demo_admitted\<lparr>xs_Status := zero_status
     \<lparr>css_Source := Some (zero_source_status\<lparr>sst_LastKnownGood := ToPersisted [demo_v4]\<rparr>)\<rparr>\<rparr>"

lemma demo_outage_known: "endpointsFromStatus (css_Source (xs_Status demo_outage)) = [persisted_view demo_v4]"
proof -
  have "list_all (\<lambda>e. IsValid (e_Address e)) [demo_v4]" by code_simp
  then have "endpointsFromStatus (Some (zero_source_status\<lparr>sst_LastKnownGood := ToPersisted [demo_v4]\<rparr>)) =
      map persisted_view (take MaxPersistedEndpoints [demo_v4])"
    by (intro endpointsFromStatus_persisted) simp_all
  then show ?thesis by (simp add: demo_outage_def MaxPersistedEndpoints_def)
qed

lemma demo_outage_spec: "xs_Spec demo_outage = xs_Spec demo_admitted" "xs_Name demo_outage = ''db''" "xs_Namespace demo_outage = ''app''"
  by (simp_all add: demo_outage_def demo_admitted_def)

lemma Reconcile_keeps_last_known_good_witness:
  "\<exists>d w'. Reconcile demo_controller_lib (demo_reconciler (Inr demo_outage) (\<lambda>src ports st. (Inl (Errorf []), st))) demo_req demo_world
       = ((d, None), w') \<and>
     written_addresses (managed (mem_view (snd (wd_api w'))) ''app'' ''db'') = {''203.0.113.7''}"
proof -
  let ?r = "demo_reconciler (Inr demo_outage) (\<lambda>src ports st. (Inl (Errorf []), st))"
  have valid: "validateSpec demo_outage = None"
    using demo_admitted_valid by (simp add: validateSpec_def demo_outage_spec)
  have src: "src_ClusterRef (spec_Source (xs_Spec demo_outage)) = None"
    by (simp add: demo_outage_spec demo_admitted_def zero_source_def)
  obtain d w' where run: "Reconcile demo_controller_lib ?r demo_req demo_world = ((d, None), w')"
    using demo_Reconcile_ok [OF valid src] by blast
  have get: "csr_Get ?r demo_req (wd_api demo_world) = Inr demo_outage"
    and res: "csr_Resolver ?r (spec_Source (xs_Spec demo_outage)) (spec_Ports (xs_Spec demo_outage)) (wd_cache demo_world) =
      (Inl (Errorf []), wd_cache demo_world)"
    by (simp_all add: demo_reconciler_def)
  have dist: "distinct (map e_Address (endpointsFromStatus (css_Source (xs_Status demo_outage))))"
    by (simp add: demo_outage_known)
  have policy: "case FailurePolicyDefaults (spec_FailurePolicy (xs_Spec demo_outage)) of (threshold, staleAfter, onStale) \<Rightarrow>
       \<not> (onStale = StaleActionRemove \<and> sint threshold \<le> sint (consecutive_errors (css_Source (xs_Status demo_outage))) \<and>
          \<not> withinStaleWindow (css_Source (xs_Status demo_outage)) (csr_Now ?r) staleAfter)"
    by (simp add: FailurePolicyDefaults_def demo_outage_spec demo_admitted_def)
  have placed: "placeable (spec_Ports (xs_Spec demo_admitted)) (spec_IPFamilyPolicy (xs_Spec demo_admitted)) (persisted_view demo_v4)"
    by code_simp
  have "String (e_Address demo_v4) = ''203.0.113.7''" by code_simp
  moreover have "written_addresses (managed (mem_view (snd (wd_api w'))) ''app'' (NameFor demo_outage)) =
      {String (e_Address e) | e. e = persisted_view demo_v4 \<and>
         placeable (spec_Ports (xs_Spec demo_admitted)) (spec_IPFamilyPolicy (xs_Spec demo_admitted)) e}"
    using Reconcile_keeps_last_known_good [OF demo_environment_ok get valid demo_no_cluster [OF src] res dist policy run]
    by (simp add: demo_outage_known demo_outage_spec)
  moreover have "NameFor demo_outage = ''db''" by (simp add: NameFor_def demo_outage_spec demo_admitted_def)
  ultimately show ?thesis using run placed by auto
qed

end
